(* ===== verification/Prelude.thy ===== *)
theory Prelude
  imports Main "HOL-Library.Word" "HOL-Library.Sublist"
begin

text \<open>
  Shared vocabulary of the development: the machine integer types, the result type of fallible
  Rust functions, the collection of preservation rules and the generic lemmas on lists, maps and
  prefixes that the component theories use.

  A Rust \<open>str\<close> is a sequence of UTF-8 bytes; it is modelled by \<open>string\<close>, one
  \<open>char\<close> per byte.  A raw buffer \<open>[u8]\<close> is a list of \<open>8 word\<close>.  The two are related by
  \<open>as_bytes\<close> and \<open>of_bytes\<close>.
\<close>

unbundle bit_operations_syntax

named_theorems inv_intros \<open>what preserves the invariant of the kernel programs\<close>

type_synonym u8 = "8 word"
type_synonym u16 = "16 word"
type_synonym u32 = "32 word"
type_synonym u64 = "64 word"

type_synonym ('e, 'a) result = "'e + 'a"

abbreviation Ok :: "'a \<Rightarrow> ('e, 'a) result" where
  "Ok \<equiv> Inr"

abbreviation Err :: "'e \<Rightarrow> ('e, 'a) result" where
  "Err \<equiv> Inl"

definition is_ok :: "('e, 'a) result \<Rightarrow> bool" where
  "is_ok r = (case r of Inl _ \<Rightarrow> False | Inr _ \<Rightarrow> True)"

lemma is_ok_simps [simp]:
  "is_ok (Inr a)" "\<not> is_ok (Inl e)"
  by (simp_all add: is_ok_def)

lemma is_ok_obtain: "is_ok r \<Longrightarrow> \<exists>a. r = Inr a"
  by (cases r) simp_all

text \<open>The \<open>?\<close> operator: an error returns early, a value goes on.\<close>

definition and_then :: "('e, 'a) result \<Rightarrow> ('a \<Rightarrow> ('e, 'b) result) \<Rightarrow> ('e, 'b) result" where
  "and_then r f = (case r of Inl e \<Rightarrow> Err e | Inr a \<Rightarrow> f a)"

lemma and_then_simps [simp]:
  "and_then (Inr a) f = f a"
  "and_then (Inl e) f = Inl e"
  by (simp_all add: and_then_def)

lemma and_then_Inr: "and_then r f = Inr b \<longleftrightarrow> (\<exists>a. r = Inr a \<and> f a = Inr b)"
  by (cases r) simp_all

lemma and_then_Inl: "and_then r f = Inl e \<longleftrightarrow> r = Inl e \<or> (\<exists>a. r = Inr a \<and> f a = Inl e)"
  by (cases r) simp_all

definition map_err :: "('e \<Rightarrow> 'f) \<Rightarrow> ('e, 'a) result \<Rightarrow> ('f, 'a) result" where
  "map_err g r = (case r of Inl e \<Rightarrow> Err (g e) | Inr a \<Rightarrow> Ok a)"

lemma map_err_simps [simp]:
  "map_err g (Inr a) = Inr a"
  "map_err g (Inl e) = Inl (g e)"
  "map_err g r = Inr a \<longleftrightarrow> r = Inr a"
  by (simp_all add: map_err_def split: sum.splits)

text \<open>\<open>std::io::Error\<close>: its kind and a message.\<close>

datatype io_kind =
  NotFoundKind | PermissionDenied | InvalidData | UnexpectedEof | Interrupted | OtherKind

datatype io_error = IoError (io_error_kind: io_kind) (io_error_message: string)

text \<open>
  \<open>iter().map(f).collect::<Result<Vec<_>, _>>()\<close>: the first error wins.
\<close>

fun collect_results :: "('a \<Rightarrow> ('e, 'b) result) \<Rightarrow> 'a list \<Rightarrow> ('e, 'b list) result" where
  "collect_results f [] = Ok []"
| "collect_results f (x # xs) =
     (case f x of
        Inl e \<Rightarrow> Err e
      | Inr y \<Rightarrow>
          (case collect_results f xs of Inl e \<Rightarrow> Err e | Inr ys \<Rightarrow> Ok (y # ys)))"

lemma collect_results_Ok:
  "collect_results f xs = Inr ys \<longleftrightarrow> list_all2 (\<lambda>x y. f x = Inr y) xs ys"
proof (induction xs arbitrary: ys)
  case Nil
  then show ?case by auto
next
  case (Cons x xs)
  then show ?case
    by (cases ys) (fastforce split: sum.splits)+
qed

lemma collect_results_Err:
  "collect_results f xs = Inl e \<Longrightarrow> \<exists>x \<in> set xs. f x = Inl e"
  by (induction xs) (auto split: sum.splits)

text \<open>The error is that of the first element that fails; a list is collected part by part.\<close>

lemma collect_results_Inl:
  "collect_results f xs = Inl e \<longleftrightarrow>
     (\<exists>x before after. xs = before @ x # after \<and> f x = Inl e \<and> list_all (\<lambda>x. is_ok (f x)) before)"
proof (induction xs)
  case Nil
  then show ?case by simp
next
  case (Cons a xs)
  show ?case
  proof (cases "f a")
    case (Inl d)
    then have "a # xs = before @ x # after \<and> list_all (\<lambda>x. is_ok (f x)) before \<longleftrightarrow> before = [] \<and> x = a \<and> after = xs" for before x after
      by (auto simp: Cons_eq_append_conv)
    with Inl show ?thesis
      by (metis collect_results.simps(2) sum.case(1) sum.inject(1))
  next
    case (Inr b)
    then have "collect_results f (a # xs) = Inl e \<longleftrightarrow> collect_results f xs = Inl e"
      by (simp split: sum.split)
    also have "\<dots> \<longleftrightarrow> (\<exists>x before after. xs = before @ x # after \<and> f x = Inl e \<and> list_all (\<lambda>x. is_ok (f x)) before)"
      by (rule Cons.IH)
    also have "\<dots> \<longleftrightarrow> (\<exists>x before after. a # xs = before @ x # after \<and> f x = Inl e \<and> list_all (\<lambda>x. is_ok (f x)) before)"
      (is "_ \<longleftrightarrow> ?found")
    proof
      assume "\<exists>x before after. xs = before @ x # after \<and> f x = Inl e \<and> list_all (\<lambda>x. is_ok (f x)) before"
      then obtain x before after where
        "a # xs = (a # before) @ x # after" "f x = Inl e" "list_all (\<lambda>x. is_ok (f x)) (a # before)"
        using Inr by auto
      then show ?found by blast
    next
      assume ?found
      then obtain x before after where found: "a # xs = before @ x # after" "f x = Inl e" "list_all (\<lambda>x. is_ok (f x)) before"
        by blast
      then show "\<exists>x before after. xs = before @ x # after \<and> f x = Inl e \<and> list_all (\<lambda>x. is_ok (f x)) before"
        using Inr by (cases before) auto
    qed
    finally show ?thesis .
  qed
qed

lemma collect_results_append:
  "collect_results f (xs @ ys) =
     (case collect_results f xs of
        Inl e \<Rightarrow> Inl e
      | Inr as \<Rightarrow> (case collect_results f ys of Inl e \<Rightarrow> Inl e | Inr bs \<Rightarrow> Inr (as @ bs)))"
  by (induction xs) (auto split: sum.split)

lemma collect_results_length:
  "collect_results f xs = Inr ys \<Longrightarrow> length ys = length xs"
  by (auto simp: collect_results_Ok dest: list_all2_lengthD)

lemma list_all2_Inr_ex:
  assumes "list_all2 (\<lambda>x y. f x = Inr y) xs ys"
  shows "(\<exists>y \<in> set ys. P y) \<longleftrightarrow> (\<exists>x \<in> set xs. \<exists>y. f x = Inr y \<and> P y)"
  using assms by (induction rule: list_all2_induct) auto

subsection \<open>Prefixes, bytes and padded buffers\<close>

definition as_bytes :: "string \<Rightarrow> u8 list" where
  "as_bytes s = map of_char s"

definition of_bytes :: "u8 list \<Rightarrow> string" where
  "of_bytes bs = map (\<lambda>b. char_of (unat b)) bs"

abbreviation byte :: "char \<Rightarrow> u8" where
  "byte c \<equiv> of_char c"

lemma unat_byte: "unat (byte c) = (of_char c :: nat)"
proof -
  have "(of_char c :: nat) < 256"
    by simp
  moreover have "byte c = of_nat (of_char c)"
    by (cases c) simp
  ultimately show ?thesis
    by (simp add: unat_of_nat take_bit_eq_mod)
qed

lemma byte_inject [simp]: "byte c = byte d \<longleftrightarrow> c = d"
  by (metis unat_byte of_char_eq_iff)

lemma inj_byte: "inj byte"
  by (simp add: inj_def)

lemma byte_eq_0 [simp]: "byte c = 0 \<longleftrightarrow> c = CHR 0x00"
  using byte_inject [of c "CHR 0x00"] by (simp del: byte_inject)

lemma as_bytes_simps [simp]:
  "as_bytes [] = []"
  "as_bytes (c # s) = byte c # as_bytes s"
  "as_bytes (s @ t) = as_bytes s @ as_bytes t"
  by (simp_all add: as_bytes_def)

lemma length_as_bytes [simp]: "length (as_bytes s) = length s"
  by (simp add: as_bytes_def)

lemma as_bytes_inject [simp]: "as_bytes s = as_bytes t \<longleftrightarrow> s = t"
  by (simp add: as_bytes_def inj_map_eq_map inj_byte)

lemma prefix_as_bytes [simp]: "prefix (as_bytes p) (as_bytes s) \<longleftrightarrow> prefix p s"
proof (induction p arbitrary: s)
  case Nil
  then show ?case by simp
next
  case (Cons c p)
  then show ?case by (cases s) simp_all
qed

lemma as_bytes_nth [simp]: "i < length s \<Longrightarrow> as_bytes s ! i = byte (s ! i)"
  by (simp add: as_bytes_def)

lemma take_as_bytes: "take n (as_bytes s) = as_bytes (take n s)"
  by (simp add: as_bytes_def take_map)

lemma zero_in_as_bytes [simp]: "0 \<in> set (as_bytes s) \<longleftrightarrow> CHR 0x00 \<in> set s"
  by (induction s) (auto simp: eq_commute [of "0::u8"])

lemma char_of_unat_byte [simp]: "char_of (unat (byte c)) = c"
  by (simp add: unat_byte)

lemma of_bytes_as_bytes [simp]: "of_bytes (as_bytes s) = s"
  by (induction s) (simp_all add: of_bytes_def)

lemma of_bytes_simps [simp]:
  "of_bytes [] = []"
  "of_bytes (b # bs) = char_of (unat b) # of_bytes bs"
  "of_bytes (bs @ cs) = of_bytes bs @ of_bytes cs"
  by (simp_all add: of_bytes_def)

lemma length_of_bytes [simp]: "length (of_bytes bs) = length bs"
  by (simp add: of_bytes_def)

lemma byte_char_of [simp]: "byte (char_of (unat b)) = b"
proof -
  have "unat b < 256"
    using unsigned_less [of b, where 'a = nat] by simp
  then have "unat (byte (char_of (unat b))) = unat b"
    by (simp add: unat_byte)
  then show ?thesis
    by (rule unsigned_word_eqI)
qed

lemma as_bytes_of_bytes [simp]: "as_bytes (of_bytes bs) = bs"
  by (induction bs) simp_all

text \<open>
  A fixed-size buffer holds a C string: the bytes before the first zero.
\<close>

definition c_string :: "u8 list \<Rightarrow> u8 list" where
  "c_string buf = takeWhile (\<lambda>b. b \<noteq> 0) buf"

text \<open>
  \<open>pad n bs\<close> is a zeroed buffer of \<open>n\<close> bytes whose beginning has been overwritten by \<open>bs\<close>.
\<close>

definition pad :: "nat \<Rightarrow> u8 list \<Rightarrow> u8 list" where
  "pad n bs = bs @ replicate (n - length bs) 0"

lemma length_pad [simp]: "length bs \<le> n \<Longrightarrow> length (pad n bs) = n"
  by (simp add: pad_def)

lemma c_string_append_zero:
  "0 \<notin> set bs \<Longrightarrow> c_string (bs @ 0 # rest) = bs"
  by (induction bs) (auto simp: c_string_def)

lemma c_string_pad:
  "0 \<notin> set bs \<Longrightarrow> c_string (pad n bs) = bs"
  by (cases "n - length bs") (auto simp: pad_def c_string_def intro!: takeWhile_eq_all_conv [THEN iffD2] c_string_append_zero [unfolded c_string_def])

lemma zero_not_in_c_string [simp]: "0 \<notin> set (c_string buf)"
  by (auto simp: c_string_def dest: set_takeWhileD)

lemma prefix_c_string: "prefix (c_string buf) buf"
  by (simp add: c_string_def takeWhile_is_prefix)

lemma c_string_length_le: "length (c_string buf) \<le> length buf"
  by (simp add: c_string_def length_takeWhile_le)

lemma c_string_nth:
  "i < length (c_string buf) \<Longrightarrow> buf ! i = c_string buf ! i"
  by (simp add: c_string_def takeWhile_nth)

lemma c_string_nth_end:
  "length (c_string buf) < length buf \<Longrightarrow> buf ! length (c_string buf) = 0"
  using nth_length_takeWhile [of "\<lambda>b. b \<noteq> 0" buf] by (simp add: c_string_def)

subsection \<open>Searching a table by index\<close>

text \<open>
  \<open>for i in 0..n { if let Some(v) = MAP.get(&i) { if p(v) { return ... } } }\<close>: the first entry,
  in index order, that satisfies the test.
\<close>

definition first_entry :: "nat \<Rightarrow> (u32 \<rightharpoonup> 'v) \<Rightarrow> ('v \<Rightarrow> bool) \<Rightarrow> 'v option" where
  "first_entry n m p =
     find p (List.map_filter (\<lambda>i. m (of_nat i)) [0..<n])"

definition table_of :: "'v list \<Rightarrow> (u32 \<rightharpoonup> 'v)" where
  "table_of vs = (\<lambda>k. if unat k < length vs then Some (vs ! unat k) else None)"

lemma map_filter_table:
  assumes "length vs \<le> n" and "n < 2 ^ 32"
  shows "List.map_filter (\<lambda>i. table_of vs (of_nat i)) [0..<n] = vs"
proof -
  have split: "[0..<n] = [0..<length vs] @ [length vs..<n]"
    using assms(1) upt_add_eq_append [of 0 "length vs" "n - length vs"] by simp
  have un: "unat (of_nat i :: u32) = i" if "i < n" for i
    using that assms(2) by (simp add: unat_of_nat)
  have tab: "table_of vs (of_nat i) = (if i < length vs then Some (vs ! i) else None)" if "i < n" for i
    using un [OF that] by (simp add: table_of_def)
  have low: "filter (\<lambda>i. table_of vs (of_nat i) \<noteq> None) [0..<length vs] = [0..<length vs]"
    using assms(1) tab by (intro filter_True) auto
  have high: "filter (\<lambda>i. table_of vs (of_nat i) \<noteq> None) [length vs..<n] = []"
    using tab by (auto simp: filter_empty_conv)
  have "map (\<lambda>i. the (table_of vs (of_nat i))) [0..<length vs] = map (\<lambda>i. vs ! i) [0..<length vs]"
    using assms(1) tab by (intro map_cong) auto
  then show ?thesis
    by (simp only: split List.map_filter_def filter_append low high comp_def map_append
        list.map append_Nil2 map_nth)
qed

lemma first_entry_table:
  "length vs \<le> n \<Longrightarrow> n < 2 ^ 32 \<Longrightarrow> first_entry n (table_of vs) p = find p vs"
  by (simp add: first_entry_def map_filter_table)

lemma find_is_Some: "(\<exists>v. find p vs = Some v) \<longleftrightarrow> (\<exists>v \<in> set vs. p v)"
  by (induction vs) auto

lemma find_SomeD: "find P xs = Some x \<Longrightarrow> x \<in> set xs \<and> P x"
  by (induction xs) (auto split: if_splits)

lemma find_Some_split:
  "find P xs = Some x \<longleftrightarrow> (\<exists>ys zs. xs = ys @ x # zs \<and> P x \<and> (\<forall>y \<in> set ys. \<not> P y))"
proof (induction xs)
  case Nil
  then show ?case by simp
next
  case (Cons a xs)
  have "(\<exists>ys zs. a # xs = ys @ x # zs \<and> P x \<and> (\<forall>y \<in> set ys. \<not> P y)) \<longleftrightarrow>
      (a = x \<and> P x) \<or> (\<not> P a \<and> (\<exists>ys zs. xs = ys @ x # zs \<and> P x \<and> (\<forall>y \<in> set ys. \<not> P y)))"
    (is "?L \<longleftrightarrow> _ \<or> ?R")
  proof
    assume ?L
    then obtain ys zs where "a # xs = ys @ x # zs" "P x" "\<forall>y \<in> set ys. \<not> P y"
      by blast
    then show "(a = x \<and> P x) \<or> ?R"
      by (cases ys) auto
  next
    assume "(a = x \<and> P x) \<or> ?R"
    then show ?L
    proof
      assume "a = x \<and> P x"
      then show ?L by (intro exI [of _ "[]"] exI [of _ xs]) simp
    next
      assume ?R
      then obtain ys zs where "\<not> P a" "xs = ys @ x # zs" "P x" "\<forall>y \<in> set ys. \<not> P y"
        by blast
      then show ?L by (intro exI [of _ "a # ys"] exI [of _ zs]) simp
    qed
  qed
  with Cons show ?case by auto
qed

lemma find_list_all2:
  "list_all2 R xs ys \<Longrightarrow> (\<And>x y. R x y \<Longrightarrow> P x = Q y) \<Longrightarrow> rel_option R (find P xs) (find Q ys)"
  by (induction rule: list_all2_induct) auto

lemma map_nth_cut: "n \<le> length xs \<Longrightarrow> map (\<lambda>i. xs ! i) [0..<n] = take n xs"
  by (rule nth_equalityI) auto

text \<open>A counter below a bound does not wrap around.\<close>

lemma unat_inc: "n < b \<Longrightarrow> unat (n + 1) = Suc (unat (n :: u32))"
proof -
  assume "n < b"
  then have "unat n + 1 < 2 ^ 32"
    using unsigned_less [of b, where 'a = nat] by (simp add: word_less_nat_alt)
  then show ?thesis
    by (simp add: unat_word_ariths)
qed

lemma inc_le_bound: "n < b \<Longrightarrow> n + 1 \<le> (b :: u32)"
  by (simp add: word_le_nat_alt unat_inc word_less_nat_alt)

lemma unat_diff_inc: "n < b \<Longrightarrow> unat (b - n) = Suc (unat (b - (n + 1 :: u32)))"
  using inc_le_bound [of n b] unat_inc [of n b]
  by (simp add: unat_sub word_less_nat_alt order_less_imp_le Suc_diff_Suc)

end
