(* ===== verification/Rust_Str.thy ===== *)
theory Rust_Str
  imports Prelude
begin

text \<open>
  The operations of the Rust standard library on \<open>str\<close> that the sources use.  A string is the
  list of its UTF-8 bytes, so comparison, searching and slicing are byte operations, as in Rust;
  a Rust \<open>char\<close> is modelled by the nonempty byte sequence that encodes it (\<open>rchar\<close>).
\<close>

type_synonym rchar = string

subsection \<open>Searching and splitting\<close>

abbreviation str_starts_with :: "string \<Rightarrow> string \<Rightarrow> bool" where
  "str_starts_with s p \<equiv> prefix p s"

abbreviation str_ends_with :: "string \<Rightarrow> string \<Rightarrow> bool" where
  "str_ends_with s p \<equiv> suffix p s"

abbreviation str_contains :: "string \<Rightarrow> string \<Rightarrow> bool" where
  "str_contains s p \<equiv> sublist p s"

fun str_find :: "string \<Rightarrow> string \<Rightarrow> nat option" where
  "str_find [] p = (if p = [] then Some 0 else None)"
| "str_find (c # s) p =
     (if prefix p (c # s) then Some 0 else map_option Suc (str_find s p))"

fun split_on :: "char \<Rightarrow> string \<Rightarrow> string list" where
  "split_on d [] = [[]]"
| "split_on d (c # s) =
     (if c = d then [] # split_on d s
      else (case split_on d s of [] \<Rightarrow> [[c]] | p # ps \<Rightarrow> (c # p) # ps))"

definition strip_cr :: "string \<Rightarrow> string" where
  "strip_cr l = (if l \<noteq> [] \<and> last l = CHR 0x0D then butlast l else l)"

text \<open>
  \<open>str::lines\<close>: a final line without a line feed keeps its carriage return; an empty last piece
  is no line.
\<close>

definition str_lines :: "string \<Rightarrow> string list" where
  "str_lines s =
     (let ps = split_on CHR 0x0A s
      in map strip_cr (butlast ps) @ (if last ps = [] then [] else [last ps]))"

fun join_with :: "string \<Rightarrow> string list \<Rightarrow> string" where
  "join_with sep [] = []"
| "join_with sep [p] = p"
| "join_with sep (p # q # ps) = p @ sep @ join_with sep (q # ps)"

lemma join_with_push: "join_with sep ((c # p) # ps) = c # join_with sep (p # ps)"
  by (cases ps) simp_all

lemma split_on_not_Nil [simp]: "split_on d s \<noteq> []"
  by (induction s) (auto split: list.splits)

lemma join_split_on: "join_with [d] (split_on d s) = s"
proof (induction s)
  case Nil
  then show ?case by simp
next
  case (Cons c s)
  then show ?case
    by (cases "split_on d s") (auto simp: join_with_push)
qed

lemma split_on_pieces: "p \<in> set (split_on d s) \<Longrightarrow> d \<notin> set p"
  by (induction s arbitrary: p) (auto split: list.splits if_splits)

lemma split_on_single: "d \<notin> set s \<Longrightarrow> split_on d s = [s]"
  by (induction s) auto

lemma split_on_append: "d \<notin> set a \<Longrightarrow> split_on d (a @ d # s) = a # split_on d s"
  by (induction a) auto

lemma split_on_join:
  "ps \<noteq> [] \<Longrightarrow> \<forall>p \<in> set ps. d \<notin> set p \<Longrightarrow> split_on d (join_with [d] ps) = ps"
  by (induction "[d]" ps rule: join_with.induct) (auto simp: split_on_single split_on_append)

lemma str_find_Some:
  "str_find s p = Some i \<Longrightarrow> i + length p \<le> length s \<and> prefix p (drop i s)"
proof (induction s p arbitrary: i rule: str_find.induct)
  case (1 p)
  then show ?case by (auto split: if_splits)
next
  case (2 c s p)
  then show ?case
    by (auto split: if_splits dest: prefix_length_le)
qed

lemma str_find_None: "str_find s p = None \<longleftrightarrow> \<not> sublist p s"
  by (induction s p rule: str_find.induct) (auto simp: sublist_Cons_right)

subsection \<open>Characters\<close>

text \<open>The number of bytes of the scalar value that a lead byte starts.\<close>

definition utf8_len :: "char \<Rightarrow> nat" where
  "utf8_len c =
     (let n = (of_char c :: nat)
      in if n < 0x80 then 1 else if n < 0xE0 then 2 else if n < 0xF0 then 3 else 4)"

lemma utf8_len_pos [simp]: "0 < utf8_len c"
  by (simp add: utf8_len_def Let_def)

fun chars :: "string \<Rightarrow> rchar list" where
  "chars [] = []"
| "chars (c # s) = (c # take (utf8_len c - 1) s) # chars (drop (utf8_len c - 1) s)"

text \<open>One complete scalar value, and a string of complete scalar values.\<close>

definition complete_char :: "rchar \<Rightarrow> bool" where
  "complete_char r = (r \<noteq> [] \<and> length r = utf8_len (hd r))"

definition str_ok :: "string \<Rightarrow> bool" where
  "str_ok s = list_all complete_char (chars s)"

lemma concat_chars [simp]: "concat (chars s) = s"
  by (induction s rule: chars.induct) simp_all

lemma chars_complete_append:
  "complete_char r \<Longrightarrow> chars (r @ s) = r # chars s"
  by (cases r) (auto simp: complete_char_def)

lemma chars_single: "complete_char r \<Longrightarrow> chars r = [r]"
  using chars_complete_append [of r "[]"] by simp

lemma chars_concat: "list_all complete_char rs \<Longrightarrow> chars (concat rs @ s) = rs @ chars s"
  by (induction rs) (simp_all add: chars_complete_append)

lemma chars_append: "str_ok s \<Longrightarrow> chars (s @ t) = chars s @ chars t"
  using chars_concat [of "chars s" t] by (simp add: str_ok_def)

lemma str_ok_append [simp]: "str_ok s \<Longrightarrow> str_ok (s @ t) \<longleftrightarrow> str_ok t"
  by (simp add: str_ok_def chars_append)

lemma ascii_complete: "(of_char c :: nat) < 0x80 \<Longrightarrow> complete_char [c]"
  by (simp add: complete_char_def utf8_len_def)

lemma chars_nonempty: "r \<in> set (chars s) \<Longrightarrow> r \<noteq> []"
  by (induction s rule: chars.induct) auto

definition ascii :: "string \<Rightarrow> bool" where
  "ascii s = list_all (\<lambda>c. (of_char c :: nat) < 0x80) s"

lemma ascii_simps [simp]:
  "ascii []"
  "ascii (c # s) \<longleftrightarrow> (of_char c :: nat) < 0x80 \<and> ascii s"
  "ascii (s @ t) \<longleftrightarrow> ascii s \<and> ascii t"
  by (simp_all add: ascii_def)

lemma chars_ascii: "ascii s \<Longrightarrow> chars s = map (\<lambda>c. [c]) s"
  by (induction s) (simp_all add: utf8_len_def)

lemma str_ok_ascii: "ascii s \<Longrightarrow> str_ok s"
  by (induction s) (simp_all add: str_ok_def utf8_len_def complete_char_def)

subsection \<open>Whitespace and case\<close>

text \<open>\<open>char::is_whitespace\<close>: the code points with the property White_Space, as UTF-8.\<close>

definition is_whitespace :: "rchar \<Rightarrow> bool" where
  "is_whitespace r = (r \<in> set
     [[CHR 0x09], [CHR 0x0A], [CHR 0x0B], [CHR 0x0C], [CHR 0x0D], [CHR 0x20],
      [CHR 0xC2, CHR 0x85], [CHR 0xC2, CHR 0xA0], [CHR 0xE1, CHR 0x9A, CHR 0x80],
      [CHR 0xE2, CHR 0x80, CHR 0x80], [CHR 0xE2, CHR 0x80, CHR 0x81], [CHR 0xE2, CHR 0x80, CHR 0x82],
      [CHR 0xE2, CHR 0x80, CHR 0x83], [CHR 0xE2, CHR 0x80, CHR 0x84], [CHR 0xE2, CHR 0x80, CHR 0x85],
      [CHR 0xE2, CHR 0x80, CHR 0x86], [CHR 0xE2, CHR 0x80, CHR 0x87], [CHR 0xE2, CHR 0x80, CHR 0x88],
      [CHR 0xE2, CHR 0x80, CHR 0x89], [CHR 0xE2, CHR 0x80, CHR 0x8A], [CHR 0xE2, CHR 0x80, CHR 0xA8],
      [CHR 0xE2, CHR 0x80, CHR 0xA9], [CHR 0xE2, CHR 0x80, CHR 0xAF], [CHR 0xE2, CHR 0x81, CHR 0x9F],
      [CHR 0xE3, CHR 0x80, CHR 0x80]])"

definition str_trim :: "string \<Rightarrow> string" where
  "str_trim s =
     concat (rev (dropWhile is_whitespace (rev (dropWhile is_whitespace (chars s)))))"

lemma str_trim_id:
  assumes "s \<noteq> []" and "\<not> is_whitespace (hd (chars s))" and "\<not> is_whitespace (last (chars s))"
  shows "str_trim s = s"
proof -
  from assms(1) have ne: "chars s \<noteq> []"
    by (cases s) simp_all
  then have "dropWhile is_whitespace (chars s) = chars s"
    using assms(2) by (cases "chars s") simp_all
  moreover have "dropWhile is_whitespace (rev (chars s)) = rev (chars s)"
    using ne assms(3) by (cases "rev (chars s)") (auto simp: last_rev [symmetric] hd_rev dest: arg_cong [where f = hd])
  ultimately show ?thesis
    by (simp add: str_trim_def)
qed

definition ascii_lower :: "char \<Rightarrow> char" where
  "ascii_lower c =
     (let n = (of_char c :: nat) in if 65 \<le> n \<and> n \<le> 90 then char_of (n + 32) else c)"

definition eq_ignore_ascii_case :: "string \<Rightarrow> string \<Rightarrow> bool" where
  "eq_ignore_ascii_case s t = (map ascii_lower s = map ascii_lower t)"

lemma eq_ignore_ascii_case_refl [simp]: "eq_ignore_ascii_case s s"
  by (simp add: eq_ignore_ascii_case_def)

lemma eq_ignore_ascii_case_sym: "eq_ignore_ascii_case s t \<Longrightarrow> eq_ignore_ascii_case t s"
  by (simp add: eq_ignore_ascii_case_def)

lemma eq_ignore_ascii_case_trans:
  "eq_ignore_ascii_case s t \<Longrightarrow> eq_ignore_ascii_case t u \<Longrightarrow> eq_ignore_ascii_case s u"
  by (simp add: eq_ignore_ascii_case_def)

subsection \<open>Numbers\<close>

definition digit_of :: "char \<Rightarrow> nat option" where
  "digit_of c = (let n = (of_char c :: nat) in if 48 \<le> n \<and> n \<le> 57 then Some (n - 48) else None)"

text \<open>\<open>str::parse::<u32>\<close>: an optional plus sign, then digits whose value stays below 2^32.\<close>

fun parse_digits :: "nat \<Rightarrow> string \<Rightarrow> nat option" where
  "parse_digits acc [] = Some acc"
| "parse_digits acc (c # s) =
     (case digit_of c of
        None \<Rightarrow> None
      | Some d \<Rightarrow> if acc * 10 + d < 2 ^ 32 then parse_digits (acc * 10 + d) s else None)"

definition parse_u32 :: "string \<Rightarrow> u32 option" where
  "parse_u32 s =
     (let ds = (case s of [] \<Rightarrow> [] | c # t \<Rightarrow> if c = CHR ''+'' then t else s)
      in if ds = [] then None else map_option of_nat (parse_digits 0 ds))"

definition digit_char :: "nat \<Rightarrow> char" where
  "digit_char d = char_of (48 + d)"

fun show_nat :: "nat \<Rightarrow> string" where
  "show_nat n = (if n < 10 then [digit_char n] else show_nat (n div 10) @ [digit_char (n mod 10)])"

declare show_nat.simps [simp del]

text \<open>\<open>i32\<close> in decimal.\<close>

definition show_int :: "int \<Rightarrow> string" where
  "show_int i = (if i < 0 then CHR ''-'' # show_nat (nat (- i)) else show_nat (nat i))"

lemma digit_of_char [simp]: "d < 10 \<Longrightarrow> digit_of (digit_char d) = Some d"
  by (simp add: digit_of_def digit_char_def)

lemma parse_digits_append:
  "parse_digits acc (s @ t) = Option.bind (parse_digits acc s) (\<lambda>a. parse_digits a t)"
  by (induction acc s rule: parse_digits.induct) (auto split: option.splits)

lemma parse_digits_show: "n < 2 ^ 32 \<Longrightarrow> parse_digits 0 (show_nat n) = Some n"
proof (induction n rule: show_nat.induct)
  case (1 n)
  show ?case
  proof (cases "n < 10")
    case True
    then show ?thesis by (simp add: show_nat.simps [of n])
  next
    case False
    with 1 have "parse_digits 0 (show_nat (n div 10)) = Some (n div 10)"
      by simp
    moreover have "n div 10 * 10 + n mod 10 = n"
      by simp
    ultimately show ?thesis
      using False 1(2) by (simp add: show_nat.simps [of n] parse_digits_append)
  qed
qed

lemma show_nat_Cons: "\<exists>d ds. show_nat n = d # ds \<and> d \<noteq> CHR ''+''"
proof (induction n rule: show_nat.induct)
  case (1 n)
  have plus: "digit_char d \<noteq> CHR ''+''" if "d < 10" for d
    using digit_of_char [OF that] by (auto simp: digit_of_def)
  show ?case
  proof (cases "n < 10")
    case True
    then show ?thesis
      using plus by (simp add: show_nat.simps [of n])
  next
    case False
    with 1 show ?thesis
      by (force simp: show_nat.simps [of n])
  qed
qed

text \<open>Printing a \<open>u32\<close> in decimal and parsing it back.\<close>

lemma parse_u32_show: "parse_u32 (show_nat (unat n)) = Some n"
proof -
  have "unat n < 2 ^ 32"
    using unsigned_less [of n, where 'a = nat] by simp
  then have "parse_digits 0 (show_nat (unat n)) = Some (unat n)"
    by (rule parse_digits_show)
  moreover obtain d ds where "show_nat (unat n) = d # ds" and "d \<noteq> CHR ''+''"
    using show_nat_Cons by blast
  ultimately show ?thesis
    by (simp add: parse_u32_def)
qed

text \<open>A decimal number is made of digits, so trimming and a search for another character leave it alone.\<close>

lemma digit_char_range: "d < 10 \<Longrightarrow> (of_char (digit_char d) :: nat) = 48 + d"
  by (simp add: digit_char_def)

lemma show_nat_digits: "c \<in> set (show_nat n) \<Longrightarrow> 48 \<le> (of_char c :: nat) \<and> (of_char c :: nat) \<le> 57"
proof (induction n rule: show_nat.induct)
  case (1 n)
  have "48 \<le> (of_char (digit_char d) :: nat) \<and> (of_char (digit_char d) :: nat) \<le> 57" if "d < 10" for d
    using that by (simp add: digit_char_range)
  with 1 show ?case
    by (cases "n < 10") (auto simp: show_nat.simps [of n])
qed

lemma show_nat_free: "\<not> (48 \<le> (of_char c :: nat) \<and> (of_char c :: nat) \<le> 57) \<Longrightarrow> c \<notin> set (show_nat n)"
  using show_nat_digits by blast

lemma show_nat_ascii: "ascii (show_nat n)"
  by (auto simp: ascii_def list_all_iff dest: show_nat_digits)

lemma show_nat_trim: "str_trim (show_nat n) = show_nat n"
proof (rule str_trim_id)
  have digits: "\<not> is_whitespace [c]" if "c \<in> set (show_nat n)" for c
    using show_nat_digits [OF that] by (auto simp: is_whitespace_def)
  obtain d ds where ne: "show_nat n = d # ds"
    using show_nat_Cons by blast
  show "show_nat n \<noteq> []"
    by (simp add: ne)
  show "\<not> is_whitespace (hd (chars (show_nat n)))"
    unfolding chars_ascii [OF show_nat_ascii] using digits [of d] by (simp add: ne)
  show "\<not> is_whitespace (last (chars (show_nat n)))"
  proof -
    have "last (show_nat n) \<in> set (show_nat n)"
      using ne by (intro last_in_set) simp
    then show ?thesis
      unfolding chars_ascii [OF show_nat_ascii] using digits ne last_map [of "show_nat n" "\<lambda>c. [c]"] by simp
  qed
qed

lemma str_find_char: "c \<notin> set s \<Longrightarrow> str_find (s @ c # t) [c] = Some (length s)"
  by (induction s) auto

end
