(* ===== verification/Utf8.thy ===== *)
theory Utf8
  imports Rust_Str
begin

text \<open>
  UTF-8 validation and decoding as \<open>std::str::from_utf8\<close> and \<open>String::from_utf8_lossy\<close> do it.
  \<open>utf8_next\<close> looks at the front of a nonempty buffer: \<open>(True, n)\<close> when \<open>n\<close> bytes encode a
  scalar value, \<open>(False, n)\<close> when the maximal ill-formed subpart has \<open>n\<close> bytes.
\<close>

definition cont_byte :: "u8 \<Rightarrow> bool" where
  "cont_byte b = (0x80 \<le> b \<and> b \<le> 0xBF)"

definition second_ok :: "u8 \<Rightarrow> u8 \<Rightarrow> bool" where
  "second_ok b c =
     ((if b = 0xE0 then 0xA0 else if b = 0xF0 then 0x90 else 0x80) \<le> c \<and>
      c \<le> (if b = 0xED then 0x9F else if b = 0xF4 then 0x8F else 0xBF))"

fun cont_run :: "nat \<Rightarrow> u8 list \<Rightarrow> nat" where
  "cont_run 0 bs = 0"
| "cont_run (Suc n) [] = 0"
| "cont_run (Suc n) (b # bs) = (if cont_byte b then Suc (cont_run n bs) else 0)"

text \<open>The tail of a sequence whose lead byte \<open>b\<close> announces \<open>k\<close> further bytes.\<close>

definition utf8_tail :: "nat \<Rightarrow> u8 \<Rightarrow> u8 list \<Rightarrow> bool \<times> nat" where
  "utf8_tail k b bs =
     (case bs of
        [] \<Rightarrow> (False, 1)
      | c # cs \<Rightarrow>
          if second_ok b c
          then (let m = cont_run (k - 1) cs in (m = k - 1, 2 + m))
          else (False, 1))"

definition utf8_next :: "u8 \<Rightarrow> u8 list \<Rightarrow> bool \<times> nat" where
  "utf8_next b bs =
     (if b < 0x80 then (True, 1)
      else if 0xC2 \<le> b \<and> b \<le> 0xDF then utf8_tail 1 b bs
      else if 0xE0 \<le> b \<and> b \<le> 0xEF then utf8_tail 2 b bs
      else if 0xF0 \<le> b \<and> b \<le> 0xF4 then utf8_tail 3 b bs
      else (False, 1))"

fun valid_utf8 :: "u8 list \<Rightarrow> bool" where
  "valid_utf8 [] = True"
| "valid_utf8 (b # bs) =
     (let r = utf8_next b bs in fst r \<and> valid_utf8 (drop (snd r - 1) bs))"

definition from_utf8 :: "u8 list \<Rightarrow> string option" where
  "from_utf8 bs = (if valid_utf8 bs then Some (of_bytes bs) else None)"

text \<open>
  \<open>Utf8Error\<close>: where the first ill-formed sequence begins, and its length unless the buffer ends within a
  sequence that could be continued.
\<close>

fun utf8_error_at :: "nat \<Rightarrow> u8 list \<Rightarrow> (nat \<times> nat option) option" where
  "utf8_error_at i [] = None"
| "utf8_error_at i (b # bs) =
     (let r = utf8_next b bs
      in if fst r then utf8_error_at (i + snd r) (drop (snd r - 1) bs)
         else if snd r = Suc (length bs) \<and> 0xC2 \<le> b \<and> b \<le> 0xF4 then Some (i, None)
         else Some (i, Some (snd r)))"

definition utf8_error_message :: "u8 list \<Rightarrow> string" where
  "utf8_error_message bs =
     (case utf8_error_at 0 bs of
        Some (i, Some n) \<Rightarrow> ''invalid utf-8 sequence of '' @ show_nat n @ '' bytes from index '' @ show_nat i
      | Some (i, None) \<Rightarrow> ''incomplete utf-8 byte sequence from index '' @ show_nat i
      | None \<Rightarrow> [])"

lemma utf8_error_at_None: "utf8_error_at i bs = None \<longleftrightarrow> valid_utf8 bs"
  by (induction i bs rule: utf8_error_at.induct) (simp_all add: Let_def)

text \<open>U+FFFD, the replacement character.\<close>

definition replacement :: string where
  "replacement = [CHR 0xEF, CHR 0xBF, CHR 0xBD]"

fun from_utf8_lossy :: "u8 list \<Rightarrow> string" where
  "from_utf8_lossy [] = []"
| "from_utf8_lossy (b # bs) =
     (let r = utf8_next b bs
      in (if fst r then of_bytes (b # take (snd r - 1) bs) else replacement)
         @ from_utf8_lossy (drop (snd r - 1) bs))"

text \<open>A valid Rust string.\<close>

definition valid_str :: "string \<Rightarrow> bool" where
  "valid_str s = valid_utf8 (as_bytes s)"

lemma cont_run_le: "cont_run n bs \<le> n \<and> cont_run n bs \<le> length bs"
  by (induction n bs rule: cont_run.induct) auto

lemma utf8_next_pos: "0 < snd (utf8_next b bs)"
  by (auto simp: utf8_next_def utf8_tail_def Let_def split: list.splits)

lemma utf8_tail_length:
  "0 < k \<Longrightarrow> fst (utf8_tail k b bs) \<Longrightarrow> snd (utf8_tail k b bs) = Suc k \<and> k \<le> length bs"
  using cont_run_le [of "k - 1" "tl bs"]
  by (auto simp: utf8_tail_def Let_def split: list.splits if_splits)

lemma of_char_as_unat: "(of_char c :: nat) = unat (byte c)"
  by (simp add: unat_byte)

lemma utf8_next_length:
  assumes "fst (utf8_next (byte c) bs)"
  shows "snd (utf8_next (byte c) bs) = utf8_len c \<and> utf8_len c \<le> Suc (length bs)"
proof -
  consider (one) "byte c < 0x80" | (two) "0xC2 \<le> byte c" "byte c \<le> 0xDF"
    | (three) "0xE0 \<le> byte c" "byte c \<le> 0xEF" | (four) "0xF0 \<le> byte c" "byte c \<le> 0xF4"
    using assms by (auto simp: utf8_next_def split: if_splits)
  then show ?thesis
  proof cases
    case one
    then show ?thesis
      by (simp add: utf8_next_def utf8_len_def of_char_as_unat word_less_nat_alt)
  next
    case two
    then have "utf8_len c = 2"
      by (simp add: utf8_len_def of_char_as_unat word_le_nat_alt)
    then show ?thesis
      using assms two utf8_tail_length [of 1 "byte c" bs]
      by (auto simp: utf8_next_def word_le_nat_alt word_less_nat_alt split: if_splits)
  next
    case three
    then have "utf8_len c = 3"
      by (simp add: utf8_len_def of_char_as_unat word_le_nat_alt)
    then show ?thesis
      using assms three utf8_tail_length [of 2 "byte c" bs]
      by (auto simp: utf8_next_def word_le_nat_alt word_less_nat_alt split: if_splits)
  next
    case four
    then have "utf8_len c = 4"
      by (simp add: utf8_len_def of_char_as_unat word_le_nat_alt)
    then show ?thesis
      using assms four utf8_tail_length [of 3 "byte c" bs]
      by (auto simp: utf8_next_def word_le_nat_alt word_less_nat_alt split: if_splits)
  qed
qed

lemma drop_as_bytes: "drop n (as_bytes s) = as_bytes (drop n s)"
  by (simp add: as_bytes_def drop_map)

text \<open>Every scalar value of a valid string is complete.\<close>

lemma valid_str_ok: "valid_str s \<Longrightarrow> str_ok s"
proof (induction s rule: chars.induct)
  case 1
  then show ?case by (simp add: str_ok_def)
next
  case (2 c s)
  define r where "r = utf8_next (byte c) (as_bytes s)"
  from "2.prems" have r: "fst r" and tl: "valid_utf8 (drop (snd r - 1) (as_bytes s))"
    by (simp_all add: valid_str_def r_def Let_def)
  from utf8_next_length [of c "as_bytes s"] r
  have len: "snd r = utf8_len c" "utf8_len c \<le> Suc (length s)"
    by (simp_all add: r_def)
  from tl have "str_ok (drop (utf8_len c - 1) s)"
    using "2.IH" by (simp add: len(1) drop_as_bytes valid_str_def)
  then show ?case
    using len(2) by (simp add: str_ok_def complete_char_def)
qed

lemma from_utf8_valid: "from_utf8 bs = Some s \<Longrightarrow> valid_str s \<and> as_bytes s = bs"
  by (auto simp: from_utf8_def valid_str_def split: if_splits)

lemma from_utf8_as_bytes: "valid_str s \<Longrightarrow> from_utf8 (as_bytes s) = Some s"
  by (simp add: from_utf8_def valid_str_def)

text \<open>On a valid buffer the lossy decoding loses nothing.\<close>

lemma from_utf8_lossy_valid: "valid_utf8 bs \<Longrightarrow> from_utf8_lossy bs = of_bytes bs"
proof (induction bs rule: from_utf8_lossy.induct)
  case 1
  then show ?case by simp
next
  case (2 b bs)
  define r where "r = utf8_next b bs"
  have "of_bytes (take (snd r - 1) bs) @ of_bytes (drop (snd r - 1) bs) = of_bytes bs"
    by (metis of_bytes_simps(3) append_take_drop_id)
  with 2 show ?case
    by (simp add: r_def Let_def)
qed

lemma valid_utf8_ascii: "\<forall>b \<in> set bs. b < 0x80 \<Longrightarrow> valid_utf8 bs"
  by (induction bs) (simp_all add: utf8_next_def Let_def)

lemma valid_str_ascii: "ascii s \<Longrightarrow> valid_str s"
proof -
  assume a: "ascii s"
  have "byte c < 0x80" if "c \<in> set s" for c
    using a that by (auto simp: ascii_def list_all_iff of_char_as_unat word_less_nat_alt)
  then show ?thesis
    by (auto simp: valid_str_def as_bytes_def intro!: valid_utf8_ascii)
qed

text \<open>Valid buffers can be concatenated.\<close>

lemma cont_run_append: "cont_run n bs = n \<Longrightarrow> cont_run n (bs @ cs) = n"
  by (induction n bs rule: cont_run.induct) (auto split: if_splits)

lemma utf8_tail_append: "fst (utf8_tail k b bs) \<Longrightarrow> utf8_tail k b (bs @ cs) = utf8_tail k b bs"
  by (auto simp: utf8_tail_def Let_def cont_run_append split: list.splits if_splits)

lemma utf8_next_append: "fst (utf8_next b bs) \<Longrightarrow> utf8_next b (bs @ cs) = utf8_next b bs"
  by (auto simp: utf8_next_def utf8_tail_append split: if_splits)

lemma utf8_next_fits: "fst (utf8_next b bs) \<Longrightarrow> snd (utf8_next b bs) - 1 \<le> length bs"
  using utf8_tail_length [of 1 b bs] utf8_tail_length [of 2 b bs] utf8_tail_length [of 3 b bs]
  by (auto simp: utf8_next_def split: if_splits)

lemma valid_utf8_append: "valid_utf8 bs \<Longrightarrow> valid_utf8 cs \<Longrightarrow> valid_utf8 (bs @ cs)"
proof (induction bs rule: valid_utf8.induct)
  case 1
  then show ?case by simp
next
  case (2 b bs)
  then have ok: "fst (utf8_next b bs)" "valid_utf8 (drop (snd (utf8_next b bs) - 1) bs)"
    by (simp_all add: Let_def)
  have "drop (snd (utf8_next b bs) - 1) (bs @ cs) = drop (snd (utf8_next b bs) - 1) bs @ cs"
    using utf8_next_fits [OF ok(1)] by simp
  then show ?case
    using 2 ok by (simp add: Let_def utf8_next_append)
qed

lemma valid_str_append: "valid_str s \<Longrightarrow> valid_str t \<Longrightarrow> valid_str (s @ t)"
  by (simp add: valid_str_def valid_utf8_append)

text \<open>A C string cut out of a valid buffer is valid: a sequence of several bytes holds no zero.\<close>

lemma cont_run_full: "cont_run n bs = n \<Longrightarrow> cont_run n (take n bs) = n \<and> 0 \<notin> set (take n bs)"
  by (induction n bs rule: cont_run.induct) (auto simp: cont_byte_def split: if_splits)

lemma second_ok_nonzero: "second_ok b c \<Longrightarrow> c \<noteq> 0"
  by (auto simp: second_ok_def split: if_splits)

lemma utf8_tail_take:
  assumes "fst (utf8_tail k b bs)" and "0 < k"
  shows "utf8_tail k b (take k bs) = utf8_tail k b bs \<and> 0 \<notin> set (take k bs)"
proof (cases bs)
  case Nil
  with assms show ?thesis by simp
next
  case (Cons c cs)
  obtain j where k: "k = Suc j"
    using assms(2) by (cases k) auto
  have "second_ok b c" "cont_run j cs = j"
    using assms(1) by (auto simp: utf8_tail_def Cons k Let_def split: if_splits)
  then show ?thesis
    using cont_run_full [of j cs] second_ok_nonzero by (auto simp: utf8_tail_def Cons k)
qed

lemma utf8_next_take:
  assumes "fst (utf8_next b bs)"
  defines "n \<equiv> snd (utf8_next b bs) - 1"
  shows "utf8_next b (take n bs) = utf8_next b bs" and "0 \<notin> set (take n bs)"
proof -
  have tail: "snd (utf8_tail k b bs) - 1 = k" if "fst (utf8_tail k b bs)" "0 < k" for k
    using utf8_tail_length [of k b bs] that by simp
  show "utf8_next b (take n bs) = utf8_next b bs" "0 \<notin> set (take n bs)"
    using assms(1) tail utf8_tail_take [of _ b bs] unfolding n_def by (auto simp: utf8_next_def split: if_splits)
qed

lemma valid_utf8_c_string: "valid_utf8 bs \<Longrightarrow> valid_utf8 (c_string bs)"
proof (induction bs rule: valid_utf8.induct)
  case 1
  then show ?case by (simp add: c_string_def)
next
  case (2 b bs)
  define n where "n = snd (utf8_next b bs) - 1"
  have ok: "fst (utf8_next b bs)" "valid_utf8 (drop n bs)"
    using "2.prems" by (simp_all add: Let_def n_def)
  note head = utf8_next_take [OF ok(1), folded n_def]
  show ?case
  proof (cases "b = 0")
    case True
    then show ?thesis by (simp add: c_string_def)
  next
    case False
    have "c_string (b # bs) = b # take n bs @ c_string (drop n bs)"
      using False head(2) takeWhile_append2 [of "take n bs" "\<lambda>b. b \<noteq> 0" "drop n bs"]
      by (auto simp: c_string_def)
    moreover have "utf8_next b (take n bs @ c_string (drop n bs)) = utf8_next b bs"
      using utf8_next_append [of b "take n bs"] head(1) ok(1) by simp
    moreover have "n \<le> length bs"
      using utf8_next_fits [OF ok(1)] by (simp add: n_def)
    moreover have "valid_utf8 (c_string (drop n bs))" "snd (utf8_next b bs) - Suc 0 = n"
      using "2.IH" ok by (simp_all add: Let_def n_def)
    ultimately show ?thesis
      using ok by (simp add: Let_def)
  qed
qed

end
