(* ===== verification/Regex_Api.thy ===== *)
theory Regex_Api
  imports Utf8
begin

text \<open>
  The interface of the \<open>regex\<close> crate.  The crate is not part of the sources, so the model takes
  its three functions as a parameter (\<open>regex_api\<close>) and the locale \<open>regex_engine\<close> states what its
  documentation promises for the fragment of the syntax that the program writes: an anchored
  sequence of \<open>.\<close>, \<open>[^/]\<close> and escaped literal characters, each possibly repeated with \<open>*\<close>.
  The dot matches every character but the line feed, since the program sets no \<open>s\<close> flag.

  \<open>mini_api\<close> is a small executable engine for this fragment; it satisfies the locale and the
  witnesses of the development run on it.
\<close>

datatype re_atom = Dot | NotSlash | Lit rchar

datatype re_node = Once re_atom | Many re_atom

record ('re, 'e) regex_api =
  re_escape :: "string \<Rightarrow> string"
  re_new :: "string \<Rightarrow> ('e, 're) result"
  re_is_match :: "'re \<Rightarrow> string \<Rightarrow> bool"

subsection \<open>Syntax and meaning of the fragment\<close>

fun render_atom :: "(string \<Rightarrow> string) \<Rightarrow> re_atom \<Rightarrow> string" where
  "render_atom esc Dot = ''.''"
| "render_atom esc NotSlash = ''[^/]''"
| "render_atom esc (Lit c) = esc c"

fun render :: "(string \<Rightarrow> string) \<Rightarrow> re_node \<Rightarrow> string" where
  "render esc (Once a) = render_atom esc a"
| "render esc (Many a) = render_atom esc a @ ''*''"

definition anchored :: "(string \<Rightarrow> string) \<Rightarrow> re_node list \<Rightarrow> string" where
  "anchored esc ns = ''^'' @ concat (map (render esc) ns) @ ''$''"

fun wf_atom :: "re_atom \<Rightarrow> bool" where
  "wf_atom (Lit c) = complete_char c"
| "wf_atom a = True"

fun wf_node :: "re_node \<Rightarrow> bool" where
  "wf_node (Once a) = wf_atom a"
| "wf_node (Many a) = wf_atom a"

abbreviation newline :: rchar where
  "newline \<equiv> [CHR 0x0A]"

fun atom_matches :: "re_atom \<Rightarrow> rchar \<Rightarrow> bool" where
  "atom_matches Dot c = (c \<noteq> newline)"
| "atom_matches NotSlash c = (c \<noteq> ''/'')"
| "atom_matches (Lit d) c = (c = d)"

function nodes_match :: "re_node list \<Rightarrow> rchar list \<Rightarrow> bool" where
  "nodes_match [] cs = (cs = [])"
| "nodes_match (Once a # ns) cs =
     (case cs of [] \<Rightarrow> False | c # cs' \<Rightarrow> atom_matches a c \<and> nodes_match ns cs')"
| "nodes_match (Many a # ns) cs =
     (nodes_match ns cs \<or>
      (case cs of [] \<Rightarrow> False | c # cs' \<Rightarrow> atom_matches a c \<and> nodes_match (Many a # ns) cs'))"
  by pat_completeness auto
termination
  by (relation "measures [\<lambda>(ns, cs). length ns + length cs]") auto

lemma nodes_match_Once:
  "nodes_match (Once a # ns) cs \<longleftrightarrow> (\<exists>c cs'. cs = c # cs' \<and> atom_matches a c \<and> nodes_match ns cs')"
  by (cases cs) auto

lemma nodes_match_Many:
  "nodes_match (Many a # ns) cs \<longleftrightarrow>
     (\<exists>w cs'. cs = w @ cs' \<and> list_all (atom_matches a) w \<and> nodes_match ns cs')"
proof (induction cs)
  case Nil
  then show ?case by simp
next
  case (Cons c cs)
  have "nodes_match (Many a # ns) (c # cs) \<longleftrightarrow>
      nodes_match ns (c # cs) \<or> (atom_matches a c \<and> nodes_match (Many a # ns) cs)"
    by simp
  also have "\<dots> \<longleftrightarrow> (\<exists>w cs'. c # cs = w @ cs' \<and> list_all (atom_matches a) w \<and> nodes_match ns cs')"
    (is "?L \<longleftrightarrow> ?R")
  proof
    assume ?L
    then show ?R
    proof
      assume "nodes_match ns (c # cs)"
      then show ?R by (intro exI [of _ "[]"] exI [of _ "c # cs"]) simp
    next
      assume "atom_matches a c \<and> nodes_match (Many a # ns) cs"
      with Cons.IH obtain w cs' where "cs = w @ cs'" "list_all (atom_matches a) w" "nodes_match ns cs'"
        by blast
      with \<open>atom_matches a c \<and> _\<close> show ?R
        by (intro exI [of _ "c # w"] exI [of _ cs']) simp
    qed
  next
    assume ?R
    then obtain w cs' where "c # cs = w @ cs'" "list_all (atom_matches a) w" "nodes_match ns cs'"
      by blast
    then show ?L
      unfolding Cons.IH by (cases w) auto
  qed
  finally show ?case .
qed

declare nodes_match.simps(2,3) [simp del]

text \<open>The documented behaviour that the matcher relies on.\<close>

locale regex_engine =
  fixes api :: "('re, 'e) regex_api"
  assumes match_anchored:
    "list_all wf_node ns \<Longrightarrow> re_new api (anchored (re_escape api) ns) = Inr re \<Longrightarrow>
     valid_str s \<Longrightarrow> re_is_match api re s \<longleftrightarrow> nodes_match ns (chars s)"

subsection \<open>A concrete engine for the fragment\<close>

definition backslash :: rchar where
  "backslash = [CHR 0x5C]"

definition meta_chars :: "rchar list" where
  "meta_chars =
     [backslash, ''.'', ''+'', ''*'', ''?'', ''('', '')'', ''|'', ''['', '']'', ''{'', ''}'',
      ''^'', ''$'', ''#'', ''&'', ''-'', ''~'']"

definition mini_escape :: "string \<Rightarrow> string" where
  "mini_escape s = concat (map (\<lambda>c. if c \<in> set meta_chars then backslash @ c else c) (chars s))"

definition parse_atom :: "rchar list \<Rightarrow> (re_atom \<times> rchar list) option" where
  "parse_atom cs =
     (case cs of
        [] \<Rightarrow> None
      | c # r \<Rightarrow>
          if c = ''.'' then Some (Dot, r)
          else if c = ''['' then
            (if take 3 r = [''^'', ''/'', '']''] then Some (NotSlash, drop 3 r) else None)
          else if c = backslash then (case r of [] \<Rightarrow> None | d # r' \<Rightarrow> Some (Lit d, r'))
          else if c \<in> set meta_chars then None
          else Some (Lit c, r))"

fun parse_nodes :: "nat \<Rightarrow> rchar list \<Rightarrow> re_node list option" where
  "parse_nodes fuel [] = Some []"
| "parse_nodes 0 (c # cs) = None"
| "parse_nodes (Suc fuel) (c # cs) =
     (case parse_atom (c # cs) of
        None \<Rightarrow> None
      | Some (a, r) \<Rightarrow>
          (if r \<noteq> [] \<and> hd r = ''*''
           then map_option ((#) (Many a)) (parse_nodes fuel (tl r))
           else map_option ((#) (Once a)) (parse_nodes fuel r)))"

definition mini_new :: "string \<Rightarrow> (string, re_node list) result" where
  "mini_new s =
     (case chars s of
        [] \<Rightarrow> Err ''empty pattern''
      | c # r \<Rightarrow>
          if c = ''^'' \<and> r \<noteq> [] \<and> last r = ''$''
          then (case parse_nodes (length r) (butlast r) of
                  None \<Rightarrow> Err ''syntax error''
                | Some ns \<Rightarrow> Ok ns)
          else Err ''not anchored'')"

definition mini_api :: "(re_node list, string) regex_api" where
  "mini_api = \<lparr>re_escape = mini_escape, re_new = mini_new,
               re_is_match = (\<lambda>ns s. nodes_match ns (chars s))\<rparr>"

text \<open>The tokens of a rendered node and the parser on them.\<close>

fun atom_toks :: "re_atom \<Rightarrow> rchar list" where
  "atom_toks Dot = [''.'']"
| "atom_toks NotSlash = [''['', ''^'', ''/'', '']'']"
| "atom_toks (Lit c) = (if c \<in> set meta_chars then [backslash, c] else [c])"

fun node_toks :: "re_node \<Rightarrow> rchar list" where
  "node_toks (Once a) = atom_toks a"
| "node_toks (Many a) = atom_toks a @ [''*'']"

lemma complete_backslash [simp]: "complete_char backslash"
  by (simp add: backslash_def ascii_complete)

lemma atom_toks_complete: "wf_atom a \<Longrightarrow> list_all complete_char (atom_toks a)"
  by (cases a) (simp_all add: ascii_complete)

lemma node_toks_complete: "wf_node n \<Longrightarrow> list_all complete_char (node_toks n)"
  by (cases n) (simp_all add: atom_toks_complete ascii_complete)

lemma render_toks: "wf_node n \<Longrightarrow> render mini_escape n = concat (node_toks n)"
proof -
  have "wf_atom a \<Longrightarrow> render_atom mini_escape a = concat (atom_toks a)" for a
    by (cases a) (simp_all add: mini_escape_def chars_single)
  then show "wf_node n \<Longrightarrow> ?thesis"
    by (cases n) simp_all
qed

lemma parse_atom_toks: "parse_atom (atom_toks a @ rest) = Some (a, rest)"
  by (cases a) (simp_all add: parse_atom_def backslash_def meta_chars_def)

lemma atom_toks_hd: "\<exists>c cs. atom_toks a = c # cs \<and> c \<noteq> ''*''"
  by (cases a) (auto simp: backslash_def meta_chars_def)

lemma nodes_toks_hd: "concat (map node_toks ns) = c # cs \<Longrightarrow> c \<noteq> ''*''"
proof (cases ns)
  case (Cons n ms)
  obtain d ds where "atom_toks (case n of Once a \<Rightarrow> a | Many a \<Rightarrow> a) = d # ds" "d \<noteq> ''*''"
    using atom_toks_hd by blast
  moreover assume "concat (map node_toks ns) = c # cs"
  ultimately show ?thesis
    using Cons by (cases n) auto
qed simp

lemma parse_nodes_toks:
  "length (concat (map node_toks ns)) \<le> fuel \<Longrightarrow>
   parse_nodes fuel (concat (map node_toks ns)) = Some ns"
proof (induction ns arbitrary: fuel)
  case Nil
  then show ?case by simp
next
  case (Cons n ns)
  obtain a where a: "n = Once a \<or> n = Many a"
    by (cases n) auto
  let ?rest = "concat (map node_toks ns)"
  obtain c cs where toks: "atom_toks a = c # cs"
    using atom_toks_hd by blast
  from Cons.prems a toks obtain f where f: "fuel = Suc f"
    by (cases fuel) auto
  from Cons.prems a toks have ih: "parse_nodes f ?rest = Some ns"
    by (intro Cons.IH) (auto simp: f)
  have pa: "parse_atom (c # cs @ r) = Some (a, r)" for r
    using parse_atom_toks [of a r] by (simp add: toks)
  from a show ?case
  proof
    assume n: "n = Once a"
    have "\<not> (?rest \<noteq> [] \<and> hd ?rest = ''*'')"
      using nodes_toks_hd [of ns] by (cases ?rest) auto
    then show ?thesis
      using ih by (simp add: n f toks pa)
  next
    assume n: "n = Many a"
    show ?thesis
      using ih by (simp add: n f toks pa)
  qed
qed

lemma render_nodes_toks:
  "list_all wf_node ns \<Longrightarrow>
   concat (map (render mini_escape) ns) = concat (concat (map node_toks ns))"
  by (induction ns) (simp_all add: render_toks)

lemma chars_anchored:
  assumes "list_all wf_node ns"
  shows "chars (anchored mini_escape ns) = ''^'' # concat (map node_toks ns) @ [''$'']"
proof -
  have "list_all complete_char (concat (map node_toks ns))"
    using assms node_toks_complete by (auto simp: list_all_iff)
  then have "chars (concat (concat (map node_toks ns)) @ ''$'') =
      concat (map node_toks ns) @ [''$'']"
    by (subst chars_concat) (simp_all add: utf8_len_def)
  then show ?thesis
    using assms by (simp add: anchored_def render_nodes_toks utf8_len_def)
qed

lemma mini_new_anchored:
  "list_all wf_node ns \<Longrightarrow> mini_new (anchored mini_escape ns) = Ok ns"
  by (simp add: mini_new_def chars_anchored parse_nodes_toks)

interpretation mini: regex_engine mini_api
  by unfold_locales (auto simp: mini_api_def mini_new_anchored)

end
