(* ===== verification/Access.thy ===== *)
theory Access
  imports Prelude
begin

text \<open>
  The contract that both enforcement paths implement for the file system: a deny list that always
  wins, an allow list per access kind, and denial by default.  The reactive path (\<open>Policy\<close>) and
  the synchronous path (the LSM hook) each interpret the locale \<open>access_control\<close>;
  \<open>access_agreement\<close> compares two of them.
\<close>

locale access_control =
  fixes denied :: "'p \<Rightarrow> bool"
    and listed :: "bool \<Rightarrow> 'p \<Rightarrow> bool"
    and permitted :: "'p \<Rightarrow> bool \<Rightarrow> bool"
  assumes decision: "permitted p w \<longleftrightarrow> \<not> denied p \<and> listed w p"
begin

lemma deny_wins: "denied p \<Longrightarrow> \<not> permitted p w"
  by (simp add: decision)

lemma zero_trust: "\<not> listed w p \<Longrightarrow> \<not> permitted p w"
  by (simp add: decision)

lemma granted: "\<not> denied p \<Longrightarrow> listed w p \<Longrightarrow> permitted p w"
  by (simp add: decision)

lemma permittedD: "permitted p w \<Longrightarrow> \<not> denied p \<and> listed w p"
  by (simp add: decision)

end

text \<open>Two access controls over views of the same object: equal lists give equal decisions.\<close>

locale access_agreement =
  A: access_control denied listed permitted +
  B: access_control denied' listed' permitted'
  for denied :: "'p \<Rightarrow> bool" and listed :: "bool \<Rightarrow> 'p \<Rightarrow> bool" and permitted :: "'p \<Rightarrow> bool \<Rightarrow> bool"
    and denied' :: "'q \<Rightarrow> bool" and listed' :: "bool \<Rightarrow> 'q \<Rightarrow> bool" and permitted' :: "'q \<Rightarrow> bool \<Rightarrow> bool"
begin

lemma agree:
  "denied p = denied' q \<Longrightarrow> listed w p = listed' w q \<Longrightarrow> permitted p w = permitted' q w"
  by (simp add: A.decision B.decision)

lemma refines:
  "(denied' q \<Longrightarrow> denied p) \<Longrightarrow> (listed w p \<Longrightarrow> listed' w q) \<Longrightarrow> permitted p w \<Longrightarrow> permitted' q w"
  by (auto simp: A.decision B.decision)

end

end
