(* ===== verification/Policy.thy ===== *)
theory Policy
  imports Regex_Api Access
begin

text \<open>
  \<open>policy/mod.rs\<close> and \<open>policy/matcher.rs\<close>: the raw YAML structures, the compiled policy, the glob
  compiler and the queries of a policy.  The YAML reader and the regex engine are parameters.
\<close>

section \<open>Data\<close>

datatype ('y, 're) policy_error =
    Io io_error
  | Yaml 'y
  | InvalidGlob string 're
  | InvalidMode string
  | EmptyAllowList

definition policy_error_message ::
    "(io_error \<Rightarrow> string) \<Rightarrow> ('y \<Rightarrow> string) \<Rightarrow> ('re \<Rightarrow> string) \<Rightarrow> ('y, 're) policy_error \<Rightarrow> string" where
  "policy_error_message show_io show_yaml show_regex e =
     (case e of
        Io io \<Rightarrow> (''falha ao ler arquivo de pol'' @ [CHR 0xC3, CHR 0xAD] @ ''tica: '' @ show_io io)
      | Yaml y \<Rightarrow> (''yaml inv'' @ [CHR 0xC3, CHR 0xA1] @ ''lido: '' @ show_yaml y)
      | InvalidGlob pat src \<Rightarrow> (''regex inv'' @ [CHR 0xC3, CHR 0xA1] @ ''lido em '' @ [CHR 0x27] @ pat @ [CHR 0x27] @ '': '' @ show_regex src)
      | InvalidMode m \<Rightarrow> (''mode deve ser '' @ [CHR 0x27] @ ''enforce'' @ [CHR 0x27] @ '' ou '' @ [CHR 0x27] @ ''monitor'' @ [CHR 0x27] @ '', recebido: '' @ [CHR 0x27] @ m @ [CHR 0x27])
      | EmptyAllowList \<Rightarrow> (''pol'' @ [CHR 0xC3, CHR 0xAD] @ ''tica sem nenhum allow_read/allow_write -- prov'' @ [CHR 0xC3, CHR 0xA1] @ ''vel erro de configura'' @ [CHR 0xC3, CHR 0xA7, CHR 0xC3, CHR 0xA3] @ ''o''))"

datatype mode = Enforce | Monitor

record raw_filesystem =
  rf_allow_read :: "string list"
  rf_allow_write :: "string list"
  rf_deny_always :: "string list"

record raw_network =
  rn_allow_domains :: "string list"
  rn_deny_all_else :: bool

datatype syscall_deny_rule =
    Simple string
  | Structured string bool

record syscall_rule =
  pattern :: string
  kill_on_deny :: bool

record raw_syscalls =
  rs_deny :: "syscall_deny_rule list"

record raw_policy =
  raw_mode :: string
  raw_fs :: raw_filesystem
  raw_net :: raw_network
  raw_sys :: raw_syscalls

record 're policy =
  pol_mode :: mode
  compiled_deny :: "'re list"
  compiled_allow_read :: "'re list"
  compiled_allow_write :: "'re list"
  allow_domains :: "string list"
  deny_all_else :: bool
  deny_syscalls :: "syscall_rule list"
  raw_deny_always :: "string list"
  raw_allow_read :: "string list"
  raw_allow_write :: "string list"

section \<open>The glob compiler\<close>

text \<open>The \<open>while i < n\<close> loop of \<open>glob_to_regex\<close>; \<open>sb\<close> is the regex text built so far.\<close>

function glob_loop :: "(string \<Rightarrow> string) \<Rightarrow> rchar list \<Rightarrow> nat \<Rightarrow> string \<Rightarrow> string" where
  "glob_loop esc cs i sb =
     (if i < length cs then
        (if i + 1 < length cs \<and> cs ! i = ''*'' \<and> cs ! (i + 1) = ''*''
         then glob_loop esc cs (i + 2) (sb @ ''.*'')
         else if cs ! i = ''*'' then glob_loop esc cs (i + 1) (sb @ ''[^/]*'')
         else if cs ! i = ''?'' then glob_loop esc cs (i + 1) (sb @ ''[^/]'')
         else if cs ! i = backslash then
           (if i + 1 < length cs
            then glob_loop esc cs (i + 2) (sb @ esc (cs ! (i + 1)))
            else glob_loop esc cs (i + 1) (sb @ esc backslash))
         else glob_loop esc cs (i + 1) (sb @ esc (cs ! i)))
      else sb)"
  by pat_completeness auto
termination
  by (relation "measure (\<lambda>(esc, cs, i, sb). length cs - i)") auto

declare glob_loop.simps [simp del]

definition glob_to_regex ::
    "('re, 'e) regex_api \<Rightarrow> string \<Rightarrow> (('y, 'e) policy_error, 're) result" where
  "glob_to_regex api pat =
     map_err (InvalidGlob pat)
       (re_new api (glob_loop (re_escape api) (chars pat) 0 ''^'' @ ''$''))"

section \<open>Construction\<close>

fun syscall_rule_of :: "syscall_deny_rule \<Rightarrow> syscall_rule" where
  "syscall_rule_of (Simple s) = \<lparr>pattern = s, kill_on_deny = False\<rparr>"
| "syscall_rule_of (Structured p k) = \<lparr>pattern = p, kill_on_deny = k\<rparr>"

definition parse_mode :: "string \<Rightarrow> (('y, 'e) policy_error, mode) result" where
  "parse_mode m =
     (if m = ''enforce'' then Ok Enforce
      else if m = ''monitor'' then Ok Monitor
      else Err (InvalidMode m))"

definition from_raw ::
    "('re, 'e) regex_api \<Rightarrow> raw_policy \<Rightarrow> (('y, 'e) policy_error, 're policy) result" where
  "from_raw api raw =
     and_then (parse_mode (raw_mode raw)) (\<lambda>m.
     if rf_allow_read (raw_fs raw) = [] \<and> rf_allow_write (raw_fs raw) = [] then Err EmptyAllowList
     else
     and_then (collect_results (glob_to_regex api) (rf_deny_always (raw_fs raw))) (\<lambda>deny.
     and_then (collect_results (glob_to_regex api) (rf_allow_read (raw_fs raw))) (\<lambda>rd.
     and_then (collect_results (glob_to_regex api) (rf_allow_write (raw_fs raw))) (\<lambda>wr.
     Ok \<lparr>pol_mode = m,
         compiled_deny = deny,
         compiled_allow_read = rd,
         compiled_allow_write = wr,
         allow_domains = rn_allow_domains (raw_net raw),
         deny_all_else = rn_deny_all_else (raw_net raw),
         deny_syscalls = map syscall_rule_of (rs_deny (raw_sys raw)),
         raw_deny_always = rf_deny_always (raw_fs raw),
         raw_allow_read = rf_allow_read (raw_fs raw),
         raw_allow_write = rf_allow_write (raw_fs raw)\<rparr>))))"

definition from_yaml ::
    "('re, 'e) regex_api \<Rightarrow> (string \<Rightarrow> ('y, raw_policy) result) \<Rightarrow> string \<Rightarrow>
     (('y, 'e) policy_error, 're policy) result" where
  "from_yaml api yaml s = and_then (map_err Yaml (yaml s)) (from_raw api)"

definition load ::
    "('re, 'e) regex_api \<Rightarrow> (string \<Rightarrow> ('y, raw_policy) result) \<Rightarrow>
     (string \<Rightarrow> (io_error, u8 list) result) \<Rightarrow> string \<Rightarrow>
     (('y, 'e) policy_error, 're policy) result" where
  "load api yaml read_file path =
     and_then (map_err Io (read_file path)) (\<lambda>raw_bytes.
     case from_utf8 raw_bytes of
       None \<Rightarrow> Err (Io (IoError InvalidData (utf8_error_message raw_bytes)))
     | Some yaml_str \<Rightarrow> from_yaml api yaml yaml_str)"

definition force_dry_run :: "'re policy \<Rightarrow> 're policy" where
  "force_dry_run pol = pol\<lparr>pol_mode := Monitor\<rparr>"

section \<open>Queries\<close>

text \<open>The loops of \<open>path_allowed\<close>: does some expression of the list match?\<close>

fun any_match :: "('re, 'e) regex_api \<Rightarrow> 're list \<Rightarrow> string \<Rightarrow> bool" where
  "any_match api [] path = False"
| "any_match api (re # res) path =
     (if re_is_match api re path then True else any_match api res path)"

definition path_allowed :: "('re, 'e) regex_api \<Rightarrow> 're policy \<Rightarrow> string \<Rightarrow> bool \<Rightarrow> bool" where
  "path_allowed api pol path for_write =
     (if any_match api (compiled_deny pol) path then False
      else
        (let allow_list = (if for_write then compiled_allow_write pol else compiled_allow_read pol)
         in if any_match api allow_list path then True else False))"

fun domain_listed :: "string list \<Rightarrow> string \<Rightarrow> bool" where
  "domain_listed [] domain = False"
| "domain_listed (a # as) domain =
     (if eq_ignore_ascii_case a domain then True else domain_listed as domain)"

definition domain_allowed :: "'re policy \<Rightarrow> string \<Rightarrow> bool" where
  "domain_allowed pol domain =
     (if domain_listed (allow_domains pol) domain then True else \<not> deny_all_else pol)"

text \<open>The closure shared by \<open>syscall_denied\<close> and \<open>should_kill_on_syscall_deny\<close>.\<close>

definition rule_applies :: "string \<Rightarrow> syscall_rule \<Rightarrow> bool" where
  "rule_applies syscall r =
     (if pattern r = syscall then True
      else if \<not> CHR '':'' \<in> set (pattern r) \<and> str_starts_with syscall (pattern r @ '':'') then True
      else False)"

definition syscall_denied :: "'re policy \<Rightarrow> string \<Rightarrow> bool" where
  "syscall_denied pol syscall = list_ex (rule_applies syscall) (deny_syscalls pol)"

definition should_kill_on_syscall_deny :: "'re policy \<Rightarrow> string \<Rightarrow> bool" where
  "should_kill_on_syscall_deny pol syscall =
     (case find (rule_applies syscall) (deny_syscalls pol) of
        None \<Rightarrow> False
      | Some r \<Rightarrow> kill_on_deny r)"

end
