(* ===== verification/Glob.thy ===== *)
theory Glob
  imports Policy
begin

text \<open>
  What a glob of the policy means, stated without regular expressions, and the proof that the
  compiled expression decides exactly that, for every engine that keeps the documented contract.
\<close>

section \<open>Specification\<close>

text \<open>
  \<open>glob_accepts p s\<close>: the pattern \<open>p\<close> covers the whole of \<open>s\<close>.  \<open>**\<close> stands for any text without a
  line feed, \<open>*\<close> for any text without a slash, \<open>?\<close> for one character that is not a slash, a
  backslash for the character after it, every other character for itself.
\<close>

inductive glob_accepts :: "rchar list \<Rightarrow> rchar list \<Rightarrow> bool" where
  acc_nil: "glob_accepts [] []"
| acc_any: "newline \<notin> set w \<Longrightarrow> glob_accepts p s \<Longrightarrow> glob_accepts (''*'' # ''*'' # p) (w @ s)"
| acc_seg: "p = [] \<or> hd p \<noteq> ''*'' \<Longrightarrow> ''/'' \<notin> set w \<Longrightarrow> glob_accepts p s \<Longrightarrow>
    glob_accepts (''*'' # p) (w @ s)"
| acc_one: "c \<noteq> ''/'' \<Longrightarrow> glob_accepts p s \<Longrightarrow> glob_accepts (''?'' # p) (c # s)"
| acc_esc: "glob_accepts p s \<Longrightarrow> glob_accepts (backslash # c # p) (c # s)"
| acc_esc_end: "glob_accepts [backslash] [backslash]"
| acc_lit: "c \<notin> {''*'', ''?'', backslash} \<Longrightarrow> glob_accepts p s \<Longrightarrow> glob_accepts (c # p) (c # s)"

inductive_cases glob_accepts_NilE: "glob_accepts [] s"
inductive_cases glob_accepts_ConsE: "glob_accepts (c # p) s"

abbreviation glob_covers :: "string \<Rightarrow> string \<Rightarrow> bool" where
  "glob_covers pat path \<equiv> glob_accepts (chars pat) (chars path)"

lemma glob_accepts_Nil: "glob_accepts [] s \<longleftrightarrow> s = []"
  by (auto elim: glob_accepts_NilE intro: acc_nil)

section \<open>Compilation\<close>

text \<open>The syntax nodes that the loop of \<open>glob_to_regex\<close> writes, one step of the loop at a time.\<close>

fun glob_nodes :: "rchar list \<Rightarrow> re_node list" where
  "glob_nodes [] = []"
| "glob_nodes [c] =
     [if c = ''*'' then Many NotSlash else if c = ''?'' then Once NotSlash else Once (Lit c)]"
| "glob_nodes (c # d # cs) =
     (if c = ''*'' \<and> d = ''*'' then Many Dot # glob_nodes cs
      else if c = ''*'' then Many NotSlash # glob_nodes (d # cs)
      else if c = ''?'' then Once NotSlash # glob_nodes (d # cs)
      else if c = backslash then Once (Lit d) # glob_nodes cs
      else Once (Lit c) # glob_nodes (d # cs))"

lemma glob_loop_nodes:
  "glob_loop esc cs i sb = sb @ concat (map (render esc) (glob_nodes (drop i cs)))"
proof (induction esc cs i sb rule: glob_loop.induct)
  case (1 esc cs i sb)
  show ?case
  proof (cases "i < length cs")
    case False
    then show ?thesis by (simp add: glob_loop.simps [of esc cs i sb])
  next
    case here: True
    show ?thesis
    proof (cases "i + 1 < length cs")
      case True
      then have "drop i cs = cs ! i # cs ! (i + 1) # drop (i + 2) cs"
        and "drop (i + 1) cs = cs ! (i + 1) # drop (i + 2) cs"
        by (simp_all add: Cons_nth_drop_Suc)
      then show ?thesis
        using 1 here True by (simp add: glob_loop.simps [of esc cs i sb])
    next
      case False
      with here have i: "i = length cs - 1" and ne: "cs \<noteq> []"
        by auto
      then have "drop i cs = [cs ! i]" and "drop (i + 1) cs = []"
        using here by (simp_all add: Cons_nth_drop_Suc [symmetric])
      then show ?thesis
        using 1 here False by (simp add: glob_loop.simps [of esc cs i sb])
    qed
  qed
qed

lemma glob_nodes_wf: "list_all complete_char cs \<Longrightarrow> list_all wf_node (glob_nodes cs)"
  by (induction cs rule: glob_nodes.induct) auto

lemma list_all_Dot: "list_all (atom_matches Dot) w \<longleftrightarrow> newline \<notin> set w"
  by (auto simp: list_all_iff)

lemma list_all_NotSlash: "list_all (atom_matches NotSlash) w \<longleftrightarrow> ''/'' \<notin> set w"
  by (auto simp: list_all_iff)

lemmas node_match_simps = nodes_match_Once nodes_match_Many list_all_Dot list_all_NotSlash

lemma backslash_neq [simp]:
  "backslash \<noteq> ''*''" "backslash \<noteq> ''?''" "''*'' \<noteq> backslash" "''?'' \<noteq> backslash"
  by (simp_all add: backslash_def)

lemma glob_nodes_seg:
  "p = [] \<or> hd p \<noteq> ''*'' \<Longrightarrow> glob_nodes (''*'' # p) = Many NotSlash # glob_nodes p"
  by (cases p) simp_all

lemma glob_nodes_one: "glob_nodes (''?'' # p) = Once NotSlash # glob_nodes p"
  by (cases p) simp_all

lemma glob_nodes_lit:
  "c \<notin> {''*'', ''?'', backslash} \<Longrightarrow> glob_nodes (c # p) = Once (Lit c) # glob_nodes p"
  by (cases p) simp_all

lemma glob_accepts_nodes: "glob_accepts p s \<Longrightarrow> nodes_match (glob_nodes p) s"
proof (induction rule: glob_accepts.induct)
  case (acc_any w p s)
  then show ?case by (auto simp: node_match_simps)
next
  case (acc_seg p w s)
  then show ?case by (auto simp: glob_nodes_seg node_match_simps)
next
  case (acc_lit c p s)
  then show ?case by (simp add: glob_nodes_lit nodes_match_Once)
qed (simp_all add: glob_nodes_one nodes_match_Once)

lemma nodes_glob_accepts: "nodes_match (glob_nodes p) s \<Longrightarrow> glob_accepts p s"
proof (induction p arbitrary: s rule: glob_nodes.induct)
  case 1
  then show ?case by (simp add: acc_nil)
next
  case (2 c)
  show ?case
  proof (cases "c = ''*'' \<or> c = ''?'' \<or> c = backslash")
    case True
    then show ?thesis
      using 2 acc_seg [of "[]" s "[]"] acc_one [OF _ acc_nil] acc_esc_end
      by (auto simp: node_match_simps acc_nil)
  next
    case False
    then show ?thesis
      using 2 acc_lit [OF _ acc_nil, of c] by (auto simp: nodes_match_Once)
  qed
next
  case (3 c d cs)
  consider (any) "c = ''*''" "d = ''*''" | (seg) "c = ''*''" "d \<noteq> ''*''" | (one) "c = ''?''"
    | (esc) "c = backslash" | (lit) "c \<notin> {''*'', ''?'', backslash}"
    by auto
  then show ?case
  proof cases
    case any
    with 3 show ?thesis
      by (auto simp: node_match_simps intro: acc_any)
  next
    case seg
    with 3 show ?thesis
      by (auto simp: node_match_simps intro: acc_seg)
  next
    case one
    with 3 show ?thesis
      by (auto simp: nodes_match_Once intro: acc_one)
  next
    case esc
    with 3 show ?thesis
      by (auto simp: nodes_match_Once intro: acc_esc)
  next
    case lit
    with 3 show ?thesis
      by (auto simp: nodes_match_Once intro: acc_lit)
  qed
qed

lemma nodes_match_glob: "nodes_match (glob_nodes p) s \<longleftrightarrow> glob_accepts p s"
  by (blast intro: glob_accepts_nodes nodes_glob_accepts)

lemma glob_accepts_code [code]: "glob_accepts p s \<longleftrightarrow> nodes_match (glob_nodes p) s"
  by (simp add: nodes_match_glob)

text \<open>The text handed to the engine is an anchored expression of the fragment.\<close>

lemma glob_text_anchored:
  "glob_loop esc cs 0 ''^'' @ ''$'' = anchored esc (glob_nodes cs)"
  by (simp add: glob_loop_nodes anchored_def)

section \<open>Literal prefixes and directory globs\<close>

text \<open>A text without wildcards; it stands for itself.\<close>

definition plain :: "string \<Rightarrow> bool" where
  "plain s = list_all (\<lambda>c. c \<notin> {''*'', ''?'', backslash}) (chars s)"

lemma glob_accepts_lit_Cons:
  "c \<notin> {''*'', ''?'', backslash} \<Longrightarrow>
   glob_accepts (c # p) s \<longleftrightarrow> (\<exists>s'. s = c # s' \<and> glob_accepts p s')"
  by (auto elim: glob_accepts_ConsE intro: acc_lit)

lemma glob_accepts_lits:
  "list_all (\<lambda>c. c \<notin> {''*'', ''?'', backslash}) ls \<Longrightarrow>
   glob_accepts (ls @ p) s \<longleftrightarrow> (\<exists>s'. s = ls @ s' \<and> glob_accepts p s')"
  by (induction ls arbitrary: s) (auto simp: glob_accepts_lit_Cons)

lemma glob_accepts_any: "glob_accepts [''*'', ''*''] s \<longleftrightarrow> newline \<notin> set s"
  by (auto simp: node_match_simps simp flip: nodes_match_glob)

lemma glob_accepts_any_tail:
  "glob_accepts (''*'' # ''*'' # p) s \<longleftrightarrow>
     (\<exists>w s'. s = w @ s' \<and> newline \<notin> set w \<and> glob_accepts p s')"
  by (simp add: node_match_simps flip: nodes_match_glob)

lemma chars_eq_append:
  "str_ok d \<Longrightarrow> chars path = chars d @ r \<Longrightarrow> \<exists>t. path = d @ t \<and> chars t = r"
proof -
  assume ok: "str_ok d" and eq: "chars path = chars d @ r"
  have "concat (chars path) = d @ concat r"
    using eq by simp
  then have "path = d @ concat r"
    by simp
  moreover from this have "chars path = chars d @ chars (concat r)"
    using ok by (simp add: chars_append)
  then have "chars (concat r) = r"
    using eq by simp
  ultimately show ?thesis by blast
qed

text \<open>A wildcard-free glob covers exactly itself.\<close>

lemma glob_covers_plain:
  assumes "plain d" and "str_ok d"
  shows "glob_covers d path \<longleftrightarrow> path = d"
proof -
  have "glob_accepts (chars d @ []) (chars path) \<longleftrightarrow> chars path = chars d"
    using assms(1) by (subst glob_accepts_lits) (auto simp: plain_def glob_accepts_Nil)
  also have "\<dots> \<longleftrightarrow> path = d"
    by (metis concat_chars)
  finally show ?thesis by simp
qed

text \<open>The glob \<open>d/**\<close> covers exactly the line-feed-free paths that begin with \<open>d/\<close>.\<close>

lemma glob_covers_dir:
  assumes "plain d" and "str_ok d" and "newline \<notin> set (chars path)"
  shows "glob_covers (d @ ''/**'') path \<longleftrightarrow> prefix (d @ ''/'') path"
proof -
  have slash: "str_ok (d @ ''/'')" "chars (d @ ''/'') = chars d @ [''/'']"
    using assms(2) by (simp_all add: chars_append str_ok_ascii utf8_len_def)
  have pat: "chars (d @ ''/**'') = (chars d @ [''/'']) @ [''*'', ''*'']"
    using assms(2) by (simp add: chars_append utf8_len_def)
  have "glob_covers (d @ ''/**'') path \<longleftrightarrow>
      (\<exists>r. chars path = chars (d @ ''/'') @ r \<and> newline \<notin> set r)"
    unfolding pat using assms(1)
    by (subst glob_accepts_lits) (auto simp: plain_def glob_accepts_any slash backslash_def)
  also have "\<dots> \<longleftrightarrow> prefix (d @ ''/'') path"
  proof
    assume "\<exists>r. chars path = chars (d @ ''/'') @ r \<and> newline \<notin> set r"
    then show "prefix (d @ ''/'') path"
      using chars_eq_append [OF slash(1)] by (auto simp: prefix_def)
  next
    assume "prefix (d @ ''/'') path"
    then obtain t where "path = (d @ ''/'') @ t"
      by (auto simp: prefix_def)
    then have "chars path = chars (d @ ''/'') @ chars t"
      using slash(1) by (simp only: chars_append)
    then show "\<exists>r. chars path = chars (d @ ''/'') @ r \<and> newline \<notin> set r"
      using assms(3) by auto
  qed
  finally show ?thesis .
qed

section \<open>Correctness for every engine\<close>

context regex_engine
begin

lemma glob_regex_correct:
  assumes "glob_to_regex api pat = Inr re" and "valid_str pat" and "valid_str path"
  shows "re_is_match api re path \<longleftrightarrow> glob_covers pat path"
proof -
  have "list_all wf_node (glob_nodes (chars pat))"
    using assms(2) by (intro glob_nodes_wf) (simp add: valid_str_ok flip: str_ok_def)
  moreover have "re_new api (anchored (re_escape api) (glob_nodes (chars pat))) = Inr re"
    using assms(1) by (simp add: glob_to_regex_def glob_text_anchored)
  ultimately show ?thesis
    using assms(3) by (simp add: match_anchored nodes_match_glob)
qed

lemma any_match_compiled:
  assumes "collect_results (glob_to_regex api) pats = Inr res"
    and "\<forall>p \<in> set pats. valid_str p" and "valid_str path"
  shows "any_match api res path \<longleftrightarrow> (\<exists>p \<in> set pats. glob_covers p path)"
proof -
  note all2 = assms(1) [unfolded collect_results_Ok]
  have "any_match api res path \<longleftrightarrow> (\<exists>re \<in> set res. re_is_match api re path)"
    by (induction res) auto
  also have "\<dots> \<longleftrightarrow> (\<exists>p \<in> set pats. glob_covers p path)"
    using all2 assms(2,3) glob_regex_correct
    by (fastforce simp: list_all2_conv_all_nth in_set_conv_nth)
  finally show ?thesis .
qed

end

end
