(* ===== verification/Policy_Facts.thy ===== *)
theory Policy_Facts
  imports Glob
begin

text \<open>
  What a loaded policy promises: the outcome of loading on every branch, the meaning of the file
  system decision in terms of the globs of the file, the host and syscall rules.
\<close>

section \<open>Loading\<close>

text \<open>The strings of a YAML document are Rust strings.\<close>

definition globs_valid :: "'re policy \<Rightarrow> bool" where
  "globs_valid pol =
     list_all valid_str (raw_deny_always pol @ raw_allow_read pol @ raw_allow_write pol)"

lemma from_raw_Ok:
  "from_raw api raw = Inr pol \<Longrightarrow>
     parse_mode (raw_mode raw) = (Inr (pol_mode pol) :: (('y, 'e) policy_error, mode) result) \<and>
     raw_deny_always pol = rf_deny_always (raw_fs raw) \<and>
     raw_allow_read pol = rf_allow_read (raw_fs raw) \<and>
     raw_allow_write pol = rf_allow_write (raw_fs raw) \<and>
     allow_domains pol = rn_allow_domains (raw_net raw) \<and>
     deny_all_else pol = rn_deny_all_else (raw_net raw) \<and>
     deny_syscalls pol = map syscall_rule_of (rs_deny (raw_sys raw)) \<and>
     (raw_allow_read pol \<noteq> [] \<or> raw_allow_write pol \<noteq> [])"
  by (auto simp: from_raw_def and_then_Inr parse_mode_def split: if_splits)

lemma from_raw_compiled:
  assumes "from_raw api raw = (Inr pol :: (('y, 'e) policy_error, 're policy) result)"
  shows "collect_results (glob_to_regex api) (raw_deny_always pol) =
           (Inr (compiled_deny pol) :: (('y, 'e) policy_error, 're list) result)"
    and "collect_results (glob_to_regex api) (raw_allow_read pol) =
           (Inr (compiled_allow_read pol) :: (('y, 'e) policy_error, 're list) result)"
    and "collect_results (glob_to_regex api) (raw_allow_write pol) =
           (Inr (compiled_allow_write pol) :: (('y, 'e) policy_error, 're list) result)"
  using assms by (auto simp: from_raw_def and_then_Inr split: if_splits)

lemma from_yaml_Ok:
  "from_yaml api yaml s = (Inr pol :: (('y, 'e) policy_error, 're policy) result) \<longleftrightarrow>
     (\<exists>raw. yaml s = Inr raw \<and>
        from_raw api raw = (Inr pol :: (('y, 'e) policy_error, 're policy) result))"
  by (simp add: from_yaml_def and_then_Inr)

text \<open>A pattern and the answer of the engine to the expression that it becomes.\<close>

definition refuses :: "('re, 'e) regex_api \<Rightarrow> string \<Rightarrow> 'e \<Rightarrow> bool" where
  "refuses api p e \<longleftrightarrow> re_new api (glob_loop (re_escape api) (chars p) 0 ''^'' @ ''$'') = Inl e"

lemma glob_to_regex_Err: "glob_to_regex api p = Inl err \<longleftrightarrow> (\<exists>e. err = InvalidGlob p e \<and> refuses api p e)"
  by (auto simp: glob_to_regex_def refuses_def map_err_def split: sum.splits)

lemma is_ok_glob: "is_ok (glob_to_regex api p) \<longleftrightarrow> (\<nexists>e. refuses api p e)"
  by (auto simp: glob_to_regex_def refuses_def map_err_def is_ok_def split: sum.splits)

lemma collect_globs_Err:
  "collect_results (glob_to_regex api) ps = Inl err \<longleftrightarrow>
     (\<exists>p e before after. err = InvalidGlob p e \<and> ps = before @ p # after \<and> refuses api p e \<and>
        list_all (\<lambda>q. \<nexists>e. refuses api q e) before)"
  unfolding collect_results_Inl glob_to_regex_Err is_ok_glob by blast

text \<open>
  C35. When and why \<open>Policy::from_yaml\<close> rejects a document; the variant of the error says which check failed,
  and the checks come in this order.  \<open>Yaml\<close>: the reader failed.  \<open>InvalidMode\<close>: the mode, which the
  error carries, is neither \<open>enforce\<close> nor \<open>monitor\<close>.  \<open>EmptyAllowList\<close>: the mode is one of the two and both
  allow lists are empty, whatever is denied.  \<open>InvalidGlob\<close>: otherwise, the engine refused the expression
  of the pattern that the error carries with the source that it carries, and this is the first such pattern
  in the order of the lists.  Never \<open>Io\<close>.
\<close>

theorem from_yaml_error:
  "from_yaml api yaml text = Inl err \<longleftrightarrow>
    (case err of
      Yaml y \<Rightarrow> yaml text = Inl y
    | InvalidMode m \<Rightarrow> \<exists>raw. yaml text = Inr raw \<and> m = raw_mode raw \<and> m \<notin> {''enforce'', ''monitor''}
    | EmptyAllowList \<Rightarrow> \<exists>raw. yaml text = Inr raw \<and> raw_mode raw \<in> {''enforce'', ''monitor''} \<and>
        rf_allow_read (raw_fs raw) = [] \<and> rf_allow_write (raw_fs raw) = []
    | InvalidGlob p e \<Rightarrow> \<exists>raw before after. yaml text = Inr raw \<and> raw_mode raw \<in> {''enforce'', ''monitor''} \<and>
        \<not> (rf_allow_read (raw_fs raw) = [] \<and> rf_allow_write (raw_fs raw) = []) \<and>
        rf_deny_always (raw_fs raw) @ rf_allow_read (raw_fs raw) @ rf_allow_write (raw_fs raw) = before @ p # after \<and>
        refuses api p e \<and> list_all (\<lambda>q. \<nexists>e. refuses api q e) before
    | Io e \<Rightarrow> False)"
proof (cases "yaml text")
  case (Inl y)
  then show ?thesis by (auto simp: from_yaml_def split: policy_error.split)
next
  case (Inr raw)
  let ?globs = "rf_deny_always (raw_fs raw) @ rf_allow_read (raw_fs raw) @ rf_allow_write (raw_fs raw)"
  have raw_error: "from_yaml api yaml text = Inl err \<longleftrightarrow> from_raw api raw = Inl err"
    by (simp add: from_yaml_def Inr)
  have "from_raw api raw = Inl err \<longleftrightarrow>
      (if raw_mode raw \<notin> {''enforce'', ''monitor''} then err = InvalidMode (raw_mode raw)
       else if rf_allow_read (raw_fs raw) = [] \<and> rf_allow_write (raw_fs raw) = [] then err = EmptyAllowList
       else collect_results (glob_to_regex api) ?globs = Inl err)"
    by (auto simp: from_raw_def parse_mode_def collect_results_append and_then_def split: sum.split)
  then show ?thesis
    unfolding raw_error collect_globs_Err by (cases err) (auto simp: Inr)
qed

section \<open>The file system decision\<close>

interpretation policy_access: access_control
  "\<lambda>p. any_match api (compiled_deny pol) p"
  "\<lambda>w p. any_match api (if w then compiled_allow_write pol else compiled_allow_read pol) p"
  "path_allowed api pol"
  for api :: "('re, 'e) regex_api" and pol :: "'re policy"
  by unfold_locales (simp add: path_allowed_def)

lemma policy_matches:
  assumes engine: "regex_engine api"
    and ok: "from_yaml api yaml text = (Inr pol :: (('y, 'e) policy_error, 're policy) result)"
    and valid: "globs_valid pol" "valid_str path"
  shows "any_match api (compiled_deny pol) path \<longleftrightarrow>
           (\<exists>d \<in> set (raw_deny_always pol). glob_covers d path)"
    and "any_match api (compiled_allow_read pol) path \<longleftrightarrow>
           (\<exists>a \<in> set (raw_allow_read pol). glob_covers a path)"
    and "any_match api (compiled_allow_write pol) path \<longleftrightarrow>
           (\<exists>a \<in> set (raw_allow_write pol). glob_covers a path)"
proof -
  from ok obtain raw where
    raw: "from_raw api raw = (Inr pol :: (('y, 'e) policy_error, 're policy) result)"
    by (auto simp: from_yaml_Ok)
  note match = regex_engine.any_match_compiled [OF engine _ _ valid(2)]
  show "any_match api (compiled_deny pol) path \<longleftrightarrow>
           (\<exists>d \<in> set (raw_deny_always pol). glob_covers d path)"
    by (rule match [OF from_raw_compiled(1) [OF raw]]) (use valid(1) in \<open>simp add: globs_valid_def list_all_iff\<close>)
  show "any_match api (compiled_allow_read pol) path \<longleftrightarrow>
           (\<exists>a \<in> set (raw_allow_read pol). glob_covers a path)"
    by (rule match [OF from_raw_compiled(2) [OF raw]]) (use valid(1) in \<open>simp add: globs_valid_def list_all_iff\<close>)
  show "any_match api (compiled_allow_write pol) path \<longleftrightarrow>
           (\<exists>a \<in> set (raw_allow_write pol). glob_covers a path)"
    by (rule match [OF from_raw_compiled(3) [OF raw]]) (use valid(1) in \<open>simp add: globs_valid_def list_all_iff\<close>)
qed

lemma path_allowed_globs:
  assumes "regex_engine api" and "from_yaml api yaml text = Inr pol"
    and "globs_valid pol" and "valid_str path"
  shows "path_allowed api pol path for_write \<longleftrightarrow>
     (\<forall>d \<in> set (raw_deny_always pol). \<not> glob_covers d path) \<and>
     (\<exists>a \<in> set (if for_write then raw_allow_write pol else raw_allow_read pol). glob_covers a path)"
  using policy_matches [OF assms] by (simp add: policy_access.decision)

text \<open>
  C15. The answer of \<open>path_allowed\<close> of a loaded policy, in terms of the globs written in the file:
  no \<open>deny_always\<close> glob covers the path, and some glob of the allow list of the access kind does.
  So \<open>deny_always\<close> wins over the allow lists and an unlisted path is refused.
\<close>

theorem policy_decision:
  assumes "regex_engine api" and "from_yaml api yaml text = Inr pol"
    and "globs_valid pol" and "valid_str path"
  shows "path_allowed api pol path for_write \<longleftrightarrow>
     (\<forall>d \<in> set (raw_deny_always pol). \<not> glob_covers d path) \<and>
     (\<exists>a \<in> set (if for_write then raw_allow_write pol else raw_allow_read pol). glob_covers a path)"
  using assms by (rule path_allowed_globs)

text \<open>
  A policy of the unit tests (\<open>test_policy\<close> in \<open>enforcer/mod.rs\<close>): the structure the YAML reader
  yields for its text, and the policy compiled from it by the small engine.
\<close>

definition test_raw :: "string \<Rightarrow> raw_policy" where
  "test_raw m =
     \<lparr>raw_mode = m,
      raw_fs = \<lparr>rf_allow_read = [''/home/user/projects/**''],
                rf_allow_write = [''/home/user/projects/**''],
                rf_deny_always = [''**/.env'']\<rparr>,
      raw_net = \<lparr>rn_allow_domains = [''api.anthropic.com''], rn_deny_all_else = True\<rparr>,
      raw_sys = \<lparr>rs_deny = [Structured ''ptrace'' True]\<rparr>\<rparr>"

definition test_policy :: "mode \<Rightarrow> re_node list policy" where
  "test_policy m =
     \<lparr>pol_mode = m,
      compiled_deny = [glob_nodes (chars ''**/.env'')],
      compiled_allow_read = [glob_nodes (chars ''/home/user/projects/**'')],
      compiled_allow_write = [glob_nodes (chars ''/home/user/projects/**'')],
      allow_domains = [''api.anthropic.com''],
      deny_all_else = True,
      deny_syscalls = [\<lparr>pattern = ''ptrace'', kill_on_deny = True\<rparr>],
      raw_deny_always = [''**/.env''],
      raw_allow_read = [''/home/user/projects/**''],
      raw_allow_write = [''/home/user/projects/**'']\<rparr>"

definition mode_name :: "mode \<Rightarrow> string" where
  "mode_name m = (case m of Enforce \<Rightarrow> ''enforce'' | Monitor \<Rightarrow> ''monitor'')"

lemma mini_glob: "str_ok p \<Longrightarrow> glob_to_regex mini_api p = Inr (glob_nodes (chars p))"
  by (simp add: glob_to_regex_def glob_text_anchored mini_api_def mini_new_anchored glob_nodes_wf
      str_ok_def)

lemma test_policy_loads:
  "from_yaml mini_api (\<lambda>_. Inr (test_raw (mode_name m))) text = Inr (test_policy m)"
  by (simp add: from_yaml_def from_raw_def test_raw_def test_policy_def mini_glob str_ok_ascii
      parse_mode_def mode_name_def split: mode.split)

lemma test_policy_valid: "globs_valid (test_policy m)"
  by (simp add: globs_valid_def test_policy_def valid_str_ascii)

text \<open>A document without allow lists is rejected even when it denies something.\<close>

theorem from_yaml_error_witness:
  "from_yaml mini_api (\<lambda>_. Inr (test_raw ''enforce''
       \<lparr>raw_fs := \<lparr>rf_allow_read = [], rf_allow_write = [], rf_deny_always = [''**/.env'']\<rparr>\<rparr>)) [] =
     (Inl EmptyAllowList :: ((unit, string) policy_error, re_node list policy) result)"
  by (subst from_yaml_error) (simp add: test_raw_def)

theorem policy_decision_witness:
  "path_allowed mini_api (test_policy Enforce) ''/home/user/projects/main.rs'' False \<and>
   \<not> path_allowed mini_api (test_policy Enforce) ''/home/user/projects/app/.env'' False \<and>
   \<not> path_allowed mini_api (test_policy Enforce) ''/etc/passwd'' True"
proof -
  note decide = policy_decision [OF mini.regex_engine_axioms test_policy_loads test_policy_valid
      valid_str_ascii]
  have covers: "glob_covers ''/home/user/projects/**'' ''/home/user/projects/main.rs''"
    "\<not> glob_covers ''**/.env'' ''/home/user/projects/main.rs''"
    "glob_covers ''**/.env'' ''/home/user/projects/app/.env''"
    "\<not> glob_covers ''/home/user/projects/**'' ''/etc/passwd''"
    by code_simp+
  have "path_allowed mini_api (test_policy Enforce) ''/home/user/projects/main.rs'' False"
    by (subst decide) (use covers in \<open>auto simp: test_policy_def\<close>)
  moreover have "\<not> path_allowed mini_api (test_policy Enforce) ''/home/user/projects/app/.env'' False"
    by (subst decide) (use covers in \<open>auto simp: test_policy_def\<close>)
  moreover have "\<not> path_allowed mini_api (test_policy Enforce) ''/etc/passwd'' True"
    by (subst decide) (use covers in \<open>auto simp: test_policy_def\<close>)
  ultimately show ?thesis by simp
qed

section \<open>Hosts and system calls\<close>

lemma domain_listed_iff: "domain_listed ds d \<longleftrightarrow> (\<exists>a \<in> set ds. eq_ignore_ascii_case a d)"
  by (induction ds) auto

text \<open>
  \<open>domain_allowed\<close> depends on the host name only up to ASCII case, and without \<open>deny_all_else\<close> it
  allows every host; with it, exactly the listed ones.
\<close>

theorem domain_allowed_spec:
  "domain_allowed pol d \<longleftrightarrow>
     (if deny_all_else pol then \<exists>a \<in> set (allow_domains pol). eq_ignore_ascii_case a d else True)"
  by (simp add: domain_allowed_def domain_listed_iff)

lemma rule_applies_iff:
  "rule_applies sc r \<longleftrightarrow>
     sc = pattern r \<or> (CHR '':'' \<notin> set (pattern r) \<and> prefix (pattern r @ '':'') sc)"
  by (auto simp: rule_applies_def)

text \<open>
  A process is killed for a system call only under a rule that denies the call, and it is the
  first rule of the list that applies to the call whose \<open>kill_on_deny\<close> decides.  A rule without a
  colon applies to the call and to all its refined forms \<open>name:...\<close>; one with a colon only to the
  identical text.
\<close>

theorem should_kill_first_rule:
  "should_kill_on_syscall_deny pol sc \<longleftrightarrow>
     (\<exists>before r after. deny_syscalls pol = before @ r # after \<and> kill_on_deny r \<and>
        (sc = pattern r \<or> (CHR '':'' \<notin> set (pattern r) \<and> prefix (pattern r @ '':'') sc)) \<and>
        \<not> syscall_denied (pol\<lparr>deny_syscalls := before\<rparr>) sc)"
proof -
  have denied: "\<not> syscall_denied (pol\<lparr>deny_syscalls := rs\<rparr>) sc \<longleftrightarrow> (\<forall>r \<in> set rs. \<not> rule_applies sc r)" for rs
    by (simp add: syscall_denied_def list_ex_iff)
  have "should_kill_on_syscall_deny pol sc \<longleftrightarrow>
      (\<exists>r. find (rule_applies sc) (deny_syscalls pol) = Some r \<and> kill_on_deny r)"
    by (simp add: should_kill_on_syscall_deny_def split: option.splits)
  then show ?thesis
    by (auto simp: find_Some_split denied rule_applies_iff)
qed

lemma should_kill_denied: "should_kill_on_syscall_deny pol sc \<Longrightarrow> syscall_denied pol sc"
  by (auto simp: should_kill_on_syscall_deny_def syscall_denied_def list_ex_iff
      dest: find_SomeD split: option.splits)

end
