(* ===== verification/Sync_Compiler.thy ===== *)
theory Sync_Compiler
  imports Policy_Facts
begin

text \<open>
  \<open>policy_sync_compiler.rs\<close>: the translation of a policy into the 128-byte prefixes and rules that
  the kernel maps of the synchronous mode hold, and the cases in which a policy has none.
\<close>

section \<open>Definitions\<close>

datatype sync_compile_error =
    UnsupportedGlob string
  | LimitExceeded

definition sync_error_message :: "sync_compile_error \<Rightarrow> string" where
  "sync_error_message e =
     (case e of
        UnsupportedGlob g \<Rightarrow>
          (''glob n'' @ [CHR 0xC3, CHR 0xA3] @ ''o suportado no modo s'' @ [CHR 0xC3, CHR 0xAD] @ ''ncrono: '' @ [CHR 0x27] @ g @ [CHR 0x27] @ '' (apenas prefixos de diret'' @ [CHR 0xC3, CHR 0xB3] @ ''rio s'' @ [CHR 0xC3, CHR 0xA3] @ ''o suportados)'')
      | LimitExceeded \<Rightarrow> (''limite m'' @ [CHR 0xC3, CHR 0xA1] @ ''ximo de 16 regras excedido para o mapa s'' @ [CHR 0xC3, CHR 0xAD] @ ''ncrono''))"

record sync_compiled_policy =
  allow_read_prefixes :: "u8 list list"
  allow_write_prefixes :: "u8 list list"
  deny_always_prefixes :: "u8 list list"
  deny_syscalls_rules :: "(u8 list \<times> bool) list"

text \<open>The first \<open>len\<close> bytes of a zeroed array of 128 are overwritten.\<close>

definition string_to_bytes_128 :: "string \<Rightarrow> u8 list" where
  "string_to_bytes_128 s =
     (let bytes = replicate 128 0;
          s_bytes = as_bytes s;
          len = min (length s_bytes) 127
      in take len s_bytes @ drop len bytes)"

definition extract_prefix :: "string \<Rightarrow> (unit, string) result" where
  "extract_prefix pat =
     (if pat = [] then Err ()
      else if pat = ''**'' \<or> pat = ''**/*'' then Ok ''/''
      else if \<not> str_starts_with pat ''/'' then Err ()
      else
        let clean_part =
              (if str_ends_with pat ''/**'' then take (length pat - 3) pat
               else if str_ends_with pat ''/**/'' then take (length pat - 4) pat
               else if str_ends_with pat ''**'' then take (length pat - 2) pat
               else if str_ends_with pat ''/*'' then take (length pat - 2) pat
               else pat)
        in if CHR ''*'' \<in> set clean_part \<or> CHR ''?'' \<in> set clean_part \<or> CHR ''['' \<in> set clean_part
           then Err ()
           else if str_ends_with pat ''/**'' \<or> str_ends_with pat ''/*'' \<or> str_ends_with pat ''**''
           then (if \<not> str_ends_with clean_part ''/'' then Ok (clean_part @ ''/'') else Ok clean_part)
           else Ok clean_part)"

definition is_static_security_rule :: "string \<Rightarrow> bool" where
  "is_static_security_rule pat =
     (let p = str_trim pat
      in p = ''**/.env'' \<or> p = ''.env'' \<or> p = ''**/.ssh/**'' \<or> p = ''**/id_rsa*'' \<or> p = ''**/*.pem'')"

definition compile_prefix :: "string \<Rightarrow> (sync_compile_error, u8 list) result" where
  "compile_prefix r =
     (case extract_prefix r of
        Inr pre \<Rightarrow> Ok (string_to_bytes_128 pre)
      | Inl _ \<Rightarrow> Err (UnsupportedGlob r))"

text \<open>The third loop: the rules that the hook checks by itself are skipped.\<close>

fun compile_deny :: "string list \<Rightarrow> (sync_compile_error, u8 list list) result" where
  "compile_deny [] = Ok []"
| "compile_deny (d # ds) =
     (if is_static_security_rule d then compile_deny ds
      else and_then (compile_prefix d) (\<lambda>b. and_then (compile_deny ds) (\<lambda>bs. Ok (b # bs))))"

definition compile_syscall :: "syscall_rule \<Rightarrow> (sync_compile_error, u8 list \<times> bool) result" where
  "compile_syscall s =
     (if CHR ''*'' \<in> set (pattern s) \<or> CHR ''?'' \<in> set (pattern s) \<or> CHR ''['' \<in> set (pattern s)
      then Err (UnsupportedGlob (pattern s))
      else if \<not> str_starts_with (pattern s) ''execve:'' then Err (UnsupportedGlob (pattern s))
      else Ok (string_to_bytes_128 (pattern s), kill_on_deny s))"

definition try_compile_for_sync ::
    "'re policy \<Rightarrow> (sync_compile_error, sync_compiled_policy) result" where
  "try_compile_for_sync pol =
     and_then (collect_results compile_prefix (raw_allow_read pol)) (\<lambda>rd.
     and_then (collect_results compile_prefix (raw_allow_write pol)) (\<lambda>wr.
     and_then (compile_deny (raw_deny_always pol)) (\<lambda>dn.
     and_then (collect_results compile_syscall (deny_syscalls pol)) (\<lambda>sys.
     if length rd > 16 \<or> length wr > 16 \<or> length dn > 16 \<or> length sys > 16
     then Err LimitExceeded
     else Ok \<lparr>allow_read_prefixes = rd, allow_write_prefixes = wr,
              deny_always_prefixes = dn, deny_syscalls_rules = sys\<rparr>))))"

section \<open>Buffers\<close>

lemma string_to_bytes_pad: "string_to_bytes_128 s = pad 128 (as_bytes (take 127 s))"
  by (simp add: string_to_bytes_128_def pad_def take_as_bytes min_def)

lemma string_to_bytes_length [simp]: "length (string_to_bytes_128 s) = 128"
  by (simp add: string_to_bytes_pad)

lemma string_to_bytes_terminated: "string_to_bytes_128 s ! 127 = 0"
  by (simp add: string_to_bytes_pad pad_def nth_append)

lemma string_to_bytes_c_string:
  "CHR 0x00 \<notin> set s \<Longrightarrow> c_string (string_to_bytes_128 s) = as_bytes (take 127 s)"
  unfolding string_to_bytes_pad by (rule c_string_pad) (auto dest: in_set_takeD)

section \<open>Directory globs\<close>

text \<open>
  \<open>dir_glob d\<close>: \<open>d\<close> is an absolute directory without a trailing slash (the root is the empty text)
  in which no character is special to either path; the policy then writes \<open>d/**\<close>.
\<close>

definition dir_glob :: "string \<Rightarrow> bool" where
  "dir_glob d =
     ((d = [] \<or> (hd d = CHR ''/'' \<and> last d \<noteq> CHR ''/'')) \<and>
      list_all (\<lambda>c. c \<notin> set ''*?['' \<and> c \<noteq> CHR 0x5C \<and> c \<noteq> CHR 0x00) d)"

lemma dir_glob_free: "dir_glob d \<Longrightarrow> CHR ''*'' \<notin> set d \<and> CHR ''?'' \<notin> set d \<and> CHR ''['' \<notin> set d
    \<and> CHR 0x5C \<notin> set d \<and> CHR 0x00 \<notin> set d"
  by (auto simp: dir_glob_def list_all_iff)

lemma chars_subset: "r \<in> set (chars s) \<Longrightarrow> set r \<subseteq> set s"
  by (metis concat_chars set_concat Union_upper image_eqI list.set_map UN_upper)

lemma dir_glob_plain: "dir_glob d \<Longrightarrow> plain d"
  using dir_glob_free [of d]
  by (force simp: plain_def list_all_iff backslash_def dest: chars_subset)

lemma suffix_snoc_last: "suffix [c] s \<longleftrightarrow> s \<noteq> [] \<and> last s = c"
  by (cases s rule: rev_cases) (auto simp: suffix_def)

lemma extract_prefix_dir:
  assumes "dir_glob d"
  shows "extract_prefix (d @ ''/**'') = Inr (d @ ''/'')"
proof -
  have free: "CHR ''*'' \<notin> set d" "CHR ''?'' \<notin> set d" "CHR ''['' \<notin> set d"
    using dir_glob_free [OF assms] by auto
  have start: "prefix ''/'' (d @ ''/**'')"
    using assms by (cases d) (auto simp: dir_glob_def)
  moreover have "\<not> suffix ''/'' d"
    using assms by (auto simp: dir_glob_def suffix_snoc_last)
  moreover have "d @ ''/**'' \<noteq> ''**''" "d @ ''/**'' \<noteq> ''**/*''"
    using start by (auto simp: prefix_def)
  ultimately show ?thesis
    using free by (simp add: extract_prefix_def suffix_def)
qed

lemma extract_prefix_literal:
  assumes "prefix ''/'' f" and "CHR ''*'' \<notin> set f" "CHR ''?'' \<notin> set f" "CHR ''['' \<notin> set f"
  shows "extract_prefix f = Inr f"
proof -
  have no: "\<not> suffix ''/**'' f" "\<not> suffix ''/**/'' f" "\<not> suffix ''**'' f" "\<not> suffix ''/*'' f"
    using assms(2) by (auto simp: suffix_def)
  have "f \<noteq> ''**''" "f \<noteq> ''**/*''" "f \<noteq> []"
    using assms(1,2) by auto
  then show ?thesis
    using assms no by (simp add: extract_prefix_def)
qed

section \<open>What a successful compilation guarantees\<close>

lemma compile_prefix_Ok:
  "compile_prefix r = Inr b \<longleftrightarrow> (\<exists>pre. extract_prefix r = Inr pre \<and> b = string_to_bytes_128 pre)"
  by (auto simp: compile_prefix_def split: sum.splits)

lemma compile_deny_Ok:
  "compile_deny ds = Inr bs \<longleftrightarrow>
     collect_results compile_prefix (filter (\<lambda>d. \<not> is_static_security_rule d) ds) = Inr bs"
  by (induction ds arbitrary: bs) (auto simp: and_then_Inr split: sum.splits)

lemma collect_bytes:
  "collect_results compile_prefix ps = Inr bs \<Longrightarrow> \<forall>b \<in> set bs. length b = 128 \<and> b ! 127 = 0"
  unfolding collect_results_Ok
  by (induction rule: list_all2_induct) (auto simp: compile_prefix_Ok string_to_bytes_terminated)

lemma compile_syscall_Ok:
  "compile_syscall r = Inr x \<longleftrightarrow>
     x = (string_to_bytes_128 (pattern r), kill_on_deny r) \<and> prefix ''execve:'' (pattern r) \<and>
     CHR ''*'' \<notin> set (pattern r) \<and> CHR ''?'' \<notin> set (pattern r) \<and> CHR ''['' \<notin> set (pattern r)"
  by (auto simp: compile_syscall_def)

lemma try_compile_Ok:
  "try_compile_for_sync pol = Inr c \<longleftrightarrow>
     collect_results compile_prefix (raw_allow_read pol) = Inr (allow_read_prefixes c) \<and>
     collect_results compile_prefix (raw_allow_write pol) = Inr (allow_write_prefixes c) \<and>
     compile_deny (raw_deny_always pol) = Inr (deny_always_prefixes c) \<and>
     collect_results compile_syscall (deny_syscalls pol) = Inr (deny_syscalls_rules c) \<and>
     length (allow_read_prefixes c) \<le> 16 \<and> length (allow_write_prefixes c) \<le> 16 \<and>
     length (deny_always_prefixes c) \<le> 16 \<and> length (deny_syscalls_rules c) \<le> 16"
  by (cases c) (auto simp: try_compile_for_sync_def and_then_Inr not_less split: if_splits)

text \<open>
  C31. A policy that compiles for the synchronous mode fits the kernel maps: each of the four tables
  has at most 16 entries, every entry is a buffer of 128 bytes whose last byte is zero, and every
  system call rule begins with \<open>execve:\<close>.
\<close>

theorem sync_tables_fit:
  assumes "try_compile_for_sync pol = Inr c"
  shows "length (allow_read_prefixes c) \<le> 16 \<and> length (allow_write_prefixes c) \<le> 16 \<and>
     length (deny_always_prefixes c) \<le> 16 \<and> length (deny_syscalls_rules c) \<le> 16 \<and>
     (\<forall>b \<in> set (allow_read_prefixes c @ allow_write_prefixes c @ deny_always_prefixes c
                @ map fst (deny_syscalls_rules c)). length b = 128 \<and> b ! 127 = 0) \<and>
     (\<forall>r \<in> set (deny_syscalls pol). prefix ''execve:'' (pattern r))"
proof -
  note ok = assms [unfolded try_compile_Ok]
  have sys: "list_all2 (\<lambda>r x. compile_syscall r = Inr x) (deny_syscalls pol) (deny_syscalls_rules c)"
    using ok by (simp add: collect_results_Ok)
  then have "\<forall>b \<in> set (map fst (deny_syscalls_rules c)). length b = 128 \<and> b ! 127 = 0"
    by (induction rule: list_all2_induct) (auto simp: compile_syscall_Ok string_to_bytes_terminated)
  moreover from sys have "\<forall>r \<in> set (deny_syscalls pol). prefix ''execve:'' (pattern r)"
    by (induction rule: list_all2_induct) (auto simp: compile_syscall_Ok)
  ultimately show ?thesis
    using ok collect_bytes compile_deny_Ok by (auto dest!: collect_bytes simp: compile_deny_Ok)
qed

end
