(* ===== verification/Ebpf_State.thy ===== *)
theory Ebpf_State
  imports Prelude
begin

text \<open>
  \<open>syscallcage-ebpf/src/main.rs\<close>: the event record, the kernel maps and the small helpers that all
  hooks share.  A kernel map is a HOL map from keys to values; an insertion into an LRU map may
  drop other entries, chosen by the kernel, so \<open>lru_insert\<close> takes the set of victims as an
  argument.  Everything a hook obtains from the kernel (the current task, the tracepoint record,
  user memory, whether the ring buffer has room) is a field of its context record.
\<close>

section \<open>Data\<close>

definition EVENT_TYPE_READ :: u32 where "EVENT_TYPE_READ = 1"
definition EVENT_TYPE_WRITE :: u32 where "EVENT_TYPE_WRITE = 2"
definition EVENT_TYPE_EXEC :: u32 where "EVENT_TYPE_EXEC = 3"
definition EVENT_TYPE_NETWORK :: u32 where "EVENT_TYPE_NETWORK = 4"
definition EVENT_TYPE_SYSCALL :: u32 where "EVENT_TYPE_SYSCALL = 5"

lemmas event_type_defs =
  EVENT_TYPE_READ_def EVENT_TYPE_WRITE_def EVENT_TYPE_EXEC_def EVENT_TYPE_NETWORK_def
  EVENT_TYPE_SYSCALL_def

lemma event_types_distinct [simp]:
  "EVENT_TYPE_READ \<noteq> EVENT_TYPE_WRITE" "EVENT_TYPE_READ \<noteq> EVENT_TYPE_EXEC"
  "EVENT_TYPE_READ \<noteq> EVENT_TYPE_NETWORK" "EVENT_TYPE_READ \<noteq> EVENT_TYPE_SYSCALL"
  "EVENT_TYPE_WRITE \<noteq> EVENT_TYPE_READ" "EVENT_TYPE_WRITE \<noteq> EVENT_TYPE_EXEC"
  "EVENT_TYPE_WRITE \<noteq> EVENT_TYPE_NETWORK" "EVENT_TYPE_WRITE \<noteq> EVENT_TYPE_SYSCALL"
  "EVENT_TYPE_EXEC \<noteq> EVENT_TYPE_READ" "EVENT_TYPE_EXEC \<noteq> EVENT_TYPE_WRITE"
  "EVENT_TYPE_EXEC \<noteq> EVENT_TYPE_NETWORK" "EVENT_TYPE_EXEC \<noteq> EVENT_TYPE_SYSCALL"
  "EVENT_TYPE_NETWORK \<noteq> EVENT_TYPE_READ" "EVENT_TYPE_NETWORK \<noteq> EVENT_TYPE_WRITE"
  "EVENT_TYPE_NETWORK \<noteq> EVENT_TYPE_EXEC" "EVENT_TYPE_NETWORK \<noteq> EVENT_TYPE_SYSCALL"
  "EVENT_TYPE_SYSCALL \<noteq> EVENT_TYPE_READ" "EVENT_TYPE_SYSCALL \<noteq> EVENT_TYPE_WRITE"
  "EVENT_TYPE_SYSCALL \<noteq> EVENT_TYPE_EXEC" "EVENT_TYPE_SYSCALL \<noteq> EVENT_TYPE_NETWORK"
  by (simp_all add: event_type_defs)

record bpf_event =
  ev_pid :: u32
  ev_type :: u32
  ev_resolved :: u8
  ev_target :: "u8 list"

record bpf_syscall_rule =
  rule_pattern :: "u8 list"
  rule_kill_on_deny :: u32

record bpf_state =
  EVENTS :: "bpf_event list"
  MONITORED_PIDS :: "u32 \<rightharpoonup> u8"
  PENDING_DNS_QUERY :: "u16 \<rightharpoonup> u8 list"
  DNS_RECV_BUFF :: "u64 \<rightharpoonup> u64"
  IP_TO_DOMAIN :: "u32 \<rightharpoonup> u8 list"
  SCRATCH_DOMAIN :: "u8 list"
  SCRATCH_PATH :: "u8 list"
  DNS_FDS :: "u64 \<rightharpoonup> u8"
  OFFSETS :: "u32 \<rightharpoonup> u32"
  ALLOW_READ_PREFIXES :: "u32 \<rightharpoonup> u8 list"
  ALLOW_WRITE_PREFIXES :: "u32 \<rightharpoonup> u8 list"
  DENY_ALWAYS_PREFIXES :: "u32 \<rightharpoonup> u8 list"
  DENY_SYSCALLS_RULES :: "u32 \<rightharpoonup> bpf_syscall_rule"
  ENFORCE_MODE :: "u32 \<rightharpoonup> u32"

text \<open>The maps as the loader creates them: empty, the scratch arrays zeroed.\<close>

definition initial_maps :: bpf_state where
  "initial_maps =
     \<lparr>EVENTS = [], MONITORED_PIDS = Map.empty, PENDING_DNS_QUERY = Map.empty,
      DNS_RECV_BUFF = Map.empty, IP_TO_DOMAIN = Map.empty, SCRATCH_DOMAIN = replicate 512 0,
      SCRATCH_PATH = replicate 256 0, DNS_FDS = Map.empty, OFFSETS = Map.empty,
      ALLOW_READ_PREFIXES = Map.empty, ALLOW_WRITE_PREFIXES = Map.empty,
      DENY_ALWAYS_PREFIXES = Map.empty, DENY_SYSCALLS_RULES = Map.empty, ENFORCE_MODE = Map.empty\<rparr>"

section \<open>Kernel maps\<close>

text \<open>
  The contract of a map that a hook uses: a successful insertion is visible, it may lose other
  entries but never invents or changes one, and a removal removes exactly its key.
\<close>

locale kernel_map =
  fixes get :: "'m \<Rightarrow> 'k \<Rightarrow> 'v option"
    and insert :: "'m \<Rightarrow> 'k \<Rightarrow> 'v \<Rightarrow> 'm"
    and remove :: "'m \<Rightarrow> 'k \<Rightarrow> 'm"
  assumes get_insert: "get (insert m k v) k = Some v"
    and get_insert_other: "k' \<noteq> k \<Longrightarrow> get (insert m k v) k' = get m k' \<or> get (insert m k v) k' = None"
    and get_remove: "get (remove m k) k' = (if k' = k then None else get m k')"
begin

lemma insert_no_invention: "get (insert m k v) k' = Some w \<Longrightarrow> (k' = k \<and> w = v) \<or> get m k' = Some w"
  using get_insert [of m k v] get_insert_other [of k' k m v] by (cases "k' = k") auto

lemma remove_then_get: "get (remove m k) k = None"
  by (simp add: get_remove)

lemma remove_no_invention: "get (remove m k) k' = Some w \<Longrightarrow> get m k' = Some w"
  by (simp add: get_remove split: if_splits)

end

text \<open>A map that never loses an entry (\<open>BPF_MAP_TYPE_HASH\<close>).\<close>

locale hash_map = kernel_map +
  assumes get_insert_kept: "k' \<noteq> k \<Longrightarrow> get (insert m k v) k' = get m k'"
begin

lemma get_insert_if: "get (insert m k v) k' = (if k' = k then Some v else get m k')"
  by (simp add: get_insert get_insert_kept)

end

definition lru_insert :: "'k set \<Rightarrow> ('k \<rightharpoonup> 'v) \<Rightarrow> 'k \<Rightarrow> 'v \<Rightarrow> ('k \<rightharpoonup> 'v)" where
  "lru_insert victims m k v = (\<lambda>k'. if k' = k then Some v else if k' \<in> victims then None else m k')"

definition map_insert :: "('k \<rightharpoonup> 'v) \<Rightarrow> 'k \<Rightarrow> 'v \<Rightarrow> ('k \<rightharpoonup> 'v)" where
  "map_insert m k v = (\<lambda>k'. if k' = k then Some v else m k')"

definition map_remove :: "('k \<rightharpoonup> 'v) \<Rightarrow> 'k \<Rightarrow> ('k \<rightharpoonup> 'v)" where
  "map_remove m k = (\<lambda>k'. if k' = k then None else m k')"

interpretation lru: kernel_map "\<lambda>m. m" "lru_insert victims" map_remove
  for victims :: "'k set"
  by unfold_locales (auto simp: lru_insert_def map_remove_def)

interpretation hash: hash_map "\<lambda>m. m" map_insert map_remove
  by unfold_locales (auto simp: map_insert_def map_remove_def)

section \<open>Helpers\<close>

text \<open>\<open>(bpf_get_current_pid_tgid() >> 32) as u32\<close>\<close>

definition tgid_of :: "u64 \<Rightarrow> u32" where
  "tgid_of pid_tgid = ucast (drop_bit 32 pid_tgid)"

definition is_monitored :: "bpf_state \<Rightarrow> u32 \<Rightarrow> bool" where
  "is_monitored st pid = (case MONITORED_PIDS st pid of Some v \<Rightarrow> v = 1 | None \<Rightarrow> False)"

definition is_enforce_mode :: "bpf_state \<Rightarrow> bool" where
  "is_enforce_mode st = (case ENFORCE_MODE st 0 of Some v \<Rightarrow> v = 1 | None \<Rightarrow> True)"

definition get_f_mode_offset :: "bpf_state \<Rightarrow> u32" where
  "get_f_mode_offset st = (case OFFSETS st 3 of Some v \<Rightarrow> v | None \<Rightarrow> 4)"

text \<open>\<open>EVENTS.reserve\<close> followed by \<open>submit\<close>; without room the event is lost.\<close>

definition emit :: "bool \<Rightarrow> bpf_event \<Rightarrow> bpf_state \<Rightarrow> bpf_state" where
  "emit room ev st = (if room then st\<lparr>EVENTS := EVENTS st @ [ev]\<rparr> else st)"

lemma emit_simps [simp]:
  "MONITORED_PIDS (emit r e st) = MONITORED_PIDS st"
  "PENDING_DNS_QUERY (emit r e st) = PENDING_DNS_QUERY st"
  "DNS_RECV_BUFF (emit r e st) = DNS_RECV_BUFF st"
  "IP_TO_DOMAIN (emit r e st) = IP_TO_DOMAIN st"
  "DNS_FDS (emit r e st) = DNS_FDS st"
  "OFFSETS (emit r e st) = OFFSETS st"
  "ALLOW_READ_PREFIXES (emit r e st) = ALLOW_READ_PREFIXES st"
  "ALLOW_WRITE_PREFIXES (emit r e st) = ALLOW_WRITE_PREFIXES st"
  "DENY_ALWAYS_PREFIXES (emit r e st) = DENY_ALWAYS_PREFIXES st"
  "DENY_SYSCALLS_RULES (emit r e st) = DENY_SYSCALLS_RULES st"
  "ENFORCE_MODE (emit r e st) = ENFORCE_MODE st"
  "EVENTS (emit r e st) = EVENTS st @ (if r then [e] else [])"
  by (simp_all add: emit_def)

end
