(* ===== verification/Ebpf_Path.thy ===== *)
theory Ebpf_Path
  imports Ebpf_State
begin

text \<open>
  The two byte-level tests of the synchronous hooks, \<open>starts_with\<close> and \<open>is_sensitive_path\<close>, and what
  they decide about the C string that the path buffer holds.  The loops run over fixed ranges of
  buffers of 256 and 128 bytes, as the kernel verifier requires.
\<close>

section \<open>Definitions\<close>

text \<open>\<open>for i in 0..128\<close>: \<open>n\<close> rounds are left, \<open>i\<close> is the index.\<close>

fun starts_with_loop :: "nat \<Rightarrow> nat \<Rightarrow> u8 list \<Rightarrow> u8 list \<Rightarrow> bool" where
  "starts_with_loop 0 i path pre = True"
| "starts_with_loop (Suc n) i path pre =
     (let p = pre ! i
      in if p = 0 then True
         else if path ! i \<noteq> p then False
         else starts_with_loop n (i + 1) path pre)"

definition starts_with :: "u8 list \<Rightarrow> u8 list \<Rightarrow> bool" where
  "starts_with path pre = starts_with_loop 128 0 path pre"

definition env_at :: "u8 list \<Rightarrow> nat \<Rightarrow> bool" where
  "env_at path i =
     (if path ! i = byte CHR ''.'' \<and> path ! (i+1) = byte CHR ''e'' \<and> path ! (i+2) = byte CHR ''n''
         \<and> path ! (i+3) = byte CHR ''v''
      then (let is_start = (i = 0 \<or> path ! (i-1) = byte CHR ''/'');
                is_end = (path ! (i+4) = 0 \<or> path ! (i+4) = byte CHR ''/'')
            in is_start \<and> is_end)
      else False)"

definition ssh_at :: "u8 list \<Rightarrow> nat \<Rightarrow> bool" where
  "ssh_at path i =
     (if path ! i = byte CHR ''.'' \<and> path ! (i+1) = byte CHR ''s'' \<and> path ! (i+2) = byte CHR ''s''
         \<and> path ! (i+3) = byte CHR ''h''
      then (let is_start = (i = 0 \<or> path ! (i-1) = byte CHR ''/'');
                is_end = (path ! (i+4) = 0 \<or> path ! (i+4) = byte CHR ''/'')
            in is_start \<and> is_end)
      else False)"

definition id_rsa_at :: "u8 list \<Rightarrow> nat \<Rightarrow> bool" where
  "id_rsa_at path i =
     (if path ! i = byte CHR ''i'' \<and> path ! (i+1) = byte CHR ''d'' \<and> path ! (i+2) = byte CHR ''_''
         \<and> path ! (i+3) = byte CHR ''r'' \<and> path ! (i+4) = byte CHR ''s'' \<and> path ! (i+5) = byte CHR ''a''
      then (let is_start = (i = 0 \<or> path ! (i-1) = byte CHR ''/'');
                is_end = (path ! (i+6) = 0 \<or> path ! (i+6) = byte CHR ''/'')
            in is_start \<and> is_end)
      else False)"

definition pem_at :: "u8 list \<Rightarrow> nat \<Rightarrow> bool" where
  "pem_at path i =
     (if path ! i = byte CHR ''.'' \<and> path ! (i+1) = byte CHR ''p'' \<and> path ! (i+2) = byte CHR ''e''
         \<and> path ! (i+3) = byte CHR ''m''
      then path ! (i+4) = 0
      else False)"

text \<open>\<open>for i in 0..240\<close>, left at the terminating zero.\<close>

fun sensitive_loop :: "nat \<Rightarrow> nat \<Rightarrow> u8 list \<Rightarrow> bool" where
  "sensitive_loop 0 i path = False"
| "sensitive_loop (Suc n) i path =
     (if path ! i = 0 then False
      else if env_at path i then True
      else if ssh_at path i then True
      else if id_rsa_at path i then True
      else if pem_at path i then True
      else sensitive_loop n (i + 1) path)"

definition is_sensitive_path :: "u8 list \<Rightarrow> bool" where
  "is_sensitive_path path = sensitive_loop 240 0 path"

section \<open>Prefix test\<close>

lemma starts_with_loop_prefix:
  "i + n \<le> length pre \<Longrightarrow> i + n \<le> length path \<Longrightarrow>
   starts_with_loop n i path pre \<longleftrightarrow> prefix (c_string (take n (drop i pre))) (drop i path)"
proof (induction n arbitrary: i)
  case 0
  then show ?case by (simp add: c_string_def)
next
  case (Suc n)
  have pre: "drop i pre = pre ! i # drop (Suc i) pre" and path: "drop i path = path ! i # drop (Suc i) path"
    using Suc.prems by (simp_all add: Cons_nth_drop_Suc)
  have ih: "starts_with_loop n (Suc i) path pre \<longleftrightarrow>
      prefix (c_string (take n (drop (Suc i) pre))) (drop (Suc i) path)"
    using Suc.prems by (intro Suc.IH) auto
  have "c_string (take (Suc n) (drop i pre)) =
      (if pre ! i = 0 then [] else pre ! i # c_string (take n (drop (Suc i) pre)))"
    unfolding pre by (simp add: c_string_def)
  then show ?case
    unfolding path using ih by (auto simp: Let_def)
qed

lemma prefix_of_c_string:
  "0 \<notin> set q \<Longrightarrow> prefix q buf \<longleftrightarrow> prefix q (c_string buf)"
proof (induction q arbitrary: buf)
  case Nil
  then show ?case by simp
next
  case (Cons b q)
  then show ?case by (cases buf) (auto simp: c_string_def)
qed

text \<open>\<open>starts_with\<close> compares the two C strings.\<close>

lemma starts_with_c_string:
  assumes "length pre = 128" and "128 \<le> length path"
  shows "starts_with path pre \<longleftrightarrow> prefix (c_string pre) (c_string path)"
proof -
  have "starts_with_loop 128 0 path pre \<longleftrightarrow> prefix (c_string (take 128 (drop 0 pre))) (drop 0 path)"
    using assms by (intro starts_with_loop_prefix) simp_all
  moreover have "take 128 (drop 0 pre) = pre"
    using assms(1) by simp
  ultimately have "starts_with path pre \<longleftrightarrow> prefix (c_string pre) path"
    by (simp only: starts_with_def drop_0)
  then show ?thesis
    using prefix_of_c_string [of "c_string pre" path] by simp
qed

section \<open>Sensitive paths\<close>

text \<open>
  \<open>is_component name p\<close>: \<open>name\<close> stands in \<open>p\<close> as a whole path component.
\<close>

definition is_component :: "string \<Rightarrow> string \<Rightarrow> bool" where
  "is_component name p \<longleftrightarrow>
     (\<exists>a b. p = a @ name @ b \<and> (a = [] \<or> last a = CHR ''/'') \<and> (b = [] \<or> hd b = CHR ''/''))"

definition sensitive :: "string \<Rightarrow> bool" where
  "sensitive p \<longleftrightarrow>
     is_component ''.env'' p \<or> is_component ''.ssh'' p \<or> is_component ''id_rsa'' p \<or> suffix ''.pem'' p"

text \<open>A buffer that holds the C string \<open>p\<close>.\<close>

definition holds_path :: "u8 list \<Rightarrow> string \<Rightarrow> bool" where
  "holds_path buf p \<longleftrightarrow> length p < length buf \<and> c_string buf = as_bytes p"

lemma holds_path_nth: "holds_path buf p \<Longrightarrow> i < length p \<Longrightarrow> buf ! i = byte (p ! i)"
  using c_string_nth [of i buf] by (simp add: holds_path_def)

lemma holds_path_end: "holds_path buf p \<Longrightarrow> buf ! length p = 0"
  using c_string_nth_end [of buf] by (simp add: holds_path_def)

lemma holds_path_no_zero: "holds_path buf p \<Longrightarrow> CHR 0x00 \<notin> set p"
  using zero_not_in_c_string [of buf] by (simp add: holds_path_def)

lemma holds_path_nonzero: "holds_path buf p \<Longrightarrow> i < length p \<Longrightarrow> buf ! i \<noteq> 0"
  using holds_path_no_zero [of buf p] by (auto simp: holds_path_nth in_set_conv_nth)

text \<open>Comparing the bytes at \<open>i\<close> with a name is a prefix test on the rest of the path.\<close>

lemma name_at_prefix:
  assumes "holds_path buf p" and "i \<le> length p" and "CHR 0x00 \<notin> set name"
  shows "(\<forall>j < length name. buf ! (i + j) = byte (name ! j)) \<longleftrightarrow> prefix name (drop i p)"
  using assms(2,3)
proof (induction name arbitrary: i)
  case Nil
  then show ?case by simp
next
  case (Cons c name)
  have split: "(\<forall>j < length (c # name). buf ! (i + j) = byte ((c # name) ! j)) \<longleftrightarrow>
      buf ! i = byte c \<and> (\<forall>j < length name. buf ! (Suc i + j) = byte (name ! j))"
    by (auto simp: less_Suc_eq_0_disj)
  show ?case
  proof (cases "i < length p")
    case True
    then have "drop i p = p ! i # drop (Suc i) p"
      by (simp add: Cons_nth_drop_Suc)
    then show ?thesis
      using True Cons.prems Cons.IH [of "Suc i"] holds_path_nth [OF assms(1) True]
      unfolding split by auto
  next
    case False
    then have "i = length p"
      using Cons.prems by simp
    then have "buf ! i \<noteq> byte c"
      using holds_path_end [OF assms(1)] Cons.prems by (auto simp: eq_commute [of "0::u8"])
    then show ?thesis
      unfolding split using \<open>i = length p\<close> by simp
  qed
qed

text \<open>The shape of the component checks, for any name.\<close>

definition component_at :: "string \<Rightarrow> u8 list \<Rightarrow> nat \<Rightarrow> bool" where
  "component_at name buf i \<longleftrightarrow>
     (\<forall>j < length name. buf ! (i + j) = byte (name ! j)) \<and>
     (i = 0 \<or> buf ! (i - 1) = byte CHR ''/'') \<and>
     (buf ! (i + length name) = 0 \<or> buf ! (i + length name) = byte CHR ''/'')"

lemma name_at_Cons:
  "(\<forall>j < length (c # cs). buf ! (i + j) = byte ((c # cs) ! j)) \<longleftrightarrow>
   buf ! i = byte c \<and> (\<forall>j < length cs. buf ! (Suc i + j) = byte (cs ! j))"
  by (auto simp: less_Suc_eq_0_disj)

lemma checks_component_at:
  "env_at buf i = component_at ''.env'' buf i"
  "ssh_at buf i = component_at ''.ssh'' buf i"
  "id_rsa_at buf i = component_at ''id_rsa'' buf i"
  "pem_at buf i \<longleftrightarrow> (\<forall>j < length ''.pem''. buf ! (i + j) = byte (''.pem'' ! j)) \<and> buf ! (i + 4) = 0"
  unfolding env_at_def ssh_at_def id_rsa_at_def pem_at_def component_at_def name_at_Cons Let_def
  by (auto simp: eval_nat_numeral simp del: byte_inject of_char_Char)

lemma component_at_holds:
  assumes "holds_path buf p" and "i < length p" and "name \<noteq> []" and "CHR 0x00 \<notin> set name"
  shows "component_at name buf i \<longleftrightarrow>
     prefix name (drop i p) \<and> (i = 0 \<or> p ! (i - 1) = CHR ''/'') \<and>
     (i + length name = length p \<or> p ! (i + length name) = CHR ''/'')"
proof -
  have name: "(\<forall>j < length name. buf ! (i + j) = byte (name ! j)) \<longleftrightarrow> prefix name (drop i p)"
    using assms by (intro name_at_prefix) auto
  have start: "buf ! (i - 1) = byte CHR ''/'' \<longleftrightarrow> p ! (i - 1) = CHR ''/''" if "i \<noteq> 0"
    using holds_path_nth [OF assms(1), of "i - 1"] assms(2) that by (simp del: of_char_Char)
  have stop: "(buf ! (i + length name) = 0 \<or> buf ! (i + length name) = byte CHR ''/'') \<longleftrightarrow>
      i + length name = length p \<or> p ! (i + length name) = CHR ''/''"
    if "prefix name (drop i p)"
  proof -
    have "i + length name \<le> length p"
      using prefix_length_le [OF that] assms(2) by simp
    then consider "i + length name = length p" | "i + length name < length p"
      by linarith
    then show ?thesis
      using holds_path_end [OF assms(1)] holds_path_nth [OF assms(1)] holds_path_nonzero [OF assms(1)]
      by cases (simp_all del: byte_eq_0 of_char_Char)
  qed
  show ?thesis
    unfolding component_at_def name using start stop by blast
qed

lemma is_component_nth:
  assumes "name \<noteq> []"
  shows "is_component name p \<longleftrightarrow>
     (\<exists>i < length p. prefix name (drop i p) \<and> (i = 0 \<or> p ! (i - 1) = CHR ''/'') \<and>
        (i + length name = length p \<or> p ! (i + length name) = CHR ''/''))"
proof
  assume "is_component name p"
  then obtain a b where p: "p = a @ name @ b" and a: "a = [] \<or> last a = CHR ''/''"
    and b: "b = [] \<or> hd b = CHR ''/''"
    by (auto simp: is_component_def)
  have "length a = 0 \<or> p ! (length a - 1) = CHR ''/''"
    using a by (cases a rule: rev_cases) (auto simp: p nth_append)
  moreover have "length a + length name = length p \<or> p ! (length a + length name) = CHR ''/''"
    using b by (cases b) (auto simp: p nth_append)
  ultimately show "\<exists>i < length p. prefix name (drop i p) \<and> (i = 0 \<or> p ! (i - 1) = CHR ''/'') \<and>
        (i + length name = length p \<or> p ! (i + length name) = CHR ''/'')"
    using assms by (intro exI [of _ "length a"]) (auto simp: p)
next
  assume "\<exists>i < length p. prefix name (drop i p) \<and> (i = 0 \<or> p ! (i - 1) = CHR ''/'') \<and>
        (i + length name = length p \<or> p ! (i + length name) = CHR ''/'')"
  then obtain i b where i: "i < length p" "i = 0 \<or> p ! (i - 1) = CHR ''/''"
    and e: "i + length name = length p \<or> p ! (i + length name) = CHR ''/''"
    and b: "drop i p = name @ b"
    by (auto simp: prefix_def)
  have p: "p = take i p @ name @ b"
    using append_take_drop_id [of i p] by (simp add: b)
  have len: "length p = i + length name + length b"
    using i(1) arg_cong [OF b, where f = length] by simp
  have "last (take i p) = p ! (i - 1)" if "i \<noteq> 0"
    using i(1) that by (subst last_conv_nth) auto
  then have "take i p = [] \<or> last (take i p) = CHR ''/''"
    using i(2) by auto
  moreover have "b = [] \<or> hd b = CHR ''/''"
  proof (cases b)
    case (Cons c cs)
    then have "p ! (i + length name) = c"
      using i(1) by (subst p) (simp add: nth_append)
    then show ?thesis
      using e len Cons by simp
  qed simp
  ultimately show "is_component name p"
    unfolding is_component_def using p by blast
qed

definition component_in :: "string \<Rightarrow> string \<Rightarrow> bool" where
  "component_in name p =
     list_ex (\<lambda>i. prefix name (drop i p) \<and> (i = 0 \<or> p ! (i - 1) = CHR ''/'') \<and>
        (i + length name = length p \<or> p ! (i + length name) = CHR ''/'')) [0..<length p]"

lemma component_in_iff: "name \<noteq> [] \<Longrightarrow> is_component name p \<longleftrightarrow> component_in name p"
  unfolding is_component_nth component_in_def list_ex_iff Bex_def atLeast_upt [symmetric] lessThan_atLeast0 [symmetric]
  by simp

lemma sensitive_code [code]:
  "sensitive p \<longleftrightarrow> component_in ''.env'' p \<or> component_in ''.ssh'' p \<or> component_in ''id_rsa'' p \<or>
     suffix ''.pem'' p"
  by (simp add: sensitive_def component_in_iff)

lemma component_at_ex:
  assumes "holds_path buf p" and "name \<noteq> []" and "CHR 0x00 \<notin> set name"
  shows "(\<exists>i < length p. component_at name buf i) \<longleftrightarrow> is_component name p"
  using component_at_holds [OF assms(1) _ assms(2,3)] is_component_nth [OF assms(2)] by auto

lemma suffix_drop_ex:
  "t \<noteq> [] \<Longrightarrow> (\<exists>i < length p. drop i p = t) \<longleftrightarrow> suffix t p"
proof
  assume "\<exists>i < length p. drop i p = t"
  then show "suffix t p"
    using suffix_drop by blast
next
  assume "t \<noteq> []" and "suffix t p"
  then obtain a where "p = a @ t"
    by (auto simp: suffix_def)
  then show "\<exists>i < length p. drop i p = t"
    using \<open>t \<noteq> []\<close> by (intro exI [of _ "length a"]) simp
qed

lemma name_at_end:
  assumes "holds_path buf p" and "i < length p" and "CHR 0x00 \<notin> set name"
  shows "(\<forall>j < length name. buf ! (i + j) = byte (name ! j)) \<and> buf ! (i + length name) = 0 \<longleftrightarrow>
     drop i p = name"
proof -
  have "(\<forall>j < length name. buf ! (i + j) = byte (name ! j)) \<longleftrightarrow> prefix name (drop i p)"
    using assms by (intro name_at_prefix) auto
  moreover have "buf ! (i + length name) = 0 \<longleftrightarrow> drop i p = name" if pre: "prefix name (drop i p)"
  proof -
    obtain r where r: "drop i p = name @ r"
      using pre by (auto simp: prefix_def)
    then have "length p - i = length name + length r"
      by (metis length_append length_drop)
    then have len: "length p = i + length name + length r"
      using assms(2) by linarith
    show ?thesis
    proof (cases r)
      case Nil
      then show ?thesis
        using r len holds_path_end [OF assms(1)] by simp
    next
      case (Cons c cs)
      then have "buf ! (i + length name) \<noteq> 0"
        using len by (intro holds_path_nonzero [OF assms(1)]) simp
      then show ?thesis
        using r Cons by simp
    qed
  qed
  moreover have "prefix name (drop i p)" if "drop i p = name"
    using that by simp
  ultimately show ?thesis by blast
qed

lemma pem_at_ex:
  assumes "holds_path buf p"
  shows "(\<exists>i < length p. pem_at buf i) \<longleftrightarrow> suffix ''.pem'' p"
proof -
  have "pem_at buf i \<longleftrightarrow> drop i p = ''.pem''" if "i < length p" for i
    using name_at_end [OF assms that, of "''.pem''"] unfolding checks_component_at(4)
    by (simp add: eval_nat_numeral)
  then show ?thesis
    using suffix_drop_ex [of "''.pem''" p] by auto
qed

definition hit_at :: "u8 list \<Rightarrow> nat \<Rightarrow> bool" where
  "hit_at buf i \<longleftrightarrow> env_at buf i \<or> ssh_at buf i \<or> id_rsa_at buf i \<or> pem_at buf i"

lemma sensitive_loop_hit:
  assumes "holds_path buf p"
  shows "i \<le> length p \<Longrightarrow>
    sensitive_loop n i buf \<longleftrightarrow> (\<exists>k. i \<le> k \<and> k < i + n \<and> k < length p \<and> hit_at buf k)"
proof (induction n arbitrary: i)
  case 0
  then show ?case by simp
next
  case (Suc n)
  show ?case
  proof (cases "i = length p")
    case True
    then show ?thesis
      using holds_path_end [OF assms] by auto
  next
    case False
    with Suc.prems have i: "i < length p" by simp
    then have ih: "sensitive_loop n (Suc i) buf \<longleftrightarrow>
        (\<exists>k. Suc i \<le> k \<and> k < Suc i + n \<and> k < length p \<and> hit_at buf k)"
      by (intro Suc.IH) simp
    have "(\<exists>k. i \<le> k \<and> k < i + Suc n \<and> k < length p \<and> hit_at buf k) \<longleftrightarrow>
        hit_at buf i \<or> (\<exists>k. Suc i \<le> k \<and> k < Suc i + n \<and> k < length p \<and> hit_at buf k)"
      using i by (metis Suc_le_eq add_Suc add_Suc_right le_add1 le_eq_less_or_eq le_imp_less_Suc)
    then show ?thesis
      using holds_path_nonzero [OF assms i] ih by (simp add: hit_at_def)
  qed
qed

lemma is_sensitive_path_correct_iff:
  assumes "holds_path buf p" and "length p \<le> 240"
  shows "is_sensitive_path buf \<longleftrightarrow> sensitive p"
proof -
  have "is_sensitive_path buf \<longleftrightarrow> (\<exists>k < length p. hit_at buf k)"
    using sensitive_loop_hit [OF assms(1), of 0 240] assms(2)
    by (auto simp: is_sensitive_path_def)
  also have "\<dots> \<longleftrightarrow> sensitive p"
    using component_at_ex [OF assms(1)] pem_at_ex [OF assms(1)]
    unfolding hit_at_def sensitive_def checks_component_at(1-3) by (simp add: ex_disj_distrib conj_disj_distribL)
  finally show ?thesis .
qed

text \<open>
  C32. For a path of at most 240 bytes the scan of the kernel hook finds exactly the paths with a
  component \<open>.env\<close>, \<open>.ssh\<close> or \<open>id_rsa\<close> and those that end in \<open>.pem\<close>.
\<close>

theorem is_sensitive_path_correct:
  assumes "holds_path buf p" and "length p \<le> 240"
  shows "is_sensitive_path buf \<longleftrightarrow> sensitive p"
  using assms by (rule is_sensitive_path_correct_iff)

end
