(* ===== verification/Ebpf_Lsm.thy ===== *)
theory Ebpf_Lsm
  imports Ebpf_Path Access
begin

text \<open>
  The two LSM hooks of the synchronous mode, \<open>lsm_file_open\<close> and \<open>lsm_exec_check\<close>.  A hook returns
  its verdict (0 lets the operation go on, \<open>-13\<close> is \<open>-EACCES\<close>), the signal it sends to the current
  task, if any, and the new contents of the maps.
\<close>

section \<open>Definitions\<close>

text \<open>What the kernel gives a hook.\<close>

record lsm_ctx =
  lc_pid_tgid :: u64                             \<comment> \<open>\<open>bpf_get_current_pid_tgid()\<close>\<close>
  lc_arg0_null :: bool                           \<comment> \<open>the hook's argument is a null pointer\<close>
  lc_file_null :: bool                           \<comment> \<open>\<open>(*bprm).file\<close> is a null pointer\<close>
  lc_scratch :: bool                             \<comment> \<open>\<open>SCRATCH_PATH.get_ptr_mut(0)\<close> gives a slot\<close>
  lc_d_path :: "u8 list \<Rightarrow> int \<times> u8 list"       \<comment> \<open>\<open>bpf_d_path\<close>: result and buffer afterwards\<close>
  lc_read_kernel :: "u32 \<Rightarrow> u32 option"         \<comment> \<open>\<open>bpf_probe_read_kernel\<close> at an offset of the file\<close>
  lc_room :: bool                                \<comment> \<open>\<open>EVENTS.reserve\<close> succeeds\<close>

record lsm_out =
  verdict :: int
  signal :: "int option"
  after :: bpf_state

definition EACCES :: int where
  "EACCES = 13"

definition report_fs_event :: "bool \<Rightarrow> u32 \<Rightarrow> bool \<Rightarrow> u8 list \<Rightarrow> bpf_state \<Rightarrow> bpf_state" where
  "report_fs_event room pid is_write buf st =
     emit room
       \<lparr>ev_pid = pid,
        ev_type = (if is_write then EVENT_TYPE_WRITE else EVENT_TYPE_READ),
        ev_resolved = 0,
        ev_target = map (\<lambda>i. buf ! i) [0..<256]\<rparr> st"

definition report_exec_event :: "bool \<Rightarrow> u32 \<Rightarrow> u8 list \<Rightarrow> bpf_state \<Rightarrow> bpf_state" where
  "report_exec_event room pid buf st =
     emit room
       \<lparr>ev_pid = pid, ev_type = EVENT_TYPE_EXEC, ev_resolved = 0,
        ev_target = map (\<lambda>i. buf ! i) [0..<256]\<rparr> st"

definition entry_matches :: "u8 list \<Rightarrow> u8 list \<Rightarrow> bool" where
  "entry_matches buf pre = (pre ! 0 \<noteq> 0 \<and> starts_with buf pre)"

text \<open>The common end of a forbidden access: refused in enforce mode, reported in monitor mode.\<close>

definition refuse_fs :: "lsm_ctx \<Rightarrow> u32 \<Rightarrow> bool \<Rightarrow> u8 list \<Rightarrow> bpf_state \<Rightarrow> lsm_out" where
  "refuse_fs ctx pid is_write buf st =
     (if is_enforce_mode st then \<lparr>verdict = - EACCES, signal = None, after = st\<rparr>
      else \<lparr>verdict = 0, signal = None, after = report_fs_event (lc_room ctx) pid is_write buf st\<rparr>)"

definition lsm_file_open :: "lsm_ctx \<Rightarrow> bpf_state \<Rightarrow> lsm_out" where
  "lsm_file_open ctx st =
     (let pid = tgid_of (lc_pid_tgid ctx) in
      if \<not> is_monitored st pid then \<lparr>verdict = 0, signal = None, after = st\<rparr>
      else if lc_arg0_null ctx then \<lparr>verdict = 0, signal = None, after = st\<rparr>
      else if \<not> lc_scratch ctx then \<lparr>verdict = 0, signal = None, after = st\<rparr>
      else
        let (r, buf) = lc_d_path ctx (replicate 256 0);
            st = st\<lparr>SCRATCH_PATH := buf\<rparr>
        in if r < 0 then \<lparr>verdict = - EACCES, signal = None, after = st\<rparr>
           else
             let f_mode = (case lc_read_kernel ctx (get_f_mode_offset st) of Some v \<Rightarrow> v | None \<Rightarrow> 0);
                 is_write = ((f_mode AND 2) \<noteq> 0)
             in if is_sensitive_path buf then refuse_fs ctx pid is_write buf st
                else
                  (case first_entry 16 (DENY_ALWAYS_PREFIXES st) (entry_matches buf) of
                     Some _ \<Rightarrow> refuse_fs ctx pid is_write buf st
                   | None \<Rightarrow>
                       (case first_entry 16
                               (if is_write then ALLOW_WRITE_PREFIXES st else ALLOW_READ_PREFIXES st)
                               (entry_matches buf) of
                          Some _ \<Rightarrow> \<lparr>verdict = 0, signal = None, after = st\<rparr>
                        | None \<Rightarrow> refuse_fs ctx pid is_write buf st)))"

text \<open>The rest of the pattern after \<open>execve:\<close>: 120 bytes are copied into a zeroed array of 128.\<close>

definition pattern_offset :: "u8 list \<Rightarrow> u8 list" where
  "pattern_offset pat = map (\<lambda>j. if j < 120 then pat ! (j + 7) else 0) [0..<128]"

definition exec_rule_matches :: "u8 list \<Rightarrow> bpf_syscall_rule \<Rightarrow> bool" where
  "exec_rule_matches buf rule =
     (let pat = rule_pattern rule in
      if pat ! 0 \<noteq> 0 then
        (if pat ! 0 = byte CHR ''e'' \<and> pat ! 1 = byte CHR ''x'' \<and> pat ! 2 = byte CHR ''e''
            \<and> pat ! 3 = byte CHR ''c'' \<and> pat ! 4 = byte CHR ''v'' \<and> pat ! 5 = byte CHR ''e''
            \<and> pat ! 6 = byte CHR '':''
         then starts_with buf (pattern_offset pat)
         else False)
      else False)"

definition lsm_exec_check :: "lsm_ctx \<Rightarrow> bpf_state \<Rightarrow> lsm_out" where
  "lsm_exec_check ctx st =
     (let pid = tgid_of (lc_pid_tgid ctx) in
      if \<not> is_monitored st pid then \<lparr>verdict = 0, signal = None, after = st\<rparr>
      else if lc_arg0_null ctx then \<lparr>verdict = 0, signal = None, after = st\<rparr>
      else if lc_file_null ctx then \<lparr>verdict = 0, signal = None, after = st\<rparr>
      else if \<not> lc_scratch ctx then \<lparr>verdict = 0, signal = None, after = st\<rparr>
      else
        let (r, buf) = lc_d_path ctx (replicate 256 0);
            st = st\<lparr>SCRATCH_PATH := buf\<rparr>
        in if r < 0 then \<lparr>verdict = - EACCES, signal = None, after = st\<rparr>
           else
             (case first_entry 16 (DENY_SYSCALLS_RULES st) (exec_rule_matches buf) of
                None \<Rightarrow> \<lparr>verdict = 0, signal = None, after = st\<rparr>
              | Some rule \<Rightarrow>
                  if is_enforce_mode st
                  then \<lparr>verdict = - EACCES,
                        signal = (if rule_kill_on_deny rule = 1 then Some 9 else None),
                        after = st\<rparr>
                  else \<lparr>verdict = 0, signal = None,
                        after = report_exec_event (lc_room ctx) pid buf st\<rparr>))"

section \<open>The file hook as an access control\<close>

text \<open>The object of the decision: the maps and the path buffer.\<close>

definition hook_denied :: "bpf_state \<times> u8 list \<Rightarrow> bool" where
  "hook_denied = (\<lambda>(st, buf). is_sensitive_path buf \<or>
     first_entry 16 (DENY_ALWAYS_PREFIXES st) (entry_matches buf) \<noteq> None)"

definition hook_listed :: "bool \<Rightarrow> bpf_state \<times> u8 list \<Rightarrow> bool" where
  "hook_listed w = (\<lambda>(st, buf).
     first_entry 16 (if w then ALLOW_WRITE_PREFIXES st else ALLOW_READ_PREFIXES st)
       (entry_matches buf) \<noteq> None)"

text \<open>
  \<open>hook_run ctx st buf\<close>: the task is monitored and the hook gets the path in \<open>buf\<close>; \<open>opens_for_write\<close>
  is the access kind it reads from \<open>f_mode\<close>.
\<close>

definition hook_run :: "lsm_ctx \<Rightarrow> bpf_state \<Rightarrow> u8 list \<Rightarrow> bool" where
  "hook_run ctx st buf \<longleftrightarrow>
     is_monitored st (tgid_of (lc_pid_tgid ctx)) \<and> \<not> lc_arg0_null ctx \<and> lc_scratch ctx \<and>
     (\<exists>r \<ge> 0. lc_d_path ctx (replicate 256 0) = (r, buf))"

definition opens_for_write :: "lsm_ctx \<Rightarrow> bpf_state \<Rightarrow> bool" where
  "opens_for_write ctx st \<longleftrightarrow>
     ((case lc_read_kernel ctx (get_f_mode_offset st) of Some v \<Rightarrow> v | None \<Rightarrow> 0) AND 2) \<noteq> 0"

definition hook_permits :: "bpf_state \<times> u8 list \<Rightarrow> bool \<Rightarrow> bool" where
  "hook_permits = (\<lambda>(st, buf) w.
     if is_sensitive_path buf then False
     else (case first_entry 16 (DENY_ALWAYS_PREFIXES st) (entry_matches buf) of
             Some _ \<Rightarrow> False
           | None \<Rightarrow>
               first_entry 16 (if w then ALLOW_WRITE_PREFIXES st else ALLOW_READ_PREFIXES st)
                 (entry_matches buf) \<noteq> None))"

interpretation hook_access: access_control hook_denied hook_listed hook_permits
  by unfold_locales (auto simp: hook_denied_def hook_listed_def hook_permits_def split: option.splits)

lemma scratch_frame [simp]:
  "is_monitored (st\<lparr>SCRATCH_PATH := b\<rparr>) pid = is_monitored st pid"
  "is_enforce_mode (st\<lparr>SCRATCH_PATH := b\<rparr>) = is_enforce_mode st"
  "get_f_mode_offset (st\<lparr>SCRATCH_PATH := b\<rparr>) = get_f_mode_offset st"
  by (simp_all add: is_monitored_def is_enforce_mode_def get_f_mode_offset_def)

text \<open>The hook's outcome is a function of the decision and of the mode.\<close>

lemma lsm_file_open_run:
  assumes "hook_run ctx st buf"
  shows "lsm_file_open ctx st =
     (if hook_permits (st, buf) (opens_for_write ctx st)
      then \<lparr>verdict = 0, signal = None, after = st\<lparr>SCRATCH_PATH := buf\<rparr>\<rparr>
      else refuse_fs ctx (tgid_of (lc_pid_tgid ctx)) (opens_for_write ctx st) buf (st\<lparr>SCRATCH_PATH := buf\<rparr>))"
proof -
  obtain r where "r \<ge> 0" "lc_d_path ctx (replicate 256 0) = (r, buf)"
    using assms by (auto simp: hook_run_def)
  then show ?thesis
    using assms by (auto simp: hook_run_def lsm_file_open_def hook_permits_def opens_for_write_def
        Let_def split: option.splits)
qed

text \<open>
  What a table covers, in terms of paths: one of its sixteen keys holds a C string that is not empty and that
  the path begins with.  The values of the maps are arrays of 128 bytes.
\<close>

definition covered_by :: "(u32 \<rightharpoonup> u8 list) \<Rightarrow> string \<Rightarrow> bool" where
  "covered_by m p \<longleftrightarrow>
     (\<exists>i < 16. \<exists>e. m (of_nat i) = Some e \<and> c_string e \<noteq> [] \<and> prefix (c_string e) (as_bytes p))"

definition entries_128 :: "(u32 \<rightharpoonup> u8 list) \<Rightarrow> bool" where
  "entries_128 m \<longleftrightarrow> (\<forall>e \<in> ran m. length e = 128)"

lemma entry_matches_c_string:
  assumes "length e = 128" and "holds_path buf p" "length buf = 256"
  shows "entry_matches buf e \<longleftrightarrow> c_string e \<noteq> [] \<and> prefix (c_string e) (as_bytes p)"
proof -
  have "e ! 0 \<noteq> 0 \<longleftrightarrow> c_string e \<noteq> []"
    using assms(1) by (cases e) (simp_all add: c_string_def)
  then show ?thesis
    using assms by (simp add: entry_matches_def starts_with_c_string holds_path_def)
qed

lemma first_entry_covered:
  assumes "entries_128 m" and "holds_path buf p" "length buf = 256"
  shows "first_entry 16 m (entry_matches buf) \<noteq> None \<longleftrightarrow> covered_by m p"
proof -
  have "first_entry 16 m (entry_matches buf) \<noteq> None \<longleftrightarrow> (\<exists>i < 16. \<exists>e. m (of_nat i) = Some e \<and> entry_matches buf e)"
    unfolding first_entry_def not_None_eq find_is_Some by (force simp: List.map_filter_def)
  also have "\<dots> \<longleftrightarrow> covered_by m p"
    using assms(1) entry_matches_c_string [OF _ assms(2,3)] by (auto simp: covered_by_def entries_128_def ran_def)
  finally show ?thesis .
qed

text \<open>
  C12. In enforce mode the open of a monitored task passes \<open>lsm_file_open\<close> exactly when the kernel can
  produce its path, no component of the path is sensitive, no deny prefix begins it and some allow prefix of
  the access kind does.  A prefix is a non-empty C string under one of the sixteen keys of its table.
  Nothing else happens: no signal, no record, and no map but the scratch buffer changes.  (Paths of at
  most 240 bytes, the range of the scan.)
\<close>

theorem lsm_file_open_enforce:
  assumes "is_enforce_mode st" and "is_monitored st (tgid_of (lc_pid_tgid ctx))"
    and "\<not> lc_arg0_null ctx" "lc_scratch ctx" "lc_d_path ctx (replicate 256 0) = (r, buf)"
    and "holds_path buf p" "length buf = 256" "length p \<le> 240"
    and "entries_128 (DENY_ALWAYS_PREFIXES st)" "entries_128 (ALLOW_WRITE_PREFIXES st)"
      "entries_128 (ALLOW_READ_PREFIXES st)"
  shows "(verdict (lsm_file_open ctx st) = 0 \<longleftrightarrow>
            0 \<le> r \<and> \<not> sensitive p \<and> \<not> covered_by (DENY_ALWAYS_PREFIXES st) p \<and>
            covered_by (if opens_for_write ctx st then ALLOW_WRITE_PREFIXES st else ALLOW_READ_PREFIXES st) p) \<and>
         verdict (lsm_file_open ctx st) \<in> {0, - EACCES} \<and>
         signal (lsm_file_open ctx st) = None \<and>
         after (lsm_file_open ctx st) = st\<lparr>SCRATCH_PATH := buf\<rparr>"
proof (cases "0 \<le> r")
  case False
  then show ?thesis
    using assms by (simp add: lsm_file_open_def Let_def EACCES_def)
next
  case True
  then have run: "hook_run ctx st buf"
    using assms(2-5) by (auto simp: hook_run_def)
  have "hook_permits (st, buf) w \<longleftrightarrow> \<not> sensitive p \<and> \<not> covered_by (DENY_ALWAYS_PREFIXES st) p \<and>
      covered_by (if w then ALLOW_WRITE_PREFIXES st else ALLOW_READ_PREFIXES st) p" for w
    using first_entry_covered [OF assms(9,6,7)] first_entry_covered [OF assms(10,6,7)]
      first_entry_covered [OF assms(11,6,7)] is_sensitive_path_correct_iff [OF assms(6,8)]
    by (auto simp: hook_access.decision hook_denied_def hook_listed_def)
  then show ?thesis
    using assms(1) True by (simp add: lsm_file_open_run [OF run] refuse_fs_def EACCES_def)
qed

text \<open>The hook gets as far as asking for the path, and the kernel cannot produce it.\<close>

definition path_lost :: "lsm_ctx \<Rightarrow> bpf_state \<Rightarrow> bool" where
  "path_lost ctx st \<longleftrightarrow> is_monitored st (tgid_of (lc_pid_tgid ctx)) \<and> \<not> lc_arg0_null ctx \<and> lc_scratch ctx \<and>
     fst (lc_d_path ctx (replicate 256 0)) < 0"

text \<open>
  C33. In monitor mode \<open>lsm_file_open\<close> lets every access through whose path the kernel can produce, and it
  reports, with the path and the access kind, exactly those that the same call would refuse in enforce mode,
  as long as the ring buffer has room.  But when \<open>bpf_d_path\<close> fails, the open of a monitored task is refused
  in this mode too, and nothing is reported.
\<close>

theorem lsm_file_open_monitor:
  assumes "\<not> is_enforce_mode st" and "length (snd (lc_d_path ctx (replicate 256 0))) = 256"
  shows "verdict (lsm_file_open ctx st) = (if path_lost ctx st then - EACCES else 0) \<and>
     signal (lsm_file_open ctx st) = None \<and>
     EVENTS (after (lsm_file_open ctx st)) = EVENTS st @
       (if verdict (lsm_file_open ctx (st\<lparr>ENFORCE_MODE := [0 \<mapsto> 1]\<rparr>)) = 0 \<or> path_lost ctx st \<or> \<not> lc_room ctx then []
        else [\<lparr>ev_pid = tgid_of (lc_pid_tgid ctx),
               ev_type = (if opens_for_write ctx st then EVENT_TYPE_WRITE else EVENT_TYPE_READ),
               ev_resolved = 0, ev_target = snd (lc_d_path ctx (replicate 256 0))\<rparr>])"
proof -
  let ?st = "st\<lparr>ENFORCE_MODE := [0 \<mapsto> 1]\<rparr>"
  obtain r buf where path: "lc_d_path ctx (replicate 256 0) = (r, buf)"
    by fastforce
  have enforce: "is_enforce_mode ?st" "is_monitored ?st p = is_monitored st p"
      "opens_for_write ctx ?st = opens_for_write ctx st" "hook_permits (?st, buf) w = hook_permits (st, buf) w" for p w
    by (simp_all add: is_enforce_mode_def is_monitored_def opens_for_write_def get_f_mode_offset_def hook_permits_def
        split: option.split)
  show ?thesis
  proof (cases "hook_run ctx st buf")
    case True
    then have strict: "hook_run ctx ?st buf" and found: "\<not> path_lost ctx st"
      using path by (auto simp: hook_run_def path_lost_def enforce)
    have "map (\<lambda>i. buf ! i) [0..<256] = buf"
      using map_nth [of buf] assms(2) path by simp
    then show ?thesis
      using assms(1) found enforce path
      by (simp add: lsm_file_open_run [OF True] lsm_file_open_run [OF strict] refuse_fs_def report_fs_event_def EACCES_def)
  next
    case False
    then consider (idle) "\<not> is_monitored st (tgid_of (lc_pid_tgid ctx)) \<or> lc_arg0_null ctx \<or> \<not> lc_scratch ctx"
      | (lost) "path_lost ctx st"
      using path by (fastforce simp: hook_run_def path_lost_def)
    then show ?thesis
    proof cases
      case idle
      have "lsm_file_open ctx s = \<lparr>verdict = 0, signal = None, after = s\<rparr>" if "s = st \<or> s = ?st" for s
        using idle that enforce(2) by (auto simp: lsm_file_open_def Let_def)
      then show ?thesis
        using idle by (auto simp: path_lost_def)
    next
      case lost
      then have "lsm_file_open ctx st = \<lparr>verdict = - EACCES, signal = None, after = st\<lparr>SCRATCH_PATH := buf\<rparr>\<rparr>"
        using path by (simp add: lsm_file_open_def path_lost_def Let_def)
      with lost show ?thesis by simp
    qed
  qed
qed

end
