(* ===== verification/Sync_Enforcement.thy ===== *)
theory Sync_Enforcement
  imports Sync_Compiler Ebpf_Lsm
begin

text \<open>
  The synchronous path end to end: the compiled policy is written into the kernel maps (the block
  of \<open>Monitor::new\<close> that follows a successful attachment) and the file hook decides on them.  For
  policies whose globs are directory globs the hook's verdict is the policy's own decision.
\<close>

section \<open>Filling the maps\<close>

fun insert_all :: "nat \<Rightarrow> 'v list \<Rightarrow> (u32 \<rightharpoonup> 'v) \<Rightarrow> (u32 \<rightharpoonup> 'v)" where
  "insert_all i [] m = m"
| "insert_all i (v # vs) m = insert_all (i + 1) vs (map_insert m (of_nat i) v)"

definition mode_val :: "mode \<Rightarrow> u32" where
  "mode_val m = (if m = Enforce then 1 else 0)"

definition bpf_rule :: "u8 list \<times> bool \<Rightarrow> bpf_syscall_rule" where
  "bpf_rule = (\<lambda>(pat, kill). \<lparr>rule_pattern = pat, rule_kill_on_deny = (if kill then 1 else 0)\<rparr>)"

definition populate_maps :: "'re policy \<Rightarrow> sync_compiled_policy \<Rightarrow> bpf_state \<Rightarrow> bpf_state" where
  "populate_maps pol c st =
     st\<lparr>ENFORCE_MODE := map_insert (ENFORCE_MODE st) 0 (mode_val (pol_mode pol)),
        ALLOW_READ_PREFIXES := insert_all 0 (allow_read_prefixes c) (ALLOW_READ_PREFIXES st),
        ALLOW_WRITE_PREFIXES := insert_all 0 (allow_write_prefixes c) (ALLOW_WRITE_PREFIXES st),
        DENY_ALWAYS_PREFIXES := insert_all 0 (deny_always_prefixes c) (DENY_ALWAYS_PREFIXES st),
        DENY_SYSCALLS_RULES :=
          insert_all 0 (map bpf_rule (deny_syscalls_rules c)) (DENY_SYSCALLS_RULES st)\<rparr>"

lemma insert_all_get:
  "i + length vs \<le> 2 ^ 32 \<Longrightarrow>
   insert_all i vs m k =
     (if i \<le> unat k \<and> unat k < i + length vs then Some (vs ! (unat k - i)) else m k)"
proof (induction i vs m rule: insert_all.induct)
  case (1 i m)
  then show ?case by auto
next
  case (2 i v vs m)
  have eq: "k = of_nat i \<longleftrightarrow> unat k = i"
    using "2.prems" by (auto simp: unat_of_nat)
  have "insert_all i (v # vs) m k =
      (if i + 1 \<le> unat k \<and> unat k < i + 1 + length vs then Some (vs ! (unat k - (i + 1)))
       else map_insert m (of_nat i) v k)"
    using "2.IH" "2.prems" by simp
  moreover have "(v # vs) ! (unat k - i) = vs ! (unat k - (i + 1))" if "i + 1 \<le> unat k"
    using that by (simp add: nth_Cons')
  ultimately show ?case
    by (auto simp: map_insert_def eq)
qed

lemma insert_all_table: "length vs \<le> 16 \<Longrightarrow> insert_all 0 vs Map.empty = table_of vs"
  by (rule ext) (simp add: insert_all_get table_of_def)

lemma first_entry_table_ex:
  "length vs \<le> 16 \<Longrightarrow> (\<exists>y. first_entry 16 (table_of vs) P = Some y) \<longleftrightarrow> (\<exists>v \<in> set vs. P v)"
  using first_entry_table [of vs 16 P] find_is_Some [of P vs] by simp

text \<open>The state after loading, over maps that were empty.\<close>

definition fresh_tables :: "bpf_state \<Rightarrow> bool" where
  "fresh_tables st \<longleftrightarrow> ALLOW_READ_PREFIXES st = Map.empty \<and> ALLOW_WRITE_PREFIXES st = Map.empty \<and>
     DENY_ALWAYS_PREFIXES st = Map.empty \<and> DENY_SYSCALLS_RULES st = Map.empty"

lemma populate_tables:
  assumes "fresh_tables st" and "try_compile_for_sync pol = Inr c"
  shows "ALLOW_READ_PREFIXES (populate_maps pol c st) = table_of (allow_read_prefixes c)"
    and "ALLOW_WRITE_PREFIXES (populate_maps pol c st) = table_of (allow_write_prefixes c)"
    and "DENY_ALWAYS_PREFIXES (populate_maps pol c st) = table_of (deny_always_prefixes c)"
    and "DENY_SYSCALLS_RULES (populate_maps pol c st) = table_of (map bpf_rule (deny_syscalls_rules c))"
  using assms by (auto simp: fresh_tables_def populate_maps_def try_compile_Ok insert_all_table)

lemma populate_mode: "is_enforce_mode (populate_maps pol c st) \<longleftrightarrow> pol_mode pol = Enforce"
  by (cases "pol_mode pol") (simp_all add: is_enforce_mode_def populate_maps_def mode_val_def map_insert_def)

section \<open>One entry\<close>

lemma entry_matches_prefix:
  assumes "holds_path buf p" and "length buf = 256"
    and "pre \<noteq> []" and "CHR 0x00 \<notin> set pre" and "length pre \<le> 127"
  shows "entry_matches buf (string_to_bytes_128 pre) \<longleftrightarrow> prefix pre p"
proof -
  have "string_to_bytes_128 pre ! 0 = byte (hd pre)"
    using assms(3) by (cases pre) (simp_all add: string_to_bytes_pad pad_def)
  then have "string_to_bytes_128 pre ! 0 \<noteq> 0"
    using assms(3,4) by (cases pre) auto
  moreover have "starts_with buf (string_to_bytes_128 pre) \<longleftrightarrow> prefix pre p"
    using assms by (simp add: starts_with_c_string string_to_bytes_c_string holds_path_def)
  ultimately show ?thesis
    by (simp add: entry_matches_def)
qed

text \<open>A glob \<open>d/**\<close> whose directory fits the buffer.\<close>

definition sync_dir :: "string \<Rightarrow> bool" where
  "sync_dir pat \<longleftrightarrow> (\<exists>d. pat = d @ ''/**'' \<and> dir_glob d \<and> str_ok d \<and> length d \<le> 126)"

lemma sync_dir_entry:
  assumes "sync_dir pat" and "holds_path buf p" and "length buf = 256" and "newline \<notin> set (chars p)"
  shows "\<exists>b. compile_prefix pat = Inr b \<and> (entry_matches buf b \<longleftrightarrow> glob_covers pat p)"
proof -
  obtain d where d: "pat = d @ ''/**''" "dir_glob d" "str_ok d" "length d \<le> 126"
    using assms(1) by (auto simp: sync_dir_def)
  have "compile_prefix pat = Inr (string_to_bytes_128 (d @ ''/''))"
    using extract_prefix_dir [OF d(2)] by (simp add: compile_prefix_def d(1))
  moreover have "entry_matches buf (string_to_bytes_128 (d @ ''/'')) \<longleftrightarrow> prefix (d @ ''/'') p"
    using dir_glob_free [OF d(2)] d(4) by (intro entry_matches_prefix [OF assms(2,3)]) auto
  moreover have "glob_covers pat p \<longleftrightarrow> prefix (d @ ''/'') p"
    using glob_covers_dir [OF dir_glob_plain [OF d(2)] d(3) assms(4)] by (simp add: d(1))
  ultimately show ?thesis by blast
qed

lemma sync_dir_entries:
  assumes "collect_results compile_prefix pats = Inr bs" and "\<forall>pat \<in> set pats. sync_dir pat"
    and "holds_path buf p" "length buf = 256" "newline \<notin> set (chars p)"
  shows "(\<exists>b \<in> set bs. entry_matches buf b) \<longleftrightarrow> (\<exists>pat \<in> set pats. glob_covers pat p)"
proof -
  have "list_all2 (\<lambda>x y. compile_prefix x = Inr y) pats bs"
    using assms(1) by (simp add: collect_results_Ok)
  then show ?thesis
    using assms(2)
  proof (induction rule: list_all2_induct)
    case (Cons pat pats b bs)
    then have "entry_matches buf b \<longleftrightarrow> glob_covers pat p"
      using sync_dir_entry [OF _ assms(3-5), of pat] by auto
    with Cons show ?case by simp
  qed simp
qed

section \<open>The rules that the hook knows by itself\<close>

lemma covers_tail:
  assumes "glob_accepts (''*'' # ''*'' # p) (chars path)"
  shows "\<exists>w s. path = w @ concat s \<and> glob_accepts p s"
proof -
  obtain w s where "chars path = w @ s" "glob_accepts p s"
    using assms by (auto simp: glob_accepts_any_tail)
  then have "path = concat w @ concat s"
    by (metis concat_append concat_chars)
  then show ?thesis
    using \<open>glob_accepts p s\<close> by blast
qed

lemma ends_with_component:
  "path = w @ ''/'' @ name \<Longrightarrow> is_component name path"
  unfolding is_component_def by (intro exI [of _ "w @ ''/''"] exI [of _ "[]"]) simp

definition native_rules :: "string list" where
  "native_rules = [''**/.env'', ''.env'', ''**/.ssh/**'', ''**/*.pem'']"

text \<open>A glob \<open>**\<close> followed by literal text leaves that text in the path.\<close>

lemma lits_read:
  assumes "CHR ''*'' \<notin> set t" "CHR ''?'' \<notin> set t" "CHR 0x5C \<notin> set t"
    and "glob_accepts (map (\<lambda>c. [c]) t @ p) s"
  shows "\<exists>r. concat s = t @ concat r \<and> glob_accepts p r"
proof -
  have "list_all (\<lambda>c. c \<notin> {''*'', ''?'', backslash}) (map (\<lambda>c. [c]) t)"
    using assms(1-3) by (auto simp: list_all_iff backslash_def)
  from glob_accepts_lits [OF this] assms(4) obtain r where "s = map (\<lambda>c. [c]) t @ r" "glob_accepts p r"
    by blast
  then show ?thesis by auto
qed

lemma covers_lits:
  assumes "CHR ''*'' \<notin> set t" "CHR ''?'' \<notin> set t" "CHR 0x5C \<notin> set t"
    and "glob_accepts (''*'' # ''*'' # map (\<lambda>c. [c]) t @ p) (chars path)"
  shows "\<exists>w r. path = w @ t @ concat r \<and> glob_accepts p r"
proof -
  obtain w s where "path = w @ concat s" "glob_accepts (map (\<lambda>c. [c]) t @ p) s"
    using covers_tail [OF assms(4)] by blast
  then show ?thesis
    using lits_read [OF assms(1-3)] by blast
qed

lemma pem_suffix:
  assumes "glob_covers ''**/*.pem'' path"
  shows "suffix ''.pem'' path"
proof -
  have "glob_accepts (''*'' # ''*'' # map (\<lambda>c. [c]) ''/'' @ ''*'' # map (\<lambda>c. [c]) ''.pem'' @ []) (chars path)"
    using assms by (simp add: utf8_len_def)
  then obtain w r where p: "path = w @ ''/'' @ concat r" and r: "glob_accepts (''*'' # map (\<lambda>c. [c]) ''.pem'' @ []) r"
    using covers_lits [of "''/''" "''*'' # map (\<lambda>c. [c]) ''.pem'' @ []" path] by auto
  from r obtain u v where "r = u @ v" "glob_accepts (map (\<lambda>c. [c]) ''.pem'' @ []) v"
    by (auto simp: node_match_simps glob_nodes_seg simp flip: nodes_match_glob)
  moreover then have "concat v = ''.pem''"
    using lits_read [of "''.pem''" "[]" v] by (auto simp: glob_accepts_Nil)
  ultimately show ?thesis
    using p by (auto simp: suffix_def)
qed

lemma native_rule_sensitive:
  assumes "pat \<in> set native_rules" and "glob_covers pat path"
  shows "sensitive path"
proof -
  consider "pat = ''**/.env''" | "pat = ''.env''" | "pat = ''**/.ssh/**''" | "pat = ''**/*.pem''"
    using assms(1) by (auto simp: native_rules_def)
  then show ?thesis
  proof cases
    case 1
    have "glob_accepts (''*'' # ''*'' # map (\<lambda>c. [c]) ''/.env'' @ []) (chars path)"
      using assms(2) 1 by (simp add: utf8_len_def)
    then obtain w where "path = w @ ''/'' @ ''.env''"
      using covers_lits [of "''/.env''" "[]" path] by (auto simp: glob_accepts_Nil)
    then show ?thesis
      using ends_with_component unfolding sensitive_def by blast
  next
    case 2
    have "path = ''.env''"
      using assms(2) 2 glob_covers_plain [of "''.env''" path]
      by (simp add: plain_def backslash_def utf8_len_def str_ok_ascii)
    moreover have "is_component ''.env'' ''.env''"
      unfolding is_component_def by (intro exI [of _ "[]"]) simp
    ultimately show ?thesis
      by (simp add: sensitive_def)
  next
    case 3
    have "glob_accepts (''*'' # ''*'' # map (\<lambda>c. [c]) ''/.ssh/'' @ [''*'', ''*'']) (chars path)"
      using assms(2) 3 by (simp add: utf8_len_def)
    then obtain w r where "path = w @ ''/.ssh/'' @ concat r"
      using covers_lits [of "''/.ssh/''" "[''*'', ''*'']" path] by auto
    then have "is_component ''.ssh'' path"
      unfolding is_component_def
      by (intro exI [of _ "w @ ''/''"] exI [of _ "''/'' @ concat r"]) simp
    then show ?thesis
      by (simp add: sensitive_def)
  next
    case 4
    then show ?thesis
      using pem_suffix assms(2) by (simp add: sensitive_def)
  qed
qed

section \<open>Agreement of the two paths\<close>

lemma static_native: "pat \<in> set native_rules \<Longrightarrow> is_static_security_rule pat"
proof -
  have "list_all is_static_security_rule native_rules"
    by code_simp
  then show "pat \<in> set native_rules \<Longrightarrow> is_static_security_rule pat"
    by (simp add: list_all_iff)
qed

lemma deny_entries:
  assumes "compile_deny pats = Inr bs"
    and "\<forall>pat \<in> set pats. sync_dir pat \<and> \<not> is_static_security_rule pat \<or> pat \<in> set native_rules"
    and "holds_path buf p" "length buf = 256" "newline \<notin> set (chars p)"
  shows "sensitive p \<or> (\<exists>b \<in> set bs. entry_matches buf b) \<longleftrightarrow>
         sensitive p \<or> (\<exists>pat \<in> set pats. glob_covers pat p)"
proof -
  let ?dirs = "filter (\<lambda>d. \<not> is_static_security_rule d) pats"
  have "(\<exists>b \<in> set bs. entry_matches buf b) \<longleftrightarrow> (\<exists>pat \<in> set ?dirs. glob_covers pat p)"
    by (rule sync_dir_entries [OF _ _ assms(3-5)])
       (use assms(1,2) static_native in \<open>auto simp: compile_deny_Ok\<close>)
  then show ?thesis
    using assms(2) native_rule_sensitive by auto
qed

text \<open>The policy's decision with the built-in rules of the hook on top.\<close>

definition guarded_allowed :: "('re, 'e) regex_api \<Rightarrow> 're policy \<Rightarrow> string \<Rightarrow> bool \<Rightarrow> bool" where
  "guarded_allowed api pol p w \<longleftrightarrow> path_allowed api pol p w \<and> \<not> sensitive p"

interpretation policy_hook: access_agreement
  "\<lambda>p. sensitive p \<or> any_match api (compiled_deny pol) p"
  "\<lambda>w p. any_match api (if w then compiled_allow_write pol else compiled_allow_read pol) p"
  "guarded_allowed api pol"
  hook_denied hook_listed hook_permits
  for api :: "('re, 'e) regex_api" and pol :: "'re policy"
  by unfold_locales (auto simp: guarded_allowed_def policy_access.decision)

lemma hook_permits_policy:
  assumes engine: "regex_engine api"
    and loaded: "from_yaml api yaml text = (Inr pol :: (('y, 'e) policy_error, 're policy) result)"
      "globs_valid pol"
    and compiled: "try_compile_for_sync pol = Inr c" "fresh_tables st"
    and allow: "\<forall>g \<in> set (raw_allow_read pol @ raw_allow_write pol). sync_dir g"
    and deny: "\<forall>g \<in> set (raw_deny_always pol).
                 sync_dir g \<and> \<not> is_static_security_rule g \<or> g \<in> set native_rules"
    and path: "holds_path buf p" "length buf = 256" "length p \<le> 240" "valid_str p"
              "newline \<notin> set (chars p)"
  shows "hook_permits (populate_maps pol c st, buf) w \<longleftrightarrow> path_allowed api pol p w \<and> \<not> sensitive p"
proof -
  let ?st = "populate_maps pol c st"
  note tables = populate_tables [OF compiled(2,1)]
  note ok = compiled(1) [unfolded try_compile_Ok]
  note match = policy_matches [OF engine loaded path(4)]
  have reads: "(\<exists>b \<in> set (allow_read_prefixes c). entry_matches buf b) \<longleftrightarrow>
      (\<exists>g \<in> set (raw_allow_read pol). glob_covers g p)"
    by (rule sync_dir_entries [OF _ _ path(1,2,5)]) (use ok allow in auto)
  have writes: "(\<exists>b \<in> set (allow_write_prefixes c). entry_matches buf b) \<longleftrightarrow>
      (\<exists>g \<in> set (raw_allow_write pol). glob_covers g p)"
    by (rule sync_dir_entries [OF _ _ path(1,2,5)]) (use ok allow in auto)
  have denies: "sensitive p \<or> (\<exists>b \<in> set (deny_always_prefixes c). entry_matches buf b) \<longleftrightarrow>
      sensitive p \<or> (\<exists>g \<in> set (raw_deny_always pol). glob_covers g p)"
    by (rule deny_entries [OF _ _ path(1,2,5)]) (use ok deny in auto)
  have "guarded_allowed api pol p w = hook_permits (?st, buf) w"
  proof (rule policy_hook.agree)
    show "(sensitive p \<or> any_match api (compiled_deny pol) p) = hook_denied (?st, buf)"
      using denies ok
      by (simp add: hook_denied_def tables first_entry_table_ex match is_sensitive_path_correct_iff [OF path(1,3)])
    show "any_match api (if w then compiled_allow_write pol else compiled_allow_read pol) p =
        hook_listed w (?st, buf)"
      using reads writes ok by (simp add: hook_listed_def tables first_entry_table_ex match)
  qed
  then show ?thesis
    by (simp add: guarded_allowed_def)
qed

text \<open>
  C13. The two enforcement paths agree.  Take a policy whose allow globs are directory globs \<open>d/**\<close>
  and whose deny globs are directory globs or the rules \<open>**/.env\<close>, \<open>.env\<close>, \<open>**/.ssh/**\<close> and
  \<open>**/*.pem\<close>; it compiles for the synchronous mode and is loaded into fresh kernel maps.  Then
  \<open>lsm_file_open\<close> in enforce mode lets a path of at most 240 bytes without a line feed through
  exactly when \<open>path_allowed\<close> does and the path is not one that the hook always protects.
\<close>

theorem sync_agrees_with_policy:
  assumes engine: "regex_engine api"
    and loaded: "from_yaml api yaml text = Inr pol" "globs_valid pol" "pol_mode pol = Enforce"
    and compiled: "try_compile_for_sync pol = Inr c" "fresh_tables st"
    and allow: "\<forall>g \<in> set (raw_allow_read pol @ raw_allow_write pol). sync_dir g"
    and deny: "\<forall>g \<in> set (raw_deny_always pol).
                 sync_dir g \<and> \<not> is_static_security_rule g \<or> g \<in> set native_rules"
    and run: "hook_run ctx (populate_maps pol c st) buf"
    and path: "holds_path buf p" "length buf = 256" "length p \<le> 240" "valid_str p"
              "newline \<notin> set (chars p)"
  shows "verdict (lsm_file_open ctx (populate_maps pol c st)) = 0 \<longleftrightarrow>
     path_allowed api pol p (opens_for_write ctx (populate_maps pol c st)) \<and> \<not> sensitive p"
  using populate_mode [of pol c st] loaded(3)
    hook_permits_policy [OF engine loaded(1,2) compiled allow deny path,
      where w = "opens_for_write ctx (populate_maps pol c st)"]
  by (simp add: lsm_file_open_run [OF run] refuse_fs_def EACCES_def)

end
