(* ===== verification/Logging.thy ===== *)
theory Logging
  imports Utf8
begin

text \<open>
  \<open>logging.rs\<close>: the entries of the log and where they go.  The JSON writer (\<open>serde_json\<close>) and the
  clock are parameters; the state is what has been printed and, once \<open>set_file_output\<close> has
  succeeded, what has been appended to the log file.
\<close>

record log_entry =
  le_timestamp :: string
  le_level :: string
  le_component :: string
  le_message :: string
  le_pid :: "u32 option"
  le_event_type :: "string option"
  le_target :: "string option"
  le_action :: "string option"

record log_state =
  printed :: "string list"
  log_file :: "string list option"

text \<open>
  The object that the derived \<open>Serialize\<close> gives to the writer: the fields in the order of the structure,
  the optional ones (\<open>skip_serializing_if\<close>) only when they are there.
\<close>

datatype json_value = JText string | JNumber u32

type_synonym json_object = "(string \<times> json_value) list"

type_synonym json_writer = "json_object \<Rightarrow> string option"

definition present :: "string \<Rightarrow> ('a \<Rightarrow> json_value) \<Rightarrow> 'a option \<Rightarrow> json_object" where
  "present name f v = (case v of None \<Rightarrow> [] | Some a \<Rightarrow> [(name, f a)])"

definition entry_fields :: "log_entry \<Rightarrow> json_object" where
  "entry_fields e =
     [(''timestamp'', JText (le_timestamp e)), (''level'', JText (le_level e)),
      (''component'', JText (le_component e)), (''message'', JText (le_message e))] @
     present ''pid'' JNumber (le_pid e) @ present ''event_type'' JText (le_event_type e) @
     present ''target'' JText (le_target e) @ present ''action'' JText (le_action e)"

text \<open>The text used when the JSON writer fails.\<close>

definition log_fallback :: "log_entry \<Rightarrow> string" where
  "log_fallback e =
     ''{\"timestamp\":\"'' @ le_timestamp e @ ''\",\"level\":\"'' @ le_level e @
     ''\",\"component\":\"'' @ le_component e @ ''\",\"message\":\"'' @ le_message e @ ''\"}''"

definition log_line :: "json_writer \<Rightarrow> log_entry \<Rightarrow> string" where
  "log_line json e = (case json (entry_fields e) of Some s \<Rightarrow> s | None \<Rightarrow> log_fallback e)"

definition log :: "json_writer \<Rightarrow> log_entry \<Rightarrow> log_state \<Rightarrow> log_state" where
  "log json e st =
     (let json_str = log_line json e;
          st = st\<lparr>printed := printed st @ [json_str]\<rparr>
      in (case log_file st of
            None \<Rightarrow> st
          | Some ls \<Rightarrow> st\<lparr>log_file := Some (ls @ [json_str])\<rparr>))"

text \<open>\<open>opened\<close> is the result of opening the file for appending: its present lines, or an error.\<close>

definition set_file_output ::
    "(io_error, string list) result \<Rightarrow> log_state \<Rightarrow> (io_error, unit) result \<times> log_state" where
  "set_file_output opened st =
     (case opened of
        Inl e \<Rightarrow> (Err e, st)
      | Inr ls \<Rightarrow> (Ok (), st\<lparr>log_file := Some ls\<rparr>))"

text \<open>
  \<open>get_timestamp\<close>: what \<open>strftime\<close> left in its buffer (nothing when it returned 0), or else the seconds
  since the epoch when the system clock has them.
\<close>

definition get_timestamp :: "u8 list \<Rightarrow> nat option \<Rightarrow> string" where
  "get_timestamp written since_epoch =
     (let fallback = (case since_epoch of Some secs \<Rightarrow> show_nat secs @ ''s'' | None \<Rightarrow> ''0s'')
      in if length written > 0 then
           (case from_utf8 written of Some s \<Rightarrow> s | None \<Rightarrow> fallback)
         else fallback)"

definition plain_entry :: "string \<Rightarrow> string \<Rightarrow> string \<Rightarrow> string \<Rightarrow> log_entry" where
  "plain_entry ts level component message =
     \<lparr>le_timestamp = ts, le_level = level, le_component = component, le_message = message,
      le_pid = None, le_event_type = None, le_target = None, le_action = None\<rparr>"

definition log_info ::
    "json_writer \<Rightarrow> string \<Rightarrow> string \<Rightarrow> string \<Rightarrow> log_state \<Rightarrow> log_state" where
  "log_info json ts component message = log json (plain_entry ts ''info'' component message)"

definition log_fatal ::
    "json_writer \<Rightarrow> string \<Rightarrow> string \<Rightarrow> string \<Rightarrow> log_state \<Rightarrow> log_state" where
  "log_fatal json ts component message = log json (plain_entry ts ''fatal'' component message)"

text \<open>
  The arguments of a call of \<open>log\<close> without the time stamp, which every caller takes from
  \<open>get_timestamp\<close> at that moment.  The other components list the calls they make.
\<close>

record log_call =
  call_level :: string
  call_component :: string
  call_message :: string
  call_pid :: "u32 option"
  call_event_type :: "string option"
  call_target :: "string option"
  call_action :: "string option"

definition stamp :: "string \<Rightarrow> log_call \<Rightarrow> log_entry" where
  "stamp ts c =
     \<lparr>le_timestamp = ts, le_level = call_level c, le_component = call_component c,
      le_message = call_message c, le_pid = call_pid c, le_event_type = call_event_type c,
      le_target = call_target c, le_action = call_action c\<rparr>"

definition plain_call :: "string \<Rightarrow> string \<Rightarrow> u32 option \<Rightarrow> string \<Rightarrow> log_call" where
  "plain_call level component pid message =
     \<lparr>call_level = level, call_component = component, call_message = message, call_pid = pid,
      call_event_type = None, call_target = None, call_action = None\<rparr>"

abbreviation info_call :: "string \<Rightarrow> string \<Rightarrow> log_call" where
  "info_call component \<equiv> plain_call ''info'' component None"

abbreviation fatal_call :: "string \<Rightarrow> string \<Rightarrow> log_call" where
  "fatal_call component \<equiv> plain_call ''fatal'' component None"

lemma log_info_call: "log_info json ts c m = log json (stamp ts (info_call c m))"
  and log_fatal_call: "log_fatal json ts c m = log json (stamp ts (fatal_call c m))"
  by (simp_all add: log_info_def log_fatal_def plain_entry_def stamp_def plain_call_def)

text \<open>A fallible computation together with the calls of \<open>log\<close> that it made.\<close>

type_synonym ('e, 'a) logged_result = "log_call list \<times> ('e, 'a) result"

definition and_log ::
    "('e, 'a) logged_result \<Rightarrow> ('a \<Rightarrow> ('e, 'b) logged_result) \<Rightarrow> ('e, 'b) logged_result" where
  "and_log r f =
     (case snd r of
        Inl e \<Rightarrow> (fst r, Err e)
      | Inr a \<Rightarrow> (fst r @ fst (f a), snd (f a)))"

definition quiet :: "('e, 'a) result \<Rightarrow> ('e, 'a) logged_result" where
  "quiet r = ([], r)"

definition saying :: "log_call list \<Rightarrow> 'a \<Rightarrow> ('e, 'a) logged_result" where
  "saying l a = (l, Ok a)"

lemma and_log_simps [simp]:
  "snd (and_log r f) = and_then (snd r) (\<lambda>a. snd (f a))"
  "and_log (quiet (Inr a)) f = f a"
  "snd (quiet q) = q" "fst (quiet q) = []"
  "snd (saying l a) = Inr a" "fst (saying l a) = l"
  by (simp_all add: and_log_def and_then_def quiet_def saying_def split: sum.split)

lemma fst_and_log: "fst (and_log r f) = fst r @ (case snd r of Inl e \<Rightarrow> [] | Inr a \<Rightarrow> fst (f a))"
  by (simp add: and_log_def split: sum.split)

text \<open>A sequence of entries.\<close>

lemma fold_log:
  "fold (log json) es st =
     st\<lparr>printed := printed st @ map (log_line json) es,
        log_file := map_option (\<lambda>ls. ls @ map (log_line json) es) (log_file st)\<rparr>"
proof (induction es arbitrary: st)
  case Nil
  show ?case by (cases "log_file st") simp_all
next
  case (Cons e es)
  then show ?case by (cases "log_file st") (simp_all add: log_def Let_def)
qed

text \<open>
  Once a log file is set, it receives exactly the lines that are printed from then on, in the
  same order; no entry is lost, whether or not its JSON form exists.
\<close>

theorem log_file_complete:
  "printed (fold (log json) es st) = printed st @ map (log_line json) es \<and>
   log_file (fold (log json) es (snd (set_file_output (Inr ls) st))) = Some (ls @ map (log_line json) es)"
  by (simp add: fold_log set_file_output_def)

end
