(* ===== verification/Monitor_Setup.thy ===== *)
theory Monitor_Setup
  imports Sync_Enforcement Utf8 Logging
begin

text \<open>
  The construction of a monitor (\<open>monitor/mod.rs\<close>): detection of the enforcement mode, the offsets
  read from the tracepoint format and from \<open>bpftool\<close>, and \<open>Monitor::new\<close>.  The calls into the BPF
  loader (\<open>aya\<close>) are answered by the environment; the model follows which of them are made, in which
  order, what each failure leads to, and what the maps hold in the end.
\<close>

section \<open>Detection and offsets\<close>

datatype enforcement_mode = Sync | Reactive

definition lists_bpf :: "string \<Rightarrow> bool" where
  "lists_bpf content = list_ex (\<lambda>lsm. str_trim lsm = ''bpf'') (split_on CHR '','' content)"

definition bpf_lsm_available :: "(io_error, string) result \<Rightarrow> bool" where
  "bpf_lsm_available content_res = (case content_res of Inr content \<Rightarrow> lists_bpf content | Inl _ \<Rightarrow> False)"

text \<open>\<open>debug\<close> prints the result of reading the file.\<close>

definition detect_enforcement_mode ::
    "((io_error, string) result \<Rightarrow> string) \<Rightarrow> (io_error, string) result \<Rightarrow> log_call list \<times> enforcement_mode" where
  "detect_enforcement_mode debug content_res =
     (let checked = info_call ''monitor'' (''LSM file check: '' @ debug content_res)
      in case content_res of
        Inr content \<Rightarrow>
          let is_bpf = lists_bpf content;
              found = info_call ''monitor'' (''LSM file contains bpf: '' @ (if is_bpf then ''true'' else ''false''))
          in if is_bpf then ([checked, found], Sync) else ([checked, found], Reactive)
      | Inl _ \<Rightarrow> ([checked], Reactive))"

lemma detect_mode:
  "snd (detect_enforcement_mode debug r) = (if bpf_lsm_available r then Sync else Reactive)"
  by (simp add: detect_enforcement_mode_def bpf_lsm_available_def Let_def split: sum.split)

text \<open>One line of the tracepoint format: the number between \<open>offset:\<close> and the semicolon.\<close>

definition line_offset :: "string \<Rightarrow> string \<Rightarrow> u32 option" where
  "line_offset field_name line =
     (if str_contains line field_name \<and> str_contains line ''offset:'' then
        (case str_find line ''offset:'' of
           None \<Rightarrow> None
         | Some pos \<Rightarrow>
             let start = pos + length ''offset:'';
                 stop = (case str_find (drop start line) '';'' of Some i \<Rightarrow> i | None \<Rightarrow> length (drop start line)) + start
             in parse_u32 (str_trim (take (stop - start) (drop start line))))
      else None)"

fun first_offset :: "string \<Rightarrow> string list \<Rightarrow> u32 option" where
  "first_offset field_name [] = None"
| "first_offset field_name (l # ls) =
     (case line_offset field_name l of Some off \<Rightarrow> Some off | None \<Rightarrow> first_offset field_name ls)"

definition parse_tracepoint_offset :: "string \<Rightarrow> string \<Rightarrow> u32 option" where
  "parse_tracepoint_offset format_content field_name = first_offset field_name (str_lines format_content)"

definition extract_bits_offset :: "string \<Rightarrow> u32 option" where
  "extract_bits_offset line =
     (case str_find line ''bits_offset='' of
        Some pos \<Rightarrow>
          let start = pos + length ''bits_offset='';
              rest = drop start line;
              stop = (case str_find rest '' '' of Some i \<Rightarrow> i | None \<Rightarrow> length rest)
          in parse_u32 (take stop rest)
      | None \<Rightarrow> None)"

definition quoted :: "string \<Rightarrow> string" where
  "quoted s = CHR 0x27 # s @ [CHR 0x27]"

text \<open>The loop over the lines of \<open>bpftool\<close>: the flag \<open>in_file_struct\<close> and the offset found so far.\<close>

fun btf_loop :: "string list \<Rightarrow> bool \<Rightarrow> u32 \<Rightarrow> u32" where
  "btf_loop [] in_file_struct f_mode_offset = f_mode_offset"
| "btf_loop (line # rest) in_file_struct f_mode_offset =
     (let trimmed = str_trim line in
      if str_starts_with trimmed (''STRUCT '' @ quoted ''file'') then btf_loop rest True f_mode_offset
      else if str_starts_with trimmed ''STRUCT''
              \<or> (str_starts_with trimmed ''['' \<and> str_contains trimmed ''STRUCT'')
      then btf_loop rest False f_mode_offset
      else if in_file_struct \<and> str_contains trimmed (quoted ''f_mode'') then
        (case extract_bits_offset trimmed of
           Some offset \<Rightarrow> btf_loop rest in_file_struct (offset div 8)
         | None \<Rightarrow> btf_loop rest in_file_struct f_mode_offset)
      else btf_loop rest in_file_struct f_mode_offset)"

text \<open>\<open>output\<close>: the standard output of a \<open>bpftool\<close> that ran and succeeded.\<close>

definition resolve_btf_offsets :: "u8 list option \<Rightarrow> u32" where
  "resolve_btf_offsets output =
     (case output of
        Some stdout \<Rightarrow> btf_loop (str_lines (from_utf8_lossy stdout)) False 4
      | None \<Rightarrow> 4)"

lemma first_offset_skip:
  "\<forall>l \<in> set ls. \<not> (str_contains l f \<and> str_contains l ''offset:'') \<Longrightarrow>
   first_offset f (ls @ rest) = first_offset f rest"
  by (induction ls) (auto simp: line_offset_def)

lemma line_offset_read:
  assumes "line = pre @ ''offset:'' @ show_nat (unat n) @ '';'' @ post" and "str_contains line f"
    and "str_find line ''offset:'' = Some (length pre)"
  shows "line_offset f line = Some n"
proof -
  have "str_contains line ''offset:''"
    using assms(3) str_find_None [of line "''offset:''"] by auto
  moreover have "drop (length pre + length ''offset:'') line = show_nat (unat n) @ CHR '';'' # post"
    by (simp add: assms(1))
  moreover have "str_find (show_nat (unat n) @ CHR '';'' # post) '';'' = Some (length (show_nat (unat n)))"
    by (rule str_find_char) (simp add: show_nat_free)
  ultimately show ?thesis
    using assms(2,3) by (simp add: line_offset_def Let_def show_nat_trim parse_u32_show)
qed

text \<open>
  The tracepoint offset is the decimal number that the first line with the field and \<open>offset:\<close>
  gives, whatever surrounds it.
\<close>

theorem tracepoint_offset_read:
  assumes "str_lines content = ls @ line # rest"
    and "\<forall>l \<in> set ls. \<not> (str_contains l f \<and> str_contains l ''offset:'')"
    and "line = pre @ ''offset:'' @ show_nat (unat n) @ '';'' @ post" and "str_contains line f"
    and "str_find line ''offset:'' = Some (length pre)"
  shows "parse_tracepoint_offset content f = Some n"
  using first_offset_skip [OF assms(2)] line_offset_read [OF assms(3-5)]
  by (simp add: parse_tracepoint_offset_def assms(1))

text \<open>
  When the dump names every type after its number in brackets, as the raw format of \<open>bpftool\<close>
  does, no line begins with \<open>STRUCT 'file'\<close> and the offset of \<open>f_mode\<close> is always the fallback 4.
\<close>

theorem btf_offset_fallback:
  assumes "\<forall>l \<in> set (str_lines (from_utf8_lossy stdout)). \<not> prefix (''STRUCT '' @ quoted ''file'') (str_trim l)"
  shows "resolve_btf_offsets (Some stdout) = 4"
proof -
  have "btf_loop ls False 4 = 4" if "\<forall>l \<in> set ls. \<not> prefix (''STRUCT '' @ quoted ''file'') (str_trim l)" for ls
    using that by (induction ls) (auto simp: Let_def)
  then show ?thesis
    using assms by (simp add: resolve_btf_offsets_def)
qed

theorem tracepoint_offset_read_witness:
  "parse_tracepoint_offset
     (''ID: 315'' @ [CHR 0x0A] @ ''field:pid_t parent_pid; offset:24; size:4;'' @ [CHR 0x0A]) ''parent_pid'' = Some 24"
proof (rule tracepoint_offset_read [where ls = "[''ID: 315'']" and rest = "[]" and post = "'' size:4;''"
      and pre = "''field:pid_t parent_pid; ''" and line = "''field:pid_t parent_pid; offset:24; size:4;''"])
  show "str_lines (''ID: 315'' @ [CHR 0x0A] @ ''field:pid_t parent_pid; offset:24; size:4;'' @ [CHR 0x0A]) =
      [''ID: 315''] @ ''field:pid_t parent_pid; offset:24; size:4;'' # []"
    by code_simp
  show "''field:pid_t parent_pid; offset:24; size:4;'' =
      ''field:pid_t parent_pid; '' @ ''offset:'' @ show_nat (unat (24::u32)) @ '';'' @ '' size:4;''"
    by code_simp
  show "str_contains ''field:pid_t parent_pid; offset:24; size:4;'' ''parent_pid''"
    by code_simp
  show "str_find ''field:pid_t parent_pid; offset:24; size:4;'' ''offset:'' = Some (length ''field:pid_t parent_pid; '')"
    by code_simp
  show "\<forall>l \<in> set [''ID: 315'']. \<not> (str_contains l ''parent_pid'' \<and> str_contains l ''offset:'')"
    by code_simp
qed

theorem btf_offset_fallback_witness:
  "resolve_btf_offsets (Some (as_bytes (''[12] STRUCT '' @ quoted ''file'' @ [CHR 0x0A] @ CHR 0x09 # quoted ''f_mode'' @ '' bits_offset=96''))) = 4"
  by (rule btf_offset_fallback) code_simp

end
