(* ===== verification/Ebpf_Trace.thy ===== *)
theory Ebpf_Trace
  imports Ebpf_State
begin

text \<open>
  The tracing programs of \<open>syscallcage-ebpf/src/main.rs\<close>: the process tree (\<open>handle_fork\<close>,
  \<open>handle_exit\<close>), the file, program and ptrace events, and the network programs that follow DNS
  queries and outgoing connections.  Every program returns 0, so its model is the new state.
\<close>

section \<open>Definitions\<close>

text \<open>
  What a tracing program obtains from the kernel: the current task, the fields of the tracepoint
  record (\<open>ctx.read_at\<close>, 32 or 64 bits wide), the argument of a kprobe, reads of user memory (the
  two bulk readers give the destination buffer as the helper leaves it), the scratch slot and the
  room in the ring buffer.
\<close>

record trace_ctx =
  tc_pid_tgid :: u64
  tc_i32_at :: "nat \<Rightarrow> u32 option"
  tc_u64_at :: "nat \<Rightarrow> u64 option"
  tc_arg :: "nat \<Rightarrow> u64 option"
  tc_user_u16 :: "u64 \<Rightarrow> u16 option"
  tc_user_str :: "u64 \<Rightarrow> u8 list \<Rightarrow> u8 list"
  tc_user_buf :: "u64 \<Rightarrow> u8 list \<Rightarrow> u8 list"
  tc_scratch :: bool
  tc_room :: bool

definition zeros :: "nat \<Rightarrow> u8 list" where
  "zeros n = replicate n 0"

definition handle_fork :: "u32 set \<Rightarrow> trace_ctx \<Rightarrow> bpf_state \<Rightarrow> bpf_state" where
  "handle_fork victims ctx st =
     (let parent_offset = (case OFFSETS st 1 of Some v \<Rightarrow> v | None \<Rightarrow> 12);
          child_offset = (case OFFSETS st 2 of Some v \<Rightarrow> v | None \<Rightarrow> 20);
          parent_pid = (case tc_i32_at ctx (unat parent_offset) of Some v \<Rightarrow> v | None \<Rightarrow> 0);
          child_pid = (case tc_i32_at ctx (unat child_offset) of Some v \<Rightarrow> v | None \<Rightarrow> 0)
      in if sint parent_pid > 0 \<and> sint child_pid > 0 then
           (if is_monitored st parent_pid
            then st\<lparr>MONITORED_PIDS := lru_insert victims (MONITORED_PIDS st) child_pid 1\<rparr>
            else st)
         else st)"

definition handle_exit :: "trace_ctx \<Rightarrow> bpf_state \<Rightarrow> bpf_state" where
  "handle_exit ctx st =
     (let pid = (case tc_i32_at ctx 24 of Some v \<Rightarrow> v | None \<Rightarrow> 0)
      in st\<lparr>MONITORED_PIDS := map_remove (MONITORED_PIDS st) pid\<rparr>)"

definition handle_open :: "trace_ctx \<Rightarrow> bpf_state \<Rightarrow> bpf_state" where
  "handle_open ctx st =
     (let pid = tgid_of (tc_pid_tgid ctx) in
      if \<not> is_monitored st pid then st
      else
        (case tc_arg ctx 1 of
           None \<Rightarrow> st
         | Some filename_ptr \<Rightarrow>
             emit (tc_room ctx)
               \<lparr>ev_pid = pid, ev_type = EVENT_TYPE_READ, ev_resolved = 0,
                ev_target = tc_user_str ctx filename_ptr (zeros 256)\<rparr> st))"

definition handle_execve :: "trace_ctx \<Rightarrow> bpf_state \<Rightarrow> bpf_state" where
  "handle_execve ctx st =
     (let pid = tgid_of (tc_pid_tgid ctx) in
      if \<not> is_monitored st pid then st
      else
        (case tc_u64_at ctx 16 of
           None \<Rightarrow> st
         | Some filename_ptr \<Rightarrow>
             if filename_ptr = 0 then st
             else
               emit (tc_room ctx)
                 \<lparr>ev_pid = pid, ev_type = EVENT_TYPE_EXEC, ev_resolved = 0,
                  ev_target = tc_user_str ctx filename_ptr (zeros 256)\<rparr> st))"

text \<open>\<open>((pid as u64) << 32) | (fd as u32 as u64)\<close>\<close>

definition fd_key :: "u32 \<Rightarrow> u64 \<Rightarrow> u64" where
  "fd_key pid fd = push_bit 32 (ucast pid) OR ucast (ucast fd :: u32)"

definition handle_sendto :: "u16 set \<Rightarrow> trace_ctx \<Rightarrow> bpf_state \<Rightarrow> bpf_state" where
  "handle_sendto victims ctx st =
     (let pid = tgid_of (tc_pid_tgid ctx) in
      if \<not> is_monitored st pid then st
      else
        let fd = (case tc_u64_at ctx 16 of Some v \<Rightarrow> v | None \<Rightarrow> 0) in
        (case tc_u64_at ctx 24 of
           None \<Rightarrow> st
         | Some buff_ptr \<Rightarrow>
             if buff_ptr = 0 then st
             else
               let addr_ptr = (case tc_u64_at ctx 48 of Some v \<Rightarrow> v | None \<Rightarrow> 0);
                   is_dns =
                     (if addr_ptr \<noteq> 0
                      then (case tc_user_u16 ctx (addr_ptr + 2) of Some port \<Rightarrow> port | None \<Rightarrow> 0) = 0x3500
                      else (case DNS_FDS st (fd_key pid fd) of Some v \<Rightarrow> v = 1 | None \<Rightarrow> False))
               in if \<not> is_dns then st
                  else
                    (case tc_user_u16 ctx buff_ptr of
                       None \<Rightarrow> st
                     | Some tx_id \<Rightarrow>
                         if \<not> tc_scratch ctx then st
                         else
                           let payload = tc_user_buf ctx buff_ptr (zeros 256)
                           in st\<lparr>SCRATCH_DOMAIN := payload @ drop 256 (SCRATCH_DOMAIN st),
                                 PENDING_DNS_QUERY :=
                                   lru_insert victims (PENDING_DNS_QUERY st) tx_id payload\<rparr>)))"

definition handle_enter_recvfrom :: "u64 set \<Rightarrow> trace_ctx \<Rightarrow> bpf_state \<Rightarrow> bpf_state" where
  "handle_enter_recvfrom victims ctx st =
     (let pid = tgid_of (tc_pid_tgid ctx) in
      if \<not> is_monitored st pid then st
      else
        let ubuf_ptr = (case tc_u64_at ctx 24 of Some v \<Rightarrow> v | None \<Rightarrow> 0)
        in st\<lparr>DNS_RECV_BUFF := lru_insert victims (DNS_RECV_BUFF st) (tc_pid_tgid ctx) ubuf_ptr\<rparr>)"

definition handle_exit_recvfrom :: "trace_ctx \<Rightarrow> bpf_state \<Rightarrow> bpf_state" where
  "handle_exit_recvfrom ctx st =
     (case DNS_RECV_BUFF st (tc_pid_tgid ctx) of
        None \<Rightarrow> st
      | Some buff_ptr \<Rightarrow>
          let st = st\<lparr>DNS_RECV_BUFF := map_remove (DNS_RECV_BUFF st) (tc_pid_tgid ctx)\<rparr>;
              ret = (case tc_u64_at ctx 16 of Some v \<Rightarrow> v | None \<Rightarrow> 0)
          in if sint ret \<le> 12 then st
             else
               (case tc_user_u16 ctx buff_ptr of
                  None \<Rightarrow> st
                | Some tx_id \<Rightarrow>
                    emit (tc_room ctx)
                      \<lparr>ev_pid = tgid_of (tc_pid_tgid ctx), ev_type = EVENT_TYPE_NETWORK,
                       ev_resolved = 1, ev_target = tc_user_buf ctx buff_ptr (zeros 256)\<rparr>
                      (st\<lparr>PENDING_DNS_QUERY := map_remove (PENDING_DNS_QUERY st) tx_id\<rparr>)))"

text \<open>\<open>((b[2] as u16) << 8) | (b[3] as u16)\<close> and the address in the same order.\<close>

definition be_u16 :: "u8 \<Rightarrow> u8 \<Rightarrow> u16" where
  "be_u16 hi lo = push_bit 8 (ucast hi) OR ucast lo"

definition be_u32 :: "u8 \<Rightarrow> u8 \<Rightarrow> u8 \<Rightarrow> u8 \<Rightarrow> u32" where
  "be_u32 a b c d =
     push_bit 24 (ucast a) OR push_bit 16 (ucast b) OR push_bit 8 (ucast c) OR ucast d"

definition ipv6_message :: "u8 list" where
  "ipv6_message = as_bytes ''<ipv6-nao-suportado>''"

definition handle_connect :: "u64 set \<Rightarrow> trace_ctx \<Rightarrow> bpf_state \<Rightarrow> bpf_state" where
  "handle_connect victims ctx st =
     (let pid = tgid_of (tc_pid_tgid ctx) in
      if \<not> is_monitored st pid then st
      else
        let fd = (case tc_u64_at ctx 16 of Some v \<Rightarrow> v | None \<Rightarrow> 0) in
        (case tc_u64_at ctx 24 of
           None \<Rightarrow> st
         | Some uservaddr_ptr \<Rightarrow>
             if uservaddr_ptr = 0 then st
             else
               (case tc_user_u16 ctx uservaddr_ptr of
                  None \<Rightarrow> st
                | Some family \<Rightarrow>
                    if family = 1 then st
                    else if family = 10 then
                      (let sa6 = tc_user_buf ctx uservaddr_ptr (zeros 28);
                           port = be_u16 (sa6 ! 2) (sa6 ! 3)
                       in if port = 53
                          then st\<lparr>DNS_FDS := lru_insert victims (DNS_FDS st) (fd_key pid fd) 1\<rparr>
                          else
                            let is_lo = (list_all (\<lambda>b. b = 0) (take 15 (drop 8 sa6)) \<and> sa6 ! 23 = 1);
                                is_ll = (sa6 ! 8 = 0xFE \<and> (sa6 ! 9 AND 0xC0) = 0x80)
                            in if is_lo \<or> is_ll then st
                               else
                                 emit (tc_room ctx)
                                   \<lparr>ev_pid = pid, ev_type = EVENT_TYPE_NETWORK, ev_resolved = 1,
                                    ev_target = ipv6_message @ drop 20 (zeros 256)\<rparr> st)
                    else if family \<noteq> 2 then st
                    else
                      (let sa = tc_user_buf ctx uservaddr_ptr (zeros 16);
                           port = be_u16 (sa ! 2) (sa ! 3)
                       in if port = 53
                          then st\<lparr>DNS_FDS := lru_insert victims (DNS_FDS st) (fd_key pid fd) 1\<rparr>
                          else if sa ! 4 = 127 then st
                          else
                            let ip_be = be_u32 (sa ! 4) (sa ! 5) (sa ! 6) (sa ! 7)
                            in emit (tc_room ctx)
                                 (case IP_TO_DOMAIN st ip_be of
                                    Some domain \<Rightarrow>
                                      \<lparr>ev_pid = pid, ev_type = EVENT_TYPE_NETWORK, ev_resolved = 2,
                                       ev_target = domain\<rparr>
                                  | None \<Rightarrow>
                                      \<lparr>ev_pid = pid, ev_type = EVENT_TYPE_NETWORK, ev_resolved = 0,
                                       ev_target = [0xAA, sa ! 4, sa ! 5, sa ! 6, sa ! 7]
                                                   @ drop 5 (zeros 256)\<rparr>) st))))"

definition handle_ptrace :: "trace_ctx \<Rightarrow> bpf_state \<Rightarrow> bpf_state" where
  "handle_ptrace ctx st =
     (let pid = tgid_of (tc_pid_tgid ctx) in
      if \<not> is_monitored st pid then st
      else
        emit (tc_room ctx)
          \<lparr>ev_pid = pid, ev_type = EVENT_TYPE_SYSCALL, ev_resolved = 0,
           ev_target = as_bytes ''ptrace'' @ drop 6 (zeros 256)\<rparr> st)"

section \<open>The process tree\<close>

text \<open>
  The two scheduler tracepoints as the kernel reports them.  \<open>fork_ctx\<close> fills the record at the
  offsets that the program reads; \<open>sint\<close> of a process id is positive.
\<close>

datatype task_event = Forked u32 u32 | Exited u32

definition offset_or :: "u32 \<Rightarrow> u32 \<Rightarrow> bpf_state \<Rightarrow> nat" where
  "offset_or i dflt st = unat (case OFFSETS st i of Some v \<Rightarrow> v | None \<Rightarrow> dflt)"

definition reports :: "trace_ctx \<Rightarrow> bpf_state \<Rightarrow> task_event \<Rightarrow> bool" where
  "reports ctx st e =
     (case e of
        Forked p c \<Rightarrow> tc_i32_at ctx (offset_or 1 12 st) = Some p \<and> tc_i32_at ctx (offset_or 2 20 st) = Some c
      | Exited p \<Rightarrow> tc_i32_at ctx 24 = Some p)"

definition on_task :: "u32 set \<Rightarrow> trace_ctx \<Rightarrow> task_event \<Rightarrow> bpf_state \<Rightarrow> bpf_state" where
  "on_task victims ctx e st =
     (case e of Forked p c \<Rightarrow> handle_fork victims ctx st | Exited p \<Rightarrow> handle_exit ctx st)"

fun track :: "(task_event \<times> trace_ctx \<times> u32 set) list \<Rightarrow> bpf_state \<Rightarrow> bpf_state" where
  "track [] st = st"
| "track ((e, ctx, victims) # es) st = track es (on_task victims ctx e st)"

fun pids_positive :: "task_event \<Rightarrow> bool" where
  "pids_positive (Forked p c) = (sint p > 0 \<and> sint c > 0)"
| "pids_positive (Exited p) = (sint p > 0)"

text \<open>
  \<open>descends es r q\<close>: after the events \<open>es\<close> the task \<open>q\<close> is alive and is \<open>r\<close> or was started, through
  a chain of forks, by \<open>r\<close>.
\<close>

inductive descends :: "task_event list \<Rightarrow> u32 \<Rightarrow> u32 \<Rightarrow> bool" where
  root: "descends [] r r"
| stays: "descends es r q \<Longrightarrow> e \<noteq> Exited q \<Longrightarrow> descends (es @ [e]) r q"
| child: "descends es r p \<Longrightarrow> descends (es @ [Forked p c]) r c"

inductive_simps descends_Nil: "descends [] r q"
inductive_simps descends_snoc: "descends (es @ [e]) r q"

lemma on_task_offsets [simp]: "OFFSETS (on_task victims ctx e st) = OFFSETS st"
  by (simp add: on_task_def handle_fork_def handle_exit_def Let_def split: task_event.split)

lemma track_offsets [simp]: "OFFSETS (track es st) = OFFSETS st"
  by (induction es st rule: track.induct) simp_all

lemma track_snoc: "track (es @ [(e, ctx, victims)]) st = on_task victims ctx e (track es st)"
  by (induction es st rule: track.induct) simp_all

lemma reports_offsets: "OFFSETS st = OFFSETS st' \<Longrightarrow> reports ctx st e = reports ctx st' e"
  by (simp add: reports_def offset_or_def split: task_event.split)

lemma on_fork:
  assumes "reports ctx st (Forked p c)" and "sint p > 0" and "sint c > 0"
  shows "is_monitored (on_task victims ctx (Forked p c) st) q \<longleftrightarrow>
     (if is_monitored st p then q = c \<or> (q \<notin> victims \<and> is_monitored st q) else is_monitored st q)"
  using assms
  by (auto simp: on_task_def handle_fork_def reports_def offset_or_def is_monitored_def lru_insert_def
      split: option.splits)

lemma on_exit:
  assumes "reports ctx st (Exited p)"
  shows "is_monitored (on_task victims ctx (Exited p) st) q \<longleftrightarrow> q \<noteq> p \<and> is_monitored st q"
  using assms by (auto simp: on_task_def handle_exit_def reports_def is_monitored_def map_remove_def)

lemma track_sound:
  assumes "\<forall>(e, ctx, victims) \<in> set es. reports ctx st e \<and> pids_positive e"
    and "is_monitored (track es st) q"
  shows "\<exists>r. is_monitored st r \<and> descends (map fst es) r q"
  using assms
proof (induction es arbitrary: q rule: rev_induct)
  case Nil
  then show ?case by (auto simp: descends_Nil)
next
  case (snoc x es)
  obtain e ctx victims where x: "x = (e, ctx, victims)" by (cases x)
  have rep: "reports ctx (track es st) e" "pids_positive e"
    using snoc.prems(1) by (auto simp: x reports_offsets [of "track es st" st])
  have ih: "\<exists>r. is_monitored st r \<and> descends (map fst es) r q'" if "is_monitored (track es st) q'" for q'
    using snoc.IH [OF _ that] snoc.prems(1) by auto
  have q: "is_monitored (on_task victims ctx e (track es st)) q"
    using snoc.prems(2) by (simp add: x track_snoc)
  show ?case
  proof (cases e)
    case (Forked p c)
    then have "is_monitored (track es st) q \<or> (q = c \<and> is_monitored (track es st) p)"
      using q rep on_fork [of ctx "track es st" p c victims q] by (auto split: if_splits)
    then show ?thesis
      using ih by (auto simp: x Forked descends_snoc)
  next
    case (Exited p)
    then have "q \<noteq> p" "is_monitored (track es st) q"
      using q rep on_exit [of ctx "track es st" p victims q] by auto
    then show ?thesis
      using ih by (auto simp: x Exited descends_snoc)
  qed
qed

lemma track_complete:
  assumes "\<forall>(e, ctx, victims) \<in> set es. reports ctx st e \<and> pids_positive e \<and> victims = {}"
    and "is_monitored st r" and "descends (map fst es) r q"
  shows "is_monitored (track es st) q"
  using assms
proof (induction es arbitrary: q rule: rev_induct)
  case Nil
  then show ?case by (auto simp: descends_Nil)
next
  case (snoc x es)
  obtain e ctx where x: "x = (e, ctx, {})" using snoc.prems(1) by (cases x) auto
  have rep: "reports ctx (track es st) e" "pids_positive e"
    using snoc.prems(1) by (auto simp: x reports_offsets [of "track es st" st])
  have ih: "is_monitored (track es st) q'" if "descends (map fst es) r q'" for q'
    using snoc.IH [OF _ _ that] snoc.prems(1,2) by auto
  from snoc.prems(3) consider "descends (map fst es) r q" "e \<noteq> Exited q"
    | p where "e = Forked p q" "descends (map fst es) r p"
    by (auto simp: x descends_snoc)
  then show ?case
  proof cases
    case 1
    then show ?thesis
      using ih [OF 1(1)] rep on_fork [of ctx "track es st"] on_exit [of ctx "track es st"]
      by (cases e) (auto simp: x track_snoc)
  next
    case 2
    then show ?thesis
      using ih [OF 2(2)] rep on_fork [of ctx "track es st" p q "{}" q] by (auto simp: x track_snoc)
  qed
qed

text \<open>
  C17. The monitored set follows the process tree.  After any sequence of forks and exits, a task is
  monitored only when it is alive and descends from a task that was monitored at the start; and
  every such descendant is monitored as long as the map has dropped no entry.
\<close>

theorem monitored_process_tree:
  assumes "\<forall>(e, ctx, victims) \<in> set es. reports ctx st e \<and> pids_positive e"
  shows "(is_monitored (track es st) q \<longrightarrow> (\<exists>r. is_monitored st r \<and> descends (map fst es) r q)) \<and>
    ((\<forall>(e, ctx, victims) \<in> set es. victims = {}) \<longrightarrow>
     is_monitored (track es st) q \<longleftrightarrow> (\<exists>r. is_monitored st r \<and> descends (map fst es) r q))"
proof (intro conjI impI)
  show "\<exists>r. is_monitored st r \<and> descends (map fst es) r q" if "is_monitored (track es st) q"
    using track_sound [OF assms that] .
  show "is_monitored (track es st) q \<longleftrightarrow> (\<exists>r. is_monitored st r \<and> descends (map fst es) r q)"
    if "\<forall>(e, ctx, victims) \<in> set es. victims = {}"
  proof -
    have "\<forall>(e, ctx, victims) \<in> set es. reports ctx st e \<and> pids_positive e \<and> victims = {}"
      using assms that by fastforce
    then show ?thesis
      using track_sound [OF assms] track_complete by blast
  qed
qed

text \<open>A fork and two exits: task 7 starts task 8 and ends; task 8 is still followed.\<close>

definition task_ctx :: "(nat \<Rightarrow> u32 option) \<Rightarrow> trace_ctx" where
  "task_ctx f =
     \<lparr>tc_pid_tgid = 0, tc_i32_at = f, tc_u64_at = (\<lambda>_. None), tc_arg = (\<lambda>_. None),
      tc_user_u16 = (\<lambda>_. None), tc_user_str = (\<lambda>_ b. b), tc_user_buf = (\<lambda>_ b. b),
      tc_scratch = True, tc_room = True\<rparr>"

theorem monitored_process_tree_witness:
  "is_monitored
     (track [(Forked 7 8, task_ctx [12 \<mapsto> 7, 20 \<mapsto> 8], {}), (Exited 7, task_ctx [24 \<mapsto> 7], {})]
        (initial_maps\<lparr>MONITORED_PIDS := [7 \<mapsto> 1]\<rparr>)) 8 \<and>
   \<not> is_monitored
     (track [(Forked 7 8, task_ctx [12 \<mapsto> 7, 20 \<mapsto> 8], {}), (Exited 7, task_ctx [24 \<mapsto> 7], {})]
        (initial_maps\<lparr>MONITORED_PIDS := [7 \<mapsto> 1]\<rparr>)) 7"
proof -
  let ?es = "[(Forked 7 8, task_ctx [12 \<mapsto> 7, 20 \<mapsto> 8], {}), (Exited 7, task_ctx [24 \<mapsto> 7], {})]"
  let ?st = "initial_maps\<lparr>MONITORED_PIDS := [7 \<mapsto> 1]\<rparr>"
  have rep: "\<forall>(e, ctx, victims) \<in> set ?es. reports ctx ?st e \<and> pids_positive e"
    by (simp add: reports_def offset_or_def initial_maps_def task_ctx_def)
  have tree: "descends [Forked 7 8, Exited 7] 7 q \<longleftrightarrow> q = 8" for q
    using descends_snoc [of "[Forked 7 8]" "Exited 7"] descends_snoc [of "[]" "Forked 7 8"]
    by (auto simp: descends_Nil)
  have start: "is_monitored ?st r \<longleftrightarrow> r = 7" for r
    by (auto simp: is_monitored_def initial_maps_def)
  show ?thesis
    using monitored_process_tree [OF rep, of 8] monitored_process_tree [OF rep, of 7]
    by (simp add: tree start)
qed

end
