(* ===== verification/Dns.thy ===== *)
theory Dns
  imports Ebpf_Trace Utf8
begin

text \<open>
  \<open>parse_dns_answers\<close> of \<open>monitor/mod.rs\<close>: host name and IPv4 addresses of a DNS response.  Every index
  and every slice of the source is checked, and one out of bounds is a panic, a value of its own; every
  other early return is \<open>None\<close>.  A second group of definitions says what the parser computes when no
  index is checked; the two agree on every message but the one that panics.
\<close>

section \<open>Definitions\<close>

datatype 'a run = Panicked | Returned 'a

definition bind_run :: "'a run \<Rightarrow> ('a \<Rightarrow> 'b run) \<Rightarrow> 'b run" where
  "bind_run m f = (case m of Panicked \<Rightarrow> Panicked | Returned x \<Rightarrow> f x)"

lemma bind_run_simps [simp]: "bind_run Panicked f = Panicked" "bind_run (Returned x) f = f x"
  by (simp_all add: bind_run_def)

lemma bind_run_cong [fundef_cong]:
  "m = n \<Longrightarrow> (\<And>x. n = Returned x \<Longrightarrow> f x = g x) \<Longrightarrow> bind_run m f = bind_run n g"
  by (cases n) simp_all

text \<open>\<open>wire[i]\<close>, \<open>&wire[i..j]\<close>, and two bytes put together with \<open>(wire[i] as u16) << 8 | wire[i + 1]\<close>.\<close>

definition byte_at :: "u8 list \<Rightarrow> nat \<Rightarrow> u8 run" where
  "byte_at wire i = (if i < length wire then Returned (wire ! i) else Panicked)"

definition slice_at :: "u8 list \<Rightarrow> nat \<Rightarrow> nat \<Rightarrow> u8 list run" where
  "slice_at wire i j = (if i \<le> j \<and> j \<le> length wire then Returned (take (j - i) (drop i wire)) else Panicked)"

definition read_u16 :: "u8 list \<Rightarrow> nat \<Rightarrow> u16 run" where
  "read_u16 wire i = bind_run (byte_at wire i) (\<lambda>hi. bind_run (byte_at wire (i + 1)) (\<lambda>lo. Returned (be_u16 hi lo)))"

text \<open>The loop over the labels of the question; the result is the name and the place of the final zero.\<close>

function qname_loop :: "u8 list \<Rightarrow> nat \<Rightarrow> string \<Rightarrow> bool \<Rightarrow> (string \<times> nat) option run" where
  "qname_loop wire pos qname is_first =
     (if pos \<ge> length wire then Returned None
      else bind_run (byte_at wire pos) (\<lambda>b.
        let len = unat b in
        if len = 0 then Returned (Some (qname, pos))
        else if len > 63 then Returned None
        else
          let qname = (if \<not> is_first then qname @ ''.'' else qname);
              pos = pos + 1
          in if pos + len > length wire then Returned None
             else bind_run (slice_at wire pos (pos + len)) (\<lambda>bytes.
               case from_utf8 bytes of
                 None \<Rightarrow> Returned None
               | Some label \<Rightarrow> qname_loop wire (pos + len) (qname @ label) False)))"
  by pat_completeness auto
termination
  by (relation "measure (\<lambda>(wire, pos, qname, is_first). length wire - pos)") auto

declare qname_loop.simps [simp del]

text \<open>The loop that skips an uncompressed name of an answer.\<close>

function skip_name :: "u8 list \<Rightarrow> nat \<Rightarrow> nat option run" where
  "skip_name wire pos =
     (if pos \<ge> length wire then Returned None
      else bind_run (byte_at wire pos) (\<lambda>b.
        let len = unat b in
        if len = 0 then Returned (Some (pos + 1))
        else if len > 63 then Returned None
        else skip_name wire (pos + 1 + len)))"
  by pat_completeness auto
termination
  by (relation "measure (\<lambda>(wire, pos). length wire - pos)") auto

declare skip_name.simps [simp del]

text \<open>The place after the name of an answer: two bytes when it is compressed.\<close>

definition name_end :: "u8 list \<Rightarrow> nat \<Rightarrow> nat option run" where
  "name_end wire pos =
     bind_run (byte_at wire pos) (\<lambda>b. if b AND 0xC0 = 0xC0 then Returned (Some (pos + 2)) else skip_name wire pos)"

text \<open>\<open>for _ in 0..ancount\<close>: a \<open>break\<close> ends with the addresses so far, a \<open>return None\<close> with nothing.\<close>

fun answers :: "nat \<Rightarrow> u8 list \<Rightarrow> nat \<Rightarrow> u32 list \<Rightarrow> u32 list option run" where
  "answers 0 wire pos ips = Returned (Some ips)"
| "answers (Suc n) wire pos ips =
     (if pos \<ge> length wire then Returned (Some ips)
      else bind_run (name_end wire pos) (\<lambda>after_name.
        case after_name of
          None \<Rightarrow> Returned None
        | Some pos \<Rightarrow>
            if pos + 10 > length wire then Returned (Some ips)
            else
              bind_run (read_u16 wire pos) (\<lambda>rtype.
              bind_run (read_u16 wire (pos + 8)) (\<lambda>rd.
              let rdlength = unat rd;
                  pos = pos + 10
              in if pos + rdlength > length wire then Returned (Some ips)
                 else if rtype = 1 \<and> rdlength = 4
                 then bind_run (slice_at wire pos (pos + 4)) (\<lambda>ip_bytes.
                      bind_run (byte_at ip_bytes 0) (\<lambda>a. bind_run (byte_at ip_bytes 1) (\<lambda>b.
                      bind_run (byte_at ip_bytes 2) (\<lambda>c. bind_run (byte_at ip_bytes 3) (\<lambda>d.
                      answers n wire (pos + rdlength) (ips @ [be_u32 a b c d]))))))
                 else answers n wire (pos + rdlength) ips))))"

definition parse_dns_answers :: "u8 list \<Rightarrow> (string \<times> u32 list) option run" where
  "parse_dns_answers wire =
     (if length wire < 12 then Returned None
      else bind_run (read_u16 wire 6) (\<lambda>ancount.
        if ancount = 0 then Returned None
        else bind_run (byte_at wire 12) (\<lambda>b.
          let first_label_len = unat b in
          if first_label_len = 0 \<or> first_label_len > 63 then Returned None
          else bind_run (qname_loop wire 12 [] True) (\<lambda>question.
            case question of
              None \<Rightarrow> Returned None
            | Some (qname, pos) \<Rightarrow>
                if qname = [] then Returned None
                else bind_run (answers (unat ancount) wire (pos + 1 + 4) []) (\<lambda>found.
                  case found of
                    None \<Rightarrow> Returned None
                  | Some ips \<Rightarrow> Returned (Some (qname, ips)))))))"

section \<open>Without the checks\<close>

text \<open>The same computation on a message whose bytes are all read in bounds.\<close>

function qname_value :: "u8 list \<Rightarrow> nat \<Rightarrow> string \<Rightarrow> bool \<Rightarrow> (string \<times> nat) option" where
  "qname_value wire pos qname is_first =
     (if pos \<ge> length wire then None
      else
        let len = unat (wire ! pos) in
        if len = 0 then Some (qname, pos)
        else if len > 63 then None
        else
          let qname = (if \<not> is_first then qname @ ''.'' else qname);
              pos = pos + 1
          in if pos + len > length wire then None
             else
               (case from_utf8 (take len (drop pos wire)) of
                  None \<Rightarrow> None
                | Some label \<Rightarrow> qname_value wire (pos + len) (qname @ label) False))"
  by pat_completeness auto
termination
  by (relation "measure (\<lambda>(wire, pos, qname, is_first). length wire - pos)") auto

declare qname_value.simps [simp del]

function skip_value :: "u8 list \<Rightarrow> nat \<Rightarrow> nat option" where
  "skip_value wire pos =
     (if pos \<ge> length wire then None
      else
        let len = unat (wire ! pos) in
        if len = 0 then Some (pos + 1)
        else if len > 63 then None
        else skip_value wire (pos + 1 + len))"
  by pat_completeness auto
termination
  by (relation "measure (\<lambda>(wire, pos). length wire - pos)") auto

declare skip_value.simps [simp del]

definition u16_at :: "u8 list \<Rightarrow> nat \<Rightarrow> u16" where
  "u16_at wire i = be_u16 (wire ! i) (wire ! (i + 1))"

definition end_value :: "u8 list \<Rightarrow> nat \<Rightarrow> nat option" where
  "end_value wire pos =
     (if (wire ! pos) AND 0xC0 = 0xC0 then Some (pos + 2) else skip_value wire pos)"

fun answers_value :: "nat \<Rightarrow> u8 list \<Rightarrow> nat \<Rightarrow> u32 list \<Rightarrow> u32 list option" where
  "answers_value 0 wire pos ips = Some ips"
| "answers_value (Suc n) wire pos ips =
     (if pos \<ge> length wire then Some ips
      else
        (case end_value wire pos of
           None \<Rightarrow> None
         | Some pos \<Rightarrow>
             if pos + 10 > length wire then Some ips
             else
               let rtype = u16_at wire pos;
                   rdlength = unat (u16_at wire (pos + 8));
                   pos = pos + 10
               in if pos + rdlength > length wire then Some ips
                  else
                    answers_value n wire (pos + rdlength)
                      (if rtype = 1 \<and> rdlength = 4
                       then ips @ [be_u32 (wire ! pos) (wire ! (pos + 1)) (wire ! (pos + 2)) (wire ! (pos + 3))]
                       else ips)))"

section \<open>No index out of bounds\<close>

lemma in_bounds:
  "i < length wire \<Longrightarrow> byte_at wire i = Returned (wire ! i)"
  "i + 1 < length wire \<Longrightarrow> read_u16 wire i = Returned (u16_at wire i)"
  "i \<le> j \<Longrightarrow> j \<le> length wire \<Longrightarrow> slice_at wire i j = Returned (take (j - i) (drop i wire))"
  by (simp_all add: byte_at_def read_u16_def u16_at_def slice_at_def)

lemma qname_loop_value: "qname_loop wire pos qname b = Returned (qname_value wire pos qname b)"
proof (induction "length wire - pos" arbitrary: pos qname b rule: less_induct)
  case less
  have "qname_loop wire (Suc (pos + n)) q False = Returned (qname_value wire (Suc (pos + n)) q False)"
    if "pos < length wire" for n q
    using that by (intro less.hyps) simp
  then show ?case
    by (subst qname_loop.simps, subst qname_value.simps) (auto simp: Let_def in_bounds split: option.split)
qed

lemma skip_name_value: "skip_name wire pos = Returned (skip_value wire pos)"
proof (induction "length wire - pos" arbitrary: pos rule: less_induct)
  case less
  have "skip_name wire (Suc (pos + n)) = Returned (skip_value wire (Suc (pos + n)))" if "pos < length wire" for n
    using that by (intro less.hyps) simp
  then show ?case
    by (subst skip_name.simps, subst skip_value.simps) (auto simp: Let_def in_bounds)
qed

lemma name_end_value: "pos < length wire \<Longrightarrow> name_end wire pos = Returned (end_value wire pos)"
  by (simp add: name_end_def end_value_def in_bounds skip_name_value)

lemma answers_returns: "answers n wire pos ips = Returned (answers_value n wire pos ips)"
proof (induction n arbitrary: pos ips)
  case (Suc n)
  have step: "bind_run (slice_at wire p (p + 4)) (\<lambda>ip_bytes.
        bind_run (byte_at ip_bytes 0) (\<lambda>a. bind_run (byte_at ip_bytes 1) (\<lambda>b.
        bind_run (byte_at ip_bytes 2) (\<lambda>c. bind_run (byte_at ip_bytes 3) (\<lambda>d. f a b c d))))) =
      f (wire ! p) (wire ! (p + 1)) (wire ! (p + 2)) (wire ! (p + 3))" if "p + 4 \<le> length wire" for p and f :: "u8 \<Rightarrow> u8 \<Rightarrow> u8 \<Rightarrow> u8 \<Rightarrow> 'z run"
    using that by (simp add: in_bounds)
  show ?case
    by (auto simp: Let_def in_bounds name_end_value step Suc.IH add.commute split: option.split)
qed simp

text \<open>The parser, all indices but one taken for granted: the first label of a message of twelve bytes.\<close>

lemma parse_dns_answers_value:
  "parse_dns_answers wire =
     (if length wire < 12 then Returned None
      else
        let ancount = u16_at wire 6 in
        if ancount = 0 then Returned None
        else if length wire \<le> 12 then Panicked
        else
          let first_label_len = unat (wire ! 12) in
          if first_label_len = 0 \<or> first_label_len > 63 then Returned None
          else
            (case qname_value wire 12 [] True of
               None \<Rightarrow> Returned None
             | Some (qname, pos) \<Rightarrow>
                 if qname = [] then Returned None
                 else
                   (case answers_value (unat ancount) wire (pos + 1 + 4) [] of
                      None \<Rightarrow> Returned None
                    | Some ips \<Rightarrow> Returned (Some (qname, ips)))))"
  by (auto simp: parse_dns_answers_def in_bounds byte_at_def qname_loop_value answers_returns Let_def
      split: option.split prod.split)

text \<open>
  C21. \<open>parse_dns_answers\<close> reads no byte out of bounds, whatever the message: every index and every slice
  of its three loops lies inside it.  The one exception is a message of exactly twelve bytes that
  announces an answer, where the first label is read behind the end.  In particular it returns on the
  256 bytes of every network event.
\<close>

theorem dns_no_panic:
  "parse_dns_answers wire = Panicked \<longleftrightarrow> length wire = 12 \<and> u16_at wire 6 \<noteq> 0"
  by (auto simp: parse_dns_answers_value Let_def split: option.splits prod.splits)

section \<open>What comes out was in the message\<close>

definition address_at :: "u8 list \<Rightarrow> nat \<Rightarrow> u32" where
  "address_at wire i = be_u32 (wire ! i) (wire ! (i + 1)) (wire ! (i + 2)) (wire ! (i + 3))"

lemma skip_name_gt: "skip_value wire pos = Some p \<Longrightarrow> pos < p"
proof (induction wire pos rule: skip_value.induct)
  case (1 wire pos)
  show ?case
    using "1.prems" "1.IH"
    by (subst (asm) skip_value.simps) (fastforce simp: Let_def split: if_splits)
qed

lemma name_end_gt: "end_value wire pos = Some p \<Longrightarrow> pos < p"
  by (auto simp: end_value_def skip_name_gt split: if_splits)

definition from_wire :: "u8 list \<Rightarrow> nat \<Rightarrow> u32 \<Rightarrow> bool" where
  "from_wire wire pos ip \<longleftrightarrow> (\<exists>i. pos \<le> i \<and> i + 4 \<le> length wire \<and> ip = address_at wire i)"

lemma from_wire_mono: "from_wire wire p ip \<Longrightarrow> q \<le> p \<Longrightarrow> from_wire wire q ip"
  unfolding from_wire_def by (blast intro: le_trans)

lemma answers_sound:
  "answers_value n wire pos ips = Some result \<Longrightarrow>
   \<exists>new. result = ips @ new \<and> length new \<le> n \<and> list_all (from_wire wire pos) new"
proof (induction n arbitrary: pos ips)
  case 0
  then show ?case by simp
next
  case (Suc n)
  show ?case
  proof (cases "pos < length wire \<and> end_value wire pos \<noteq> None")
    case False
    with Suc.prems show ?thesis by (auto split: if_splits)
  next
    case True
    then obtain p where p: "pos < length wire" "end_value wire pos = Some p" by auto
    let ?len = "unat (u16_at wire (p + 8))"
    let ?got = "if u16_at wire p = 1 \<and> ?len = 4 then [address_at wire (p + 10)] else []"
    show ?thesis
    proof (cases "p + 10 + ?len \<le> length wire")
      case False
      with Suc.prems p show ?thesis by (auto simp: Let_def split: if_splits)
    next
      case fits: True
      have "answers_value (Suc n) wire pos ips = answers_value n wire (p + 10 + ?len)
          (if u16_at wire p = 1 \<and> ?len = 4 then ips @ [address_at wire (p + 10)] else ips)"
        using p fits by (simp add: Let_def address_at_def)
      moreover have "(if C then ips @ [x] else ips) = ips @ (if C then [x] else [])" for C x
        by simp
      ultimately have "answers_value n wire (p + 10 + ?len) (ips @ ?got) = Some result"
        using Suc.prems by simp
      from Suc.IH [OF this] obtain new where new: "result = (ips @ ?got) @ new" "length new \<le> n"
        "list_all (from_wire wire (p + 10 + ?len)) new"
        by blast
      have "list_all (from_wire wire pos) ?got"
        using name_end_gt [OF p(2)] fits by (auto simp: from_wire_def intro!: exI [of _ "p + 10"])
      moreover have "list_all (from_wire wire pos) new"
        using new(3) name_end_gt [OF p(2)] by (auto simp: list_all_iff intro: from_wire_mono)
      ultimately show ?thesis
        using new(1,2) by (intro exI [of _ "?got @ new"]) (auto split: if_splits)
    qed
  qed
qed

lemma qname_loop_pos: "qname_value wire pos qname b = Some (name, p) \<Longrightarrow> pos \<le> p"
proof (induction wire pos qname b rule: qname_value.induct)
  case (1 wire pos qname b)
  show ?case
    using "1.prems" "1.IH"
    by (subst (asm) qname_value.simps) (fastforce simp: Let_def split: if_splits option.splits)
qed

lemma qname_loop_unfold:
  assumes "qname_value wire pos qname b = Some (name, p)"
  obtains (stop) "pos < length wire" "name = qname" "p = pos"
  | (label) label where "pos + 1 + length label \<le> length wire" "valid_str label"
      "qname_value wire (pos + 1 + length label) ((if \<not> b then qname @ ''.'' else qname) @ label) False
         = Some (name, p)" "label \<noteq> []"
proof (cases "unat (wire ! pos) = 0")
  case True
  with assms stop show ?thesis
    by (subst (asm) qname_value.simps) (auto split: if_splits)
next
  case False
  let ?len = "unat (wire ! pos)"
  from False assms obtain l where
    l: "pos + 1 + ?len \<le> length wire" "from_utf8 (take ?len (drop (pos + 1) wire)) = Some l"
      "qname_value wire (pos + 1 + ?len) ((if \<not> b then qname @ ''.'' else qname) @ l) False = Some (name, p)"
    by (subst (asm) qname_value.simps) (auto simp: Let_def split: if_splits option.splits)
  from from_utf8_valid [OF l(2)] have "valid_str l" "as_bytes l = take ?len (drop (pos + 1) wire)"
    by auto
  moreover from this(2) l(1) have "length l = ?len"
    by (metis length_as_bytes length_take length_drop min.absorb2 add_le_imp_le_diff add.commute)
  moreover from this False have "l \<noteq> []" by auto
  ultimately show ?thesis
    using label [of l] l(1,3) by simp
qed

lemma qname_loop_name:
  "qname_value wire pos qname b = Some (name, p) \<Longrightarrow> valid_str qname \<Longrightarrow>
   valid_str name \<and> p < length wire \<and> length name \<le> length qname + (p - pos)"
proof (induction "length wire - pos" arbitrary: pos qname b rule: less_induct)
  case less
  from less.prems(1) show ?case
  proof (cases rule: qname_loop_unfold)
    case stop
    with less.prems(2) show ?thesis by simp
  next
    case (label l)
    let ?q = "(if \<not> b then qname @ ''.'' else qname) @ l"
    have "valid_str ''.''"
      by (rule valid_str_ascii) simp
    then have "valid_str (if \<not> b then qname @ ''.'' else qname)"
      using less.prems(2) by (simp add: valid_str_append)
    then have "valid_str ?q"
      using label(2) by (rule valid_str_append)
    moreover have "pos + 1 + length l \<le> p"
      by (rule qname_loop_pos [OF label(3)])
    moreover have "length ?q \<le> length qname + 1 + length l"
      by simp
    ultimately show ?thesis
      using less.hyps [OF _ label(3)] label(1,4) by fastforce
  qed
qed

text \<open>
  What the parser returns was in the message: the name is not empty, there are at most as many
  addresses as the header announces, and each of them is four consecutive bytes of the answer
  section.
\<close>

theorem dns_answers_from_wire:
  assumes "parse_dns_answers wire = Returned (Some (name, ips))"
  shows "name \<noteq> [] \<and> length ips \<le> unat (u16_at wire 6) \<and>
     list_all (\<lambda>ip. \<exists>i \<ge> 17. i + 4 \<le> length wire \<and>
       ip = be_u32 (wire ! i) (wire ! (i + 1)) (wire ! (i + 2)) (wire ! (i + 3))) ips"
proof -
  from assms obtain pos where q: "qname_value wire 12 [] True = Some (name, pos)" "name \<noteq> []"
    and a: "answers_value (unat (u16_at wire 6)) wire (pos + 5) [] = Some ips"
    by (auto simp: parse_dns_answers_value Let_def add.commute split: if_splits option.splits prod.splits)
  have "12 \<le> pos"
    using qname_loop_pos [OF q(1)] .
  then have "list_all (from_wire wire 17) ips" "length ips \<le> unat (u16_at wire 6)"
    using answers_sound [OF a] by (auto simp: list_all_iff intro: from_wire_mono)
  then show ?thesis
    using q(2) by (auto simp: list_all_iff from_wire_def address_at_def)
qed

section \<open>Round trip\<close>

text \<open>
  A response as a name server sends it: the header with one question, the question, and one answer
  of type A per address whose name is a pointer to the question.
\<close>

definition dns_label :: "string \<Rightarrow> u8 list" where
  "dns_label l = of_nat (length l) # as_bytes l"

definition dns_question :: "string list \<Rightarrow> u8 list" where
  "dns_question labels = concat (map dns_label labels) @ [0, 0, 1, 0, 1]"

definition ip_bytes :: "u32 \<Rightarrow> u8 list" where
  "ip_bytes ip = [ucast (drop_bit 24 ip), ucast (drop_bit 16 ip), ucast (drop_bit 8 ip), ucast ip]"

definition dns_answer :: "u8 list \<Rightarrow> u32 \<Rightarrow> u8 list" where
  "dns_answer ttl ip = [0xC0, 0x0C, 0, 1, 0, 1] @ ttl @ [0, 4] @ ip_bytes ip"

definition count_bytes :: "nat \<Rightarrow> u8 list" where
  "count_bytes n = [ucast (drop_bit 8 (of_nat n :: u16)), ucast (of_nat n :: u16)]"

definition dns_response :: "u8 list \<Rightarrow> string list \<Rightarrow> (u8 list \<times> u32) list \<Rightarrow> u8 list" where
  "dns_response ids labels rrs =
     ids @ [0, 1] @ count_bytes (length rrs) @ [0, 0, 0, 0] @
     dns_question labels @ concat (map (\<lambda>(ttl, ip). dns_answer ttl ip) rrs)"

definition dns_label_ok :: "string \<Rightarrow> bool" where
  "dns_label_ok l \<longleftrightarrow> l \<noteq> [] \<and> length l \<le> 63 \<and> valid_str l"

lemma be_u32_ip_bytes:
  "be_u32 (ucast (drop_bit 24 ip)) (ucast (drop_bit 16 ip)) (ucast (drop_bit 8 ip)) (ucast ip) = ip"
  unfolding be_u32_def
proof (rule bit_word_eqI)
  fix n
  assume n: "n < LENGTH(32)"
  consider "n < 8" | "8 \<le> n" "n < 16" | "16 \<le> n" "n < 24" | "24 \<le> n"
    by linarith
  then show "bit (push_bit 24 (ucast (ucast (drop_bit 24 ip) :: u8)) OR
      push_bit 16 (ucast (ucast (drop_bit 16 ip) :: u8)) OR
      push_bit 8 (ucast (ucast (drop_bit 8 ip) :: u8)) OR ucast (ucast ip :: u8) :: u32) n = bit ip n"
    using n by cases (auto simp: bit_simps)
qed

lemma be_u16_bytes: "be_u16 (ucast (drop_bit 8 w)) (ucast w) = (w :: u16)"
  unfolding be_u16_def
  by (rule bit_word_eqI) (auto simp: bit_simps)

subsection \<open>The question\<close>

lemma of_nat_small: "n \<le> 63 \<Longrightarrow> unat (of_nat n :: u8) = n"
  by (simp add: unat_of_nat)

lemma qname_loop_step:
  assumes "dns_label_ok l" and "length before = pos"
  shows "qname_value (before @ dns_label l @ rest) pos qname b =
     qname_value (before @ dns_label l @ rest) (pos + length (dns_label l))
       ((if b then qname else qname @ ''.'') @ l) False"
proof -
  let ?wire = "before @ dns_label l @ rest"
  have len: "?wire ! pos = of_nat (length l)" "pos < length ?wire" "length l \<noteq> 0" "length l \<le> 63"
    "valid_str l"
    using assms by (auto simp: dns_label_ok_def dns_label_def nth_append)
  have "take (length l) (drop (pos + 1) ?wire) = as_bytes l"
    using assms(2) by (simp add: dns_label_def)
  moreover have "pos + 1 + length l \<le> length ?wire"
    using assms(2) by (simp add: dns_label_def)
  ultimately show ?thesis
    using len by (subst qname_value.simps) (simp add: of_nat_small from_utf8_as_bytes dns_label_def Let_def)
qed

lemma qname_loop_labels:
  assumes "list_all dns_label_ok labels" and "length before = pos"
  shows "qname_value (before @ concat (map dns_label labels) @ 0 # rest) pos qname b =
     Some (if labels = [] then qname
           else (if b then qname else qname @ ''.'') @ join_with ''.'' labels,
           pos + length (concat (map dns_label labels)))"
  using assms
proof (induction labels arbitrary: before pos qname b)
  case Nil
  then show ?case by (subst qname_value.simps) (simp add: nth_append)
next
  case (Cons l ls)
  have "qname_value (before @ concat (map dns_label (l # ls)) @ 0 # rest) pos qname b =
      qname_value (before @ dns_label l @ (concat (map dns_label ls) @ 0 # rest)) (pos + length (dns_label l))
        ((if b then qname else qname @ ''.'') @ l) False"
    using Cons.prems qname_loop_step [of l before pos "concat (map dns_label ls) @ 0 # rest"] by simp
  also have "\<dots> = qname_value ((before @ dns_label l) @ concat (map dns_label ls) @ 0 # rest)
      (pos + length (dns_label l)) ((if b then qname else qname @ ''.'') @ l) False"
    by simp
  also have "\<dots> = Some (if ls = [] then (if b then qname else qname @ ''.'') @ l
      else ((if b then qname else qname @ ''.'') @ l) @ ''.'' @ join_with ''.'' ls,
      pos + length (dns_label l) + length (concat (map dns_label ls)))"
    using Cons.prems by (subst Cons.IH) simp_all
  finally show ?case
    by (cases ls) simp_all
qed

subsection \<open>The answers\<close>

lemma answer_nth:
  assumes "wire = before @ dns_answer ttl ip @ rest" and "length before = pos" and "length ttl = 4"
  shows "wire ! pos = 0xC0" and "u16_at wire (pos + 2) = 1" and "u16_at wire (pos + 10) = 4"
    and "address_at wire (pos + 12) = ip" and "pos + 16 \<le> length wire"
proof -
  obtain t1 t2 t3 t4 where ttl: "ttl = [t1, t2, t3, t4]"
    using assms(3) by (auto simp: length_Suc_conv eval_nat_numeral)
  show "wire ! pos = 0xC0" "u16_at wire (pos + 2) = 1" "u16_at wire (pos + 10) = 4"
    "address_at wire (pos + 12) = ip" "pos + 16 \<le> length wire"
    using assms(2)
    by (simp_all add: assms(1) ttl dns_answer_def ip_bytes_def u16_at_def be_u16_def address_at_def
        nth_append be_u32_ip_bytes)
qed

lemma answers_step:
  assumes "pos < length wire" and "end_value wire pos = Some p" and "p + 14 \<le> length wire"
    and "u16_at wire p = 1" and "u16_at wire (p + 8) = 4"
  shows "answers_value (Suc n) wire pos ips = answers_value n wire (p + 14) (ips @ [address_at wire (p + 10)])"
  using assms by (simp add: Let_def address_at_def) (simp only: add.commute)

lemma answers_pointer_step:
  assumes "wire ! pos = 0xC0" and "pos + 16 \<le> length wire"
    and "u16_at wire (pos + 2) = 1" and "u16_at wire (pos + 10) = 4"
  shows "answers_value (Suc n) wire pos ips = answers_value n wire (pos + 16) (ips @ [address_at wire (pos + 12)])"
proof -
  have "end_value wire pos = Some (pos + 2)"
    using assms(1) by (simp add: end_value_def)
  moreover have sums: "pos + 2 + 8 = pos + 10" "pos + 2 + 10 = pos + 12" "pos + 2 + 14 = pos + 16"
    by simp_all
  ultimately show ?thesis
    using answers_step [of pos wire "pos + 2" n ips] assms unfolding sums by simp
qed

lemma answers_encoded:
  assumes "list_all (\<lambda>(ttl, ip). length ttl = 4) rrs" and "length before = pos"
  shows "answers_value (length rrs) (before @ concat (map (\<lambda>(ttl, ip). dns_answer ttl ip) rrs) @ rest) pos ips =
     Some (ips @ map snd rrs)"
  using assms
proof (induction rrs arbitrary: before pos ips)
  case Nil
  then show ?case by simp
next
  case (Cons rr rrs)
  obtain ttl ip where rr: "rr = (ttl, ip)" by (cases rr)
  let ?rest = "concat (map (\<lambda>(ttl, ip). dns_answer ttl ip) rrs) @ rest"
  let ?wire = "before @ dns_answer ttl ip @ ?rest"
  have ttl: "length ttl = 4" using Cons.prems by (simp add: rr)
  note at = answer_nth [OF refl Cons.prems(2) ttl, of ip ?rest]
  have len: "length (dns_answer ttl ip) = 16"
    using ttl by (simp add: dns_answer_def ip_bytes_def)
  have "answers_value (length (rr # rrs)) ?wire pos ips = answers_value (length rrs) ?wire (pos + 16) (ips @ [ip])"
    using answers_pointer_step [OF at(1,5,2,3)] by (simp only: at(4) list.size add_Suc_right add_0_right)
  also have "?wire = (before @ dns_answer ttl ip) @ ?rest"
    by simp
  also have "answers_value (length rrs) \<dots> (pos + 16) (ips @ [ip]) = Some ((ips @ [ip]) @ map snd rrs)"
    using Cons.prems len by (intro Cons.IH) simp_all
  finally show ?case
    by (simp add: rr)
qed

lemma join_labels_nonempty: "labels \<noteq> [] \<Longrightarrow> list_all dns_label_ok labels \<Longrightarrow> join_with sep labels \<noteq> []"
  by (cases "(sep, labels)" rule: join_with.cases) (auto simp: dns_label_ok_def)

text \<open>
  C20. A complete response is read back: from the encoding of a host name (labels of 1 to 63 bytes of
  UTF-8) with its addresses, whatever follows it in the buffer, the parser returns the labels joined
  by dots and exactly the addresses, in order.
\<close>

theorem dns_roundtrip:
  assumes "length ids = 4" and "labels \<noteq> []" and "list_all dns_label_ok labels"
    and "0 < length rrs" and "length rrs < 2 ^ 16" and "list_all (\<lambda>(ttl, ip). length ttl = 4) rrs"
  shows "parse_dns_answers (dns_response ids labels rrs @ rest) =
     Returned (Some (join_with ''.'' labels, map snd rrs))"
proof -
  let ?wire = "dns_response ids labels rrs @ rest"
  let ?hdr = "ids @ [0, 1] @ count_bytes (length rrs) @ [0, 0, 0, 0]"
  let ?rrs = "concat (map (\<lambda>(ttl, ip). dns_answer ttl ip) rrs)"
  let ?pos = "12 + length (concat (map dns_label labels))"
  have hdr: "length ?hdr = 12"
    using assms(1) by (simp add: count_bytes_def)
  have wire: "?wire = ?hdr @ concat (map dns_label labels) @ 0 # ([0, 1, 0, 1] @ ?rrs @ rest)"
    by (simp add: dns_response_def dns_question_def)
  have count: "u16_at ?wire 6 = of_nat (length rrs)"
    using assms(1) by (simp add: dns_response_def u16_at_def count_bytes_def nth_append be_u16_bytes)
  then have n1: "unat (u16_at ?wire 6) = length rrs"
    using assms(5) by (simp add: unat_of_nat)
  then have n: "unat (u16_at ?wire 6) = length rrs" "u16_at ?wire 6 \<noteq> 0"
    using assms(4) by auto
  obtain l ls where l: "labels = l # ls" "dns_label_ok l"
    using assms(2,3) by (cases labels) auto
  have first: "?wire ! 12 = of_nat (length l)" "12 < length ?wire"
    unfolding wire using assms(1) by (simp_all add: l nth_append dns_label_def count_bytes_def)
  have qname: "qname_value ?wire 12 [] True = Some (join_with ''.'' labels, ?pos)"
    unfolding wire using qname_loop_labels [OF assms(3) hdr] assms(2) by simp
  have "?wire = (?hdr @ dns_question labels) @ ?rrs @ rest"
    by (simp add: dns_response_def)
  moreover have "length (?hdr @ dns_question labels) = ?pos + 5"
    using hdr by (simp add: dns_question_def)
  ultimately have "answers_value (length rrs) ?wire (?pos + 5) [] = Some (map snd rrs)"
    using answers_encoded [OF assms(6)] by (metis append_Nil)
  then show ?thesis
    using n first l(2) qname join_labels_nonempty [OF assms(2,3)]
    by (simp add: parse_dns_answers_value Let_def dns_label_ok_def of_nat_small)
qed

theorem dns_roundtrip_witness:
  "parse_dns_answers (dns_response [0x12, 0x34, 0x81, 0x80] [''example'', ''com'']
       [([0, 0, 0, 60], 0x01020304)] @ replicate 10 0) =
   Returned (Some (''example.com'', [0x01020304]))"
proof -
  have "list_all dns_label_ok [''example'', ''com'']"
    by (simp add: dns_label_ok_def valid_str_ascii)
  then show ?thesis
    using dns_roundtrip [of "[0x12, 0x34, 0x81, 0x80]" "[''example'', ''com'']"
        "[([0, 0, 0, 60], 0x01020304)]" "replicate 10 0"]
    by simp
qed

theorem dns_answers_from_wire_witness:
  "\<exists>i \<ge> 17. (0x01020304 :: u32) = address_at (dns_response [0x12, 0x34, 0x81, 0x80] [''a'']
       [([0, 0, 0, 60], 0x01020304)]) i"
proof -
  have "parse_dns_answers (dns_response [0x12, 0x34, 0x81, 0x80] [''a''] [([0, 0, 0, 60], 0x01020304)]) =
      Returned (Some (''a'', [0x01020304]))"
    by code_simp
  from dns_answers_from_wire [OF this] show ?thesis
    by (auto simp: address_at_def)
qed

end
