(* ===== verification/Effects.thy ===== *)
theory Effects
  imports Logging
begin

text \<open>
  What the program does to its surroundings, in the order in which it happens: a call of \<open>log\<close>, the
  success of \<open>set_file_output\<close> (with the lines that the file already had) and a call of the process
  killer.  The components yield lists of effects; \<open>perform\<close> runs the logging part of such a list on
  the state of \<open>logging.rs\<close>.
\<close>

datatype effect = LogEffect log_call | OpenLog "string list" | KillCall u32

abbreviation logs :: "log_call list \<Rightarrow> effect list" where
  "logs \<equiv> map LogEffect"

text \<open>\<open>clock i\<close> is what \<open>get_timestamp\<close> answers at the effect number \<open>i\<close>.\<close>

definition perform_one ::
    "json_writer \<Rightarrow> (nat \<Rightarrow> string) \<Rightarrow> nat \<times> effect \<Rightarrow> log_state \<Rightarrow> log_state" where
  "perform_one json clock numbered st =
     (case snd numbered of
        LogEffect c \<Rightarrow> log json (stamp (clock (fst numbered)) c) st
      | OpenLog ls \<Rightarrow> snd (set_file_output (Ok ls) st)
      | KillCall pid \<Rightarrow> st)"

definition perform ::
    "json_writer \<Rightarrow> (nat \<Rightarrow> string) \<Rightarrow> nat \<Rightarrow> effect list \<Rightarrow> log_state \<Rightarrow> log_state" where
  "perform json clock n es st = fold (perform_one json clock) (enumerate n es) st"

definition kills :: "effect list \<Rightarrow> u32 list" where
  "kills es = List.map_filter (\<lambda>e. case e of KillCall p \<Rightarrow> Some p | _ \<Rightarrow> None) es"

definition logged :: "effect list \<Rightarrow> log_call list" where
  "logged es = List.map_filter (\<lambda>e. case e of LogEffect c \<Rightarrow> Some c | _ \<Rightarrow> None) es"

text \<open>The entries of a list of effects with their time stamps.\<close>

definition stamped :: "(nat \<Rightarrow> string) \<Rightarrow> nat \<Rightarrow> effect list \<Rightarrow> log_entry list" where
  "stamped clock n es =
     List.map_filter (\<lambda>(i, e). case e of LogEffect c \<Rightarrow> Some (stamp (clock i) c) | _ \<Rightarrow> None) (enumerate n es)"

lemma effects_simps [simp]:
  "kills [] = []" "kills (KillCall p # es) = p # kills es" "kills (LogEffect c # es) = kills es"
  "kills (OpenLog ls # es) = kills es"
  "logged [] = []" "logged (KillCall p # es) = logged es" "logged (LogEffect c # es) = c # logged es"
  "logged (OpenLog ls # es) = logged es"
  by (simp_all add: kills_def logged_def)

lemma effects_append [simp]:
  "kills (es @ es') = kills es @ kills es'" "logged (es @ es') = logged es @ logged es'"
  by (simp_all add: kills_def logged_def List.map_filter_def)

lemma effects_logs [simp]: "kills (logs cs) = []" "logged (logs cs) = cs"
  by (induction cs) simp_all

lemma set_logged: "set (logged es) = {c. LogEffect c \<in> set es}"
proof (induction es)
  case (Cons e es)
  then show ?case by (cases e) auto
qed simp

lemma stamped_simps [simp]:
  "stamped clock n [] = []"
  "stamped clock n (LogEffect c # es) = stamp (clock n) c # stamped clock (Suc n) es"
  "stamped clock n (KillCall p # es) = stamped clock (Suc n) es"
  "stamped clock n (OpenLog ls # es) = stamped clock (Suc n) es"
  by (simp_all add: stamped_def)

lemma stamped_append: "stamped clock n (es @ es') = stamped clock n es @ stamped clock (n + length es) es'"
proof (induction es arbitrary: n)
  case (Cons e es)
  then show ?case by (cases e) simp_all
qed simp

lemma perform_simps [simp]:
  "perform json clock n [] st = st"
  "perform json clock n (e # es) st = perform json clock (Suc n) es (perform_one json clock (n, e) st)"
  by (simp_all add: perform_def)

lemma perform_append:
  "perform json clock n (es @ es') st = perform json clock (n + length es) es' (perform json clock n es st)"
  by (induction es arbitrary: n st) simp_all

lemma stamped_calls: "c \<in> set (logged es) \<Longrightarrow> \<exists>i. stamp (clock i) c \<in> set (stamped clock n es)"
proof (induction es arbitrary: n)
  case (Cons e es)
  then show ?case by (cases e) fastforce+
qed simp

text \<open>Every call of \<open>log\<close> prints its line.\<close>

lemma perform_printed:
  "printed (perform json clock n es st) = printed st @ map (log_line json) (stamped clock n es)"
proof (induction es arbitrary: n st)
  case (Cons e es)
  then show ?case
    by (cases e) (simp_all add: perform_one_def log_def set_file_output_def Let_def split: option.split)
qed simp

text \<open>Without another \<open>set_file_output\<close> the log file receives every line that is printed.\<close>

definition opens_log :: "effect list \<Rightarrow> bool" where
  "opens_log es \<longleftrightarrow> (\<exists>ls. OpenLog ls \<in> set es)"

lemma opens_log_simps [simp]:
  "\<not> opens_log []" "opens_log (LogEffect c # es) \<longleftrightarrow> opens_log es"
  "opens_log (KillCall p # es) \<longleftrightarrow> opens_log es" "opens_log (OpenLog ls # es)"
  "opens_log (es @ es') \<longleftrightarrow> opens_log es \<or> opens_log es'" "\<not> opens_log (logs cs)"
  by (auto simp: opens_log_def)

lemma perform_file:
  "\<not> opens_log es \<Longrightarrow> log_file (perform json clock n es st) =
     map_option (\<lambda>ls. ls @ map (log_line json) (stamped clock n es)) (log_file st)"
proof (induction es arbitrary: n st)
  case Nil
  then show ?case by (simp add: option.map_ident)
next
  case (Cons e es)
  then show ?case
    by (cases e; cases "log_file st") (simp_all add: perform_one_def log_def Let_def)
qed

lemma perform_opened:
  assumes "\<not> opens_log es'"
  shows "log_file (perform json clock n (es @ OpenLog ls # es') st) =
     Some (ls @ map (log_line json) (stamped clock (n + length es + 1) es'))"
  using assms by (simp add: perform_append perform_file perform_one_def set_file_output_def)

end
