(* ===== verification/Enforcer.thy ===== *)
theory Enforcer
  imports Policy_Facts Effects
begin

text \<open>
  \<open>enforcer/mod.rs\<close>: the decision on one event of the reactive path.  \<open>enforce\<close> returns its effects
  in the order in which they happen (log entries and the call of the killer) and its result.  The
  killer is an argument, as in the code; \<open>real_killer\<close> is the one used outside tests.
\<close>

section \<open>Definitions\<close>

datatype event_type = Read | Write | Network | Syscall

datatype action = Allow | Log | Kill

datatype kill_reason = PolicyViolation

record event =
  event_pid :: u32
  event_kind :: event_type
  event_target :: string
  event_resolved :: bool

datatype enforce_error = KillFailed u32 io_error

definition enforce_error_message :: "(io_error \<Rightarrow> string) \<Rightarrow> enforce_error \<Rightarrow> string" where
  "enforce_error_message show_io e =
     (case e of KillFailed pid source \<Rightarrow> (''falha ao matar processo '' @ show_nat (unat pid) @ '': '' @ show_io source))"

type_synonym killer = "u32 \<Rightarrow> (io_error, unit) result"

text \<open>\<open>libc_kill pid sig\<close> is the system call, \<open>os_error\<close> the error it leaves; \<open>pid as pid_t\<close> is \<open>sint\<close>.\<close>

definition SIGKILL :: int where
  "SIGKILL = 9"

definition real_killer :: "(int \<Rightarrow> int \<Rightarrow> int) \<Rightarrow> io_error \<Rightarrow> killer" where
  "real_killer libc_kill os_error pid =
     (let res = libc_kill (sint pid) SIGKILL
      in if res = - 1 then Err os_error else Ok ())"

definition et_str :: "event_type \<Rightarrow> string" where
  "et_str t =
     (case t of Read \<Rightarrow> ''read'' | Write \<Rightarrow> ''write'' | Network \<Rightarrow> ''network'' | Syscall \<Rightarrow> ''syscall'')"

definition event_entry :: "string \<Rightarrow> string \<Rightarrow> string \<Rightarrow> string option \<Rightarrow> event \<Rightarrow> effect" where
  "event_entry level component message act ev =
     LogEffect
       \<lparr>call_level = level, call_component = component, call_message = message,
        call_pid = Some (event_pid ev), call_event_type = Some (et_str (event_kind ev)),
        call_target = Some (event_target ev), call_action = act\<rparr>"

text \<open>The expression bound to \<open>allowed\<close>.\<close>

definition event_allowed :: "('re, 'e) regex_api \<Rightarrow> 're policy \<Rightarrow> event \<Rightarrow> bool" where
  "event_allowed api pol ev =
     (case event_kind ev of
        Read \<Rightarrow> path_allowed api pol (event_target ev) False
      | Write \<Rightarrow> path_allowed api pol (event_target ev) True
      | Network \<Rightarrow>
          (if event_target ev = ''<ipv6-nao-suportado>'' \<or> \<not> event_resolved ev then False
           else domain_allowed pol (event_target ev))
      | Syscall \<Rightarrow> \<not> syscall_denied pol (event_target ev))"

definition enforce ::
    "('re, 'e) regex_api \<Rightarrow> 're policy \<Rightarrow> killer \<Rightarrow> event \<Rightarrow>
     effect list \<times> (enforce_error, action) result" where
  "enforce api pol kill ev =
     (let received = event_entry ''info'' ''enforcer_debug'' ''event received'' None ev
      in if event_allowed api pol ev
         then ([received,
                event_entry ''info'' ''enforcer'' ''event allowed by policy'' (Some ''allow'') ev],
               Ok Allow)
         else
           let should_kill =
                 (if event_kind ev = Syscall then should_kill_on_syscall_deny pol (event_target ev)
                  else True)
           in if pol_mode pol = Enforce \<and> should_kill then
                (case kill (event_pid ev) of
                   Inr _ \<Rightarrow>
                     ([received, KillCall (event_pid ev),
                       event_entry ''warn'' ''enforcer'' ''violation detected, process killed''
                         (Some ''kill'') ev],
                      Ok Kill)
                 | Inl source \<Rightarrow>
                     ([received, KillCall (event_pid ev),
                       event_entry ''fatal'' ''enforcer''
                         ''violation detected but failed to kill process'' (Some ''kill_failed'') ev],
                      Err (KillFailed (event_pid ev) source)))
              else
                ([received,
                  event_entry ''warn'' ''enforcer''
                    (if pol_mode pol = Enforce
                     then ''violation detected, allowed without kill (kill_on_deny is false)''
                     else ''violation detected, allowed (monitor mode)'')
                    (Some ''log'') ev],
                 Ok Log))"

section \<open>Facts\<close>

lemma event_entry_effects [simp]:
  "kills (event_entry l c m a ev # es) = kills es"
  "logged (event_entry l c m a ev # es) =
     \<lparr>call_level = l, call_component = c, call_message = m, call_pid = Some (event_pid ev),
      call_event_type = Some (et_str (event_kind ev)), call_target = Some (event_target ev),
      call_action = a\<rparr> # logged es"
  "opens_log (event_entry l c m a ev # es) \<longleftrightarrow> opens_log es"
  by (simp_all add: event_entry_def)

text \<open>When the killer is called.\<close>

definition kill_due :: "('re, 'e) regex_api \<Rightarrow> 're policy \<Rightarrow> event \<Rightarrow> bool" where
  "kill_due api pol ev \<longleftrightarrow> pol_mode pol = Enforce \<and> \<not> event_allowed api pol ev \<and>
     (event_kind ev = Syscall \<longrightarrow> should_kill_on_syscall_deny pol (event_target ev))"

lemma enforce_kills:
  "kills (fst (enforce api pol kill ev)) = (if kill_due api pol ev then [event_pid ev] else [])"
  by (auto simp: enforce_def kill_due_def Let_def split: sum.split)

lemma enforce_result:
  "snd (enforce api pol kill ev) =
     (if event_allowed api pol ev then Inr Allow
      else if kill_due api pol ev
      then (case kill (event_pid ev) of Inr _ \<Rightarrow> Inr Kill | Inl e \<Rightarrow> Inl (KillFailed (event_pid ev) e))
      else Inr Log)"
  by (auto simp: enforce_def kill_due_def Let_def split: sum.split)

text \<open>
  C10. The killer is called at most once, on the process of the event, and exactly when the policy is
  in enforce mode, the event is a violation and, for a system call, the deciding rule asks for it.
  The result is \<open>Kill\<close> or \<open>KillFailed\<close> exactly when it was called, according to its answer.
\<close>

theorem enforce_kills_violations:
  "kills (fst (enforce api pol kill ev)) =
     (if pol_mode pol = Enforce \<and> \<not> event_allowed api pol ev \<and>
         (if event_kind ev = Syscall then should_kill_on_syscall_deny pol (event_target ev) else True)
      then [event_pid ev] else []) \<and>
   (snd (enforce api pol kill ev) = Inr Kill \<longleftrightarrow>
      kills (fst (enforce api pol kill ev)) \<noteq> [] \<and> kill (event_pid ev) = Inr ()) \<and>
   (\<forall>e. snd (enforce api pol kill ev) = Inl (KillFailed (event_pid ev) e) \<longleftrightarrow>
      kills (fst (enforce api pol kill ev)) \<noteq> [] \<and> kill (event_pid ev) = Inl e)"
  by (auto simp: enforce_kills enforce_result kill_due_def split: sum.split)

text \<open>
  Every decision is written to the log: an entry on arrival and one with the outcome, both with
  the process, the kind and the target of the event; the \<open>action\<close> of the second names the result,
  and only a kill that failed is logged as fatal.
\<close>

theorem enforce_audit:
  "\<exists>a b. logged (fst (enforce api pol kill ev)) = [a, b] \<and>
     call_message a = ''event received'' \<and> call_action a = None \<and>
     call_pid b = Some (event_pid ev) \<and> call_target b = Some (event_target ev) \<and>
     call_event_type b = Some (et_str (event_kind ev)) \<and>
     call_action b = Some (case snd (enforce api pol kill ev) of
        Inr Allow \<Rightarrow> ''allow'' | Inr Log \<Rightarrow> ''log'' | Inr Kill \<Rightarrow> ''kill'' | Inl _ \<Rightarrow> ''kill_failed'') \<and>
     (call_level b = ''fatal'' \<longleftrightarrow> \<not> is_ok (snd (enforce api pol kill ev)))"
  by (simp add: enforce_def Let_def split: sum.split)

text \<open>
  A dry run (\<open>force_dry_run\<close>) judges every event as before but never kills: it answers \<open>Allow\<close>
  exactly where the policy does and \<open>Log\<close> everywhere else.
\<close>

theorem dry_run_never_kills:
  "kills (fst (enforce api (force_dry_run pol) kill ev)) = [] \<and>
   snd (enforce api (force_dry_run pol) kill ev) =
     (if snd (enforce api pol kill ev) = Inr Allow then Inr Allow else Inr Log)"
proof -
  have "event_allowed api (force_dry_run pol) ev = event_allowed api pol ev"
    by (simp add: event_allowed_def force_dry_run_def path_allowed_def domain_allowed_def
        syscall_denied_def split: event_type.split)
  then show ?thesis
    by (auto simp: enforce_kills enforce_result kill_due_def force_dry_run_def split: sum.split)
qed

text \<open>
  Zero trust on the network: a connection whose host name is unknown, or to an IPv6 address, is a
  violation under every policy; in enforce mode the process is killed.
\<close>

theorem unresolved_connection_violates:
  assumes "event_kind ev = Network"
    and "\<not> event_resolved ev \<or> event_target ev = ''<ipv6-nao-suportado>''"
  shows "snd (enforce api pol kill ev) \<noteq> Inr Allow \<and>
     (pol_mode pol = Enforce \<longrightarrow> kills (fst (enforce api pol kill ev)) = [event_pid ev])"
proof -
  have "\<not> event_allowed api pol ev"
    using assms by (auto simp: event_allowed_def)
  then show ?thesis
    using assms(1) by (simp add: enforce_kills enforce_result kill_due_def split: sum.split)
qed

theorem unresolved_connection_violates_witness:
  "kills (fst (enforce mini_api (test_policy Enforce) (\<lambda>_. Inr ())
     \<lparr>event_pid = 7, event_kind = Network, event_target = ''1.2.3.4'', event_resolved = False\<rparr>)) = [7]"
  using unresolved_connection_violates [of "\<lparr>event_pid = 7, event_kind = Network,
      event_target = ''1.2.3.4'', event_resolved = False\<rparr>" mini_api "test_policy Enforce" "\<lambda>_. Inr ()"]
  by (simp add: test_policy_def)

text \<open>
  A file access of a loaded policy in enforce mode is answered by a kill unless the globs of the
  file grant it: some allow glob of the access kind covers the path and no deny glob does.
\<close>

theorem file_event_enforced:
  assumes "regex_engine api" and "from_yaml api yaml text = Inr pol" and "globs_valid pol"
    and "valid_str (event_target ev)" and "pol_mode pol = Enforce"
    and "event_kind ev = (if w then Write else Read)"
  shows "kills (fst (enforce api pol kill ev)) = [event_pid ev] \<longleftrightarrow>
     (\<exists>d \<in> set (raw_deny_always pol). glob_covers d (event_target ev)) \<or>
     \<not> (\<exists>a \<in> set (if w then raw_allow_write pol else raw_allow_read pol). glob_covers a (event_target ev))"
proof -
  have "event_allowed api pol ev = path_allowed api pol (event_target ev) w"
    using assms(6) by (simp add: event_allowed_def split: if_splits)
  then show ?thesis
    using assms(5,6) by (simp add: enforce_kills kill_due_def path_allowed_globs [OF assms(1-4)] split: if_splits)
qed

theorem file_event_enforced_witness:
  "kills (fst (enforce mini_api (test_policy Enforce) (\<lambda>_. Inr ())
     \<lparr>event_pid = 7, event_kind = Read, event_target = ''/home/user/projects/app/.env'', event_resolved = True\<rparr>)) = [7]"
proof -
  let ?ev = "\<lparr>event_pid = 7, event_kind = Read, event_target = ''/home/user/projects/app/.env'', event_resolved = True\<rparr>"
  have covers: "glob_covers ''**/.env'' ''/home/user/projects/app/.env''"
    by code_simp
  have "kills (fst (enforce mini_api (test_policy Enforce) (\<lambda>_. Inr ()) ?ev)) = [event_pid ?ev]"
    by (rule file_event_enforced [OF mini.regex_engine_axioms test_policy_loads test_policy_valid,
          where w = False, THEN iffD2])
       (use covers in \<open>simp_all only: test_policy_def valid_str_ascii event.simps policy.simps list.set
          bex_simps simp_thms if_False\<close>, simp add: valid_str_ascii)
  then show ?thesis by simp
qed

end
