(* ===== verification/C_Layout.thy ===== *)
theory C_Layout
  imports Prelude
begin

text \<open>
  The memory layout of \<open>repr(C)\<close> types.  A type is given by its fields; size, alignment and offsets
  follow from the layout rules of C on the 64-bit target.  A structure is written field by field, each
  at its offset.
\<close>

section \<open>Layout rules\<close>

datatype ctype =
    Scalar nat
  | Array nat ctype
  | CStruct "(string \<times> ctype) list"
  | CUnion "(string \<times> ctype) list"

definition round_up :: "nat \<Rightarrow> nat \<Rightarrow> nat" where
  "round_up n a = (n + a - 1) div a * a"

text \<open>Fields as pairs of size and alignment, placed one after the other from a position on.\<close>

fun field_offsets :: "nat \<Rightarrow> (nat \<times> nat) list \<Rightarrow> nat list" where
  "field_offsets pos [] = []"
| "field_offsets pos ((s, a) # fs) = round_up pos a # field_offsets (round_up pos a + s) fs"

fun fields_end :: "nat \<Rightarrow> (nat \<times> nat) list \<Rightarrow> nat" where
  "fields_end pos [] = pos"
| "fields_end pos ((s, a) # fs) = fields_end (round_up pos a + s) fs"

definition max_align :: "(nat \<times> nat) list \<Rightarrow> nat" where
  "max_align fs = foldr (\<lambda>f. max (snd f)) fs 1"

definition max_size :: "(nat \<times> nat) list \<Rightarrow> nat" where
  "max_size fs = foldr (\<lambda>f. max (fst f)) fs 0"

primrec layout :: "ctype \<Rightarrow> nat \<times> nat" where
  "layout (Scalar n) = (n, n)"
| "layout (Array n t) = (n * fst (layout t), snd (layout t))"
| "layout (CStruct fs) =
     (let ls = map snd (map (map_prod id layout) fs)
      in (round_up (fields_end 0 ls) (max_align ls), max_align ls))"
| "layout (CUnion fs) =
     (let ls = map snd (map (map_prod id layout) fs) in (round_up (max_size ls) (max_align ls), max_align ls))"

abbreviation size_of :: "ctype \<Rightarrow> nat" where
  "size_of t \<equiv> fst (layout t)"

abbreviation align_of :: "ctype \<Rightarrow> nat" where
  "align_of t \<equiv> snd (layout t)"

fun members :: "ctype \<Rightarrow> (string \<times> ctype) list" where
  "members (CStruct fs) = fs"
| "members (CUnion fs) = fs"
| "members _ = []"

fun member_offsets :: "ctype \<Rightarrow> nat list" where
  "member_offsets (CStruct fs) = field_offsets 0 (map (layout \<circ> snd) fs)"
| "member_offsets (CUnion fs) = map (\<lambda>_. 0) fs"
| "member_offsets _ = []"

definition offset_of :: "ctype \<Rightarrow> string \<Rightarrow> nat option" where
  "offset_of t name = map_of (zip (map fst (members t)) (member_offsets t)) name"

text \<open>The scalars of the target have a size and alignment of 1, 2, 4 or 8 bytes.\<close>

primrec scalars_ok :: "ctype \<Rightarrow> bool" where
  "scalars_ok (Scalar n) \<longleftrightarrow> n \<in> {1, 2, 4, 8}"
| "scalars_ok (Array n t) \<longleftrightarrow> scalars_ok t"
| "scalars_ok (CStruct fs) \<longleftrightarrow> list_all snd (map (map_prod id scalars_ok) fs)"
| "scalars_ok (CUnion fs) \<longleftrightarrow> list_all snd (map (map_prod id scalars_ok) fs)"

lemma layout_struct:
  "layout (CStruct fs) =
     (round_up (fields_end 0 (map (layout \<circ> snd) fs)) (max_align (map (layout \<circ> snd) fs)),
      max_align (map (layout \<circ> snd) fs))"
  by (simp add: Let_def comp_def)

lemma round_up_props:
  assumes "0 < a"
  shows "n \<le> round_up n a" and "a dvd round_up n a"
proof -
  have "n + a - 1 = (n + a - 1) div a * a + (n + a - 1) mod a" and "(n + a - 1) mod a < a"
    using assms by simp_all
  then show "n \<le> round_up n a"
    unfolding round_up_def by linarith
qed (simp add: round_up_def)

lemma max_align_upper: "f \<in> set fs \<Longrightarrow> snd f \<le> max_align fs"
  by (induction fs) (auto simp: max_align_def le_max_iff_disj)

lemma max_align_pos [simp]: "0 < max_align fs"
  by (induction fs) (auto simp: max_align_def less_max_iff_disj)

text \<open>Every alignment is a power of two, so the largest is a multiple of all.\<close>

lemma max_align_power:
  assumes "\<forall>f \<in> set fs. \<exists>k. snd f = 2 ^ k"
  shows "\<exists>k. max_align fs = 2 ^ k"
  using assms
proof (induction fs)
  case Nil
  have "max_align [] = 2 ^ 0"
    by (simp add: max_align_def)
  then show ?case ..
next
  case (Cons f fs)
  then show ?case
    by (simp add: max_align_def max_def)
qed

lemma max_align_multiple:
  assumes "\<forall>f \<in> set fs. \<exists>k. snd f = 2 ^ k" and "f \<in> set fs"
  shows "snd f dvd max_align fs"
proof -
  obtain j k where "snd f = (2::nat) ^ j" "max_align fs = 2 ^ k"
    using assms max_align_power by blast
  moreover have "(2::nat) ^ j \<le> 2 ^ k"
    using max_align_upper [OF assms(2)] calculation by simp
  ultimately show ?thesis
    by (simp add: le_imp_power_dvd)
qed

lemma ctype_cases [case_names Scalar Array CStruct CUnion]:
  assumes "\<And>n. P (Scalar n)" and "\<And>n t. P t \<Longrightarrow> P (Array n t)"
    and "\<And>fs. (\<And>f. f \<in> set fs \<Longrightarrow> P (snd f)) \<Longrightarrow> P (CStruct fs)"
    and "\<And>fs. (\<And>f. f \<in> set fs \<Longrightarrow> P (snd f)) \<Longrightarrow> P (CUnion fs)"
  shows "P t"
  by (induction t) (auto intro!: assms snds.intros simp: snds.simps)

lemma scalars_ok_members [simp]:
  "scalars_ok (CStruct fs) \<longleftrightarrow> (\<forall>f \<in> set fs. scalars_ok (snd f))"
  "scalars_ok (CUnion fs) \<longleftrightarrow> (\<forall>f \<in> set fs. scalars_ok (snd f))"
  by (simp_all add: list_all_iff)

declare scalars_ok.simps(3,4) [simp del]

lemma align_power:
  "scalars_ok t \<Longrightarrow> \<exists>k. align_of t = 2 ^ k"
proof (induction t rule: ctype_cases)
  case (Scalar n)
  then have "n = 2 ^ 0 \<or> n = 2 ^ 1 \<or> n = 2 ^ 2 \<or> n = 2 ^ 3"
    by auto
  then show ?case
    unfolding layout.simps snd_conv by blast
next
  case (CStruct fs)
  then show ?case
    using max_align_power [of "map (layout \<circ> snd) fs"] by (simp add: layout_struct del: layout.simps)
next
  case (CUnion fs)
  then show ?case
    using max_align_power [of "map (layout \<circ> snd) fs"] by (simp add: Let_def comp_def)
qed simp

lemma offsets_length [simp]: "length (field_offsets pos fs) = length fs"
  by (induction pos fs rule: field_offsets.induct) auto

lemma fields_end_ge:
  assumes "\<forall>f \<in> set fs. 0 < snd f"
  shows "pos \<le> fields_end pos fs"
  using assms
proof (induction pos fs rule: fields_end.induct)
  case (2 pos s a fs)
  then show ?case
    using round_up_props(1) [of a pos] by fastforce
qed simp

lemma offsets_sound:
  assumes "\<forall>f \<in> set fs. 0 < snd f" and "i < length fs"
  shows "pos \<le> field_offsets pos fs ! i \<and> snd (fs ! i) dvd field_offsets pos fs ! i \<and>
    field_offsets pos fs ! i + fst (fs ! i) \<le> fields_end pos fs"
  using assms
proof (induction pos fs arbitrary: i rule: field_offsets.induct)
  case (2 pos s a fs)
  show ?case
  proof (cases i)
    case 0
    then show ?thesis
      using 2 round_up_props [of a pos] fields_end_ge [of fs "round_up pos a + s"] by simp
  next
    case (Suc j)
    then show ?thesis
      using 2 round_up_props(1) [of a pos] by fastforce
  qed
qed simp

lemma offsets_disjoint:
  assumes "\<forall>f \<in> set fs. 0 < snd f" and "i < j" "j < length fs"
  shows "field_offsets pos fs ! i + fst (fs ! i) \<le> field_offsets pos fs ! j"
  using assms
proof (induction pos fs arbitrary: i j rule: field_offsets.induct)
  case (2 pos s a fs)
  then obtain k where j: "j = Suc k" "k < length fs"
    by (cases j) auto
  show ?case
  proof (cases i)
    case 0
    then show ?thesis
      using 2(2) j offsets_sound [of fs k "round_up pos a + s"] by simp
  next
    case (Suc l)
    then show ?thesis
      using 2 j by simp
  qed
qed simp

text \<open>
  The layout of a structure is sound: every field lies inside it, at a multiple of its alignment,
  after all earlier fields; and the structure fits an array, its size being a multiple of its
  alignment, which in turn is a multiple of that of every field.
\<close>

theorem layout_sound:
  assumes "scalars_ok (CStruct fs)" and "i < length fs"
  shows "size_of (CStruct fs) mod align_of (CStruct fs) = 0 \<and>
     align_of (CStruct fs) mod align_of (snd (fs ! i)) = 0 \<and>
     member_offsets (CStruct fs) ! i mod align_of (snd (fs ! i)) = 0 \<and>
     member_offsets (CStruct fs) ! i + size_of (snd (fs ! i)) \<le> size_of (CStruct fs) \<and>
     list_all (\<lambda>j. member_offsets (CStruct fs) ! j + size_of (snd (fs ! j)) \<le> member_offsets (CStruct fs) ! i) [0..<i]"
proof -
  let ?ls = "map (layout \<circ> snd) fs"
  have power: "\<forall>f \<in> set ?ls. \<exists>k. snd f = 2 ^ k"
    using assms(1) by (auto intro: align_power)
  then have pos: "\<forall>f \<in> set ?ls. 0 < snd f"
    by (metis zero_less_numeral zero_less_power)
  have "layout (snd (fs ! i)) \<in> set ?ls"
    using assms(2) by fastforce
  then have "align_of (snd (fs ! i)) dvd max_align ?ls"
    by (rule max_align_multiple [OF power])
  moreover have "list_all (\<lambda>j. field_offsets 0 ?ls ! j + size_of (snd (fs ! j)) \<le> field_offsets 0 ?ls ! i) [0..<i]"
    using offsets_disjoint [OF pos, of _ i] assms(2) by (auto simp: list_all_iff)
  ultimately show ?thesis
    using offsets_sound [OF pos, of i 0] round_up_props [OF max_align_pos [of ?ls], of "fields_end 0 ?ls"] assms(2)
    unfolding layout_struct member_offsets.simps fst_conv snd_conv by (auto simp: dvd_eq_mod_eq_0)
qed

section \<open>Values in memory\<close>

text \<open>The bytes of a structure from those of its fields; what lies between and behind them is zero here.\<close>

fun store_fields :: "nat \<Rightarrow> nat list \<Rightarrow> u8 list list \<Rightarrow> u8 list" where
  "store_fields pos (off # offs) (b # bs) =
     replicate (off - pos) 0 @ b @ store_fields (off + length b) offs bs"
| "store_fields pos _ _ = []"

definition store_struct :: "ctype \<Rightarrow> u8 list list \<Rightarrow> u8 list" where
  "store_struct t bs =
     (let body = store_fields 0 (member_offsets t) bs in body @ replicate (size_of t - length body) 0)"

definition at_member :: "ctype \<Rightarrow> string \<Rightarrow> nat" where
  "at_member t name = the (offset_of t name)"

abbreviation c_ptr :: ctype where "c_ptr \<equiv> Scalar 8"

abbreviation c_ulong :: ctype where "c_ulong \<equiv> Scalar 8"

abbreviation c_uint :: ctype where "c_uint \<equiv> Scalar 4"

abbreviation c_ushort :: ctype where "c_ushort \<equiv> Scalar 2"

abbreviation c_uchar :: ctype where "c_uchar \<equiv> Scalar 1"

text \<open>Layouts of concrete types, computed from the innermost types outwards.\<close>

lemmas layout_arith = round_up_def max_align_def max_size_def

end
