(* ===== verification/Monitor_Event.thy ===== *)
theory Monitor_Event
  imports Dns Enforcer C_Layout
begin

text \<open>
  The decoding half of \<open>Monitor::start\<close> (\<open>monitor/mod.rs\<close>): the layout of a record in the ring
  buffer, the two caches of host names, and the event that one record becomes.
\<close>

section \<open>Layout\<close>

text \<open>
  \<open>#[repr(C)] BpfEvent\<close>, declared once in the eBPF object, which writes the records, and once in
  \<open>monitor/mod.rs\<close>, which casts an item of the ring buffer to it.  A member lies at the offset that the
  layout of its declaration gives it; integers are little-endian.
\<close>

definition kernel_event_type :: ctype where
  "kernel_event_type =
     CStruct [(''pid'', c_uint), (''event_type'', c_uint), (''resolved'', c_uchar), (''target'', Array 256 c_uchar)]"

definition bpf_event_type :: ctype where
  "bpf_event_type =
     CStruct [(''pid'', c_uint), (''event_type'', c_uint), (''resolved'', c_uchar), (''target'', Array 256 c_uchar)]"

definition le_bytes :: "u32 \<Rightarrow> u8 list" where
  "le_bytes w = [ucast w, ucast (drop_bit 8 w), ucast (drop_bit 16 w), ucast (drop_bit 24 w)]"

definition le_u32 :: "u8 list \<Rightarrow> nat \<Rightarrow> u32" where
  "le_u32 bs i = be_u32 (bs ! (i + 3)) (bs ! (i + 2)) (bs ! (i + 1)) (bs ! i)"

definition encode_event :: "bpf_event \<Rightarrow> u8 list" where
  "encode_event e =
     store_struct kernel_event_type [le_bytes (ev_pid e), le_bytes (ev_type e), [ev_resolved e], ev_target e]"

text \<open>\<open>size_of::<BpfEvent>()\<close> and the reads through the cast reference.\<close>

definition size_of_BpfEvent :: nat where
  "size_of_BpfEvent = size_of bpf_event_type"

definition decode_event :: "u8 list \<Rightarrow> bpf_event option" where
  "decode_event item =
     (if length item < size_of_BpfEvent then None
      else Some \<lparr>ev_pid = le_u32 item (at_member bpf_event_type ''pid''),
                 ev_type = le_u32 item (at_member bpf_event_type ''event_type''),
                 ev_resolved = item ! at_member bpf_event_type ''resolved'',
                 ev_target = take 256 (drop (at_member bpf_event_type ''target'') item)\<rparr>)"

lemma event_layouts:
  "layout kernel_event_type = (268, 4)" "member_offsets kernel_event_type = [0, 4, 8, 9]"
  "layout bpf_event_type = (268, 4)" "member_offsets bpf_event_type = [0, 4, 8, 9]"
  by (simp_all add: kernel_event_type_def bpf_event_type_def layout_arith)

lemma event_size [simp]: "size_of_BpfEvent = 268"
  by (simp add: size_of_BpfEvent_def event_layouts)

lemma event_members [simp]:
  "at_member bpf_event_type ''pid'' = 0" "at_member bpf_event_type ''event_type'' = 4"
  "at_member bpf_event_type ''resolved'' = 8" "at_member bpf_event_type ''target'' = 9"
  by (simp_all add: at_member_def offset_of_def event_layouts) (simp_all add: bpf_event_type_def)

section \<open>Decoding\<close>

record dns_caches =
  local_dns_cache :: "u32 \<rightharpoonup> string"
  ip_to_domain :: "u32 \<rightharpoonup> u8 list"

definition no_caches :: dns_caches where
  "no_caches = \<lparr>local_dns_cache = Map.empty, ip_to_domain = Map.empty\<rparr>"

definition event_type_of :: "u32 \<Rightarrow> event_type option" where
  "event_type_of t =
     (if t = EVENT_TYPE_READ then Some Read
      else if t = EVENT_TYPE_EXEC then Some Syscall
      else if t = EVENT_TYPE_NETWORK then Some Network
      else None)"

text \<open>\<open>format!("{}.{}.{}.{}", ...)\<close>\<close>

definition dotted :: "u8 list \<Rightarrow> string" where
  "dotted bs = join_with ''.'' (map (\<lambda>b. show_nat (unat b)) bs)"

text \<open>The zeroed buffer of 256 bytes into which at most 255 bytes of the name are copied.\<close>

definition domain_buffer :: "string \<Rightarrow> u8 list" where
  "domain_buffer name =
     (let copy_len = min (length (as_bytes name)) 255
      in take copy_len (as_bytes name) @ replicate (256 - copy_len) 0)"

text \<open>
  The insertions of one response.  \<open>evict ip\<close> is what the kernel does with the insertion of \<open>ip\<close>: the
  set of dropped entries, or an error as \<open>{:?}\<close> prints it (which the code only logs).
\<close>

type_synonym eviction = "u32 \<Rightarrow> (string, u32 set) result"

definition remember :: "eviction \<Rightarrow> string \<Rightarrow> u32 \<Rightarrow> dns_caches \<Rightarrow> dns_caches" where
  "remember evict name ip c =
     c\<lparr>local_dns_cache := (local_dns_cache c)(ip \<mapsto> name),
       ip_to_domain := (case evict ip of
          Inl e \<Rightarrow> ip_to_domain c
        | Inr victims \<Rightarrow> lru_insert victims (ip_to_domain c) ip (domain_buffer name))\<rparr>"

definition dns_parse_error :: string where
  "dns_parse_error = ''<dns-parse-error>''"

text \<open>\<open>target[..null_pos]\<close>, decoded.\<close>

definition c_str_lossy :: "u8 list \<Rightarrow> string" where
  "c_str_lossy target = from_utf8_lossy (c_string target)"

definition handle_event ::
    "eviction \<Rightarrow> bpf_event \<Rightarrow> dns_caches \<Rightarrow> (dns_caches \<times> event option) run" where
  "handle_event evict be c =
     (case event_type_of (ev_type be) of
        None \<Rightarrow> Returned (c, None)
      | Some kind \<Rightarrow>
          let resolved = (ev_resolved be = 1 \<or> ev_resolved be = 2);
              target = ev_target be
          in if ev_type be = EVENT_TYPE_NETWORK \<and> ev_resolved be = 0 \<and> target ! 0 = 0xAA then
               (let ip_val = be_u32 (target ! 1) (target ! 2) (target ! 3) (target ! 4)
                in (case local_dns_cache c ip_val of
                      Some domain \<Rightarrow>
                        Returned (c, Some \<lparr>event_pid = ev_pid be, event_kind = kind,
                                           event_target = domain, event_resolved = True\<rparr>)
                    | None \<Rightarrow>
                        Returned (c, Some \<lparr>event_pid = ev_pid be, event_kind = kind,
                                           event_target = dotted [target ! 1, target ! 2, target ! 3, target ! 4],
                                           event_resolved = resolved\<rparr>)))
             else if ev_type be = EVENT_TYPE_NETWORK \<and> ev_resolved be = 1 then
               (case parse_dns_answers target of
                  Panicked \<Rightarrow> Panicked
                | Returned parsed \<Rightarrow>
                    let (dns_name, ips) = (case parsed of Some r \<Rightarrow> r | None \<Rightarrow> (dns_parse_error, []))
                    in Returned (fold (remember evict dns_name) ips c,
                                 Some \<lparr>event_pid = ev_pid be, event_kind = kind,
                                       event_target = dns_name, event_resolved = resolved\<rparr>))
             else
               Returned (c, Some \<lparr>event_pid = ev_pid be, event_kind = kind,
                                  event_target =
                                    (if ev_type be = EVENT_TYPE_EXEC then ''execve:'' @ c_str_lossy target
                                     else c_str_lossy target),
                                  event_resolved = resolved\<rparr>))"

text \<open>
  The entries that the same branch writes: the names and addresses of a DNS response, and each
  insertion that the kernel refused.
\<close>

definition debug_ips :: "u32 list \<Rightarrow> string" where
  "debug_ips ips = ''['' @ join_with '', '' (map (\<lambda>ip. show_nat (unat ip)) ips) @ '']''"

definition dns_log :: "eviction \<Rightarrow> bpf_event \<Rightarrow> log_call list" where
  "dns_log evict be =
     (if ev_type be = EVENT_TYPE_NETWORK \<and> ev_resolved be = 1 then
        (case parse_dns_answers (ev_target be) of
           Panicked \<Rightarrow> []
         | Returned parsed \<Rightarrow>
             let (dns_name, ips) = (case parsed of Some r \<Rightarrow> r | None \<Rightarrow> (dns_parse_error, []))
             in info_call ''monitor'' (''DNS resolvido: '' @ dns_name @ '' -> '' @ debug_ips ips) #
                concat (map (\<lambda>ip. case evict ip of
                     Inl e \<Rightarrow> [info_call ''monitor'' (''falha ao inserir IP no mapa IP_TO_DOMAIN: '' @ e)]
                   | Inr _ \<Rightarrow> []) ips))
      else [])"

definition handle_item ::
    "eviction \<Rightarrow> u8 list \<Rightarrow> dns_caches \<Rightarrow> (dns_caches \<times> event option) run" where
  "handle_item evict item c =
     (case decode_event item of
        None \<Rightarrow> Returned (c, None)
      | Some be \<Rightarrow> handle_event evict be c)"

definition item_log :: "eviction \<Rightarrow> u8 list \<Rightarrow> log_call list" where
  "item_log evict item = (case decode_event item of None \<Rightarrow> [] | Some be \<Rightarrow> dns_log evict be)"

section \<open>Layout round trip\<close>

lemma length_le_bytes [simp]: "length (le_bytes w) = 4"
  by (simp add: le_bytes_def)

lemma le_u32_le_bytes: "le_u32 (before @ le_bytes w @ rest) (length before) = w"
  by (simp add: le_u32_def le_bytes_def nth_append be_u32_ip_bytes)

text \<open>The record in memory: the members without a gap, then three bytes of padding.\<close>

definition event_members_bytes :: "bpf_event \<Rightarrow> u8 list" where
  "event_members_bytes e = le_bytes (ev_pid e) @ le_bytes (ev_type e) @ [ev_resolved e] @ ev_target e"

lemma encode_event_bytes: "length (ev_target e) = 256 \<Longrightarrow> encode_event e = event_members_bytes e @ [0, 0, 0]"
  by (simp add: encode_event_def event_members_bytes_def store_struct_def event_layouts eval_nat_numeral)

lemma decode_members:
  assumes "length (ev_target e) = 256" and "3 \<le> length padding"
  shows "decode_event (event_members_bytes e @ padding) = Some e"
proof -
  let ?item = "event_members_bytes e @ padding"
  have "le_u32 ?item 0 = ev_pid e"
    using le_u32_le_bytes [of "[]" "ev_pid e"] by (simp add: event_members_bytes_def)
  moreover have "le_u32 ?item 4 = ev_type e"
    using le_u32_le_bytes [of "le_bytes (ev_pid e)" "ev_type e"] by (simp add: event_members_bytes_def)
  moreover have "?item ! 8 = ev_resolved e" "take 256 (drop 9 ?item) = ev_target e" "268 \<le> length ?item"
    using assms by (simp_all add: event_members_bytes_def nth_append)
  ultimately show ?thesis
    by (simp add: decode_event_def)
qed

lemma decode_encode: "length (ev_target e) = 256 \<Longrightarrow> decode_event (encode_event e) = Some e"
  by (simp add: encode_event_bytes decode_members)

text \<open>
  C40. What the kernel writes is what user space reads: although the two halves declare the record
  separately and the monitor only casts a pointer, every member is found where it was put.  A record is
  as long as the size that the monitor checks; it decodes to the event that was written, whatever stands
  in the padding or behind it, and a shorter item is skipped.
\<close>

theorem event_layout_roundtrip:
  assumes "length (ev_target e) = 256"
  shows "length (encode_event e) = size_of_BpfEvent \<and> decode_event (encode_event e) = Some e \<and>
     (length padding = 3 \<longrightarrow> decode_event (take 265 (encode_event e) @ padding @ rest) = Some e) \<and>
     (n < size_of_BpfEvent \<longrightarrow> decode_event (take n (encode_event e)) = None)"
proof -
  have len: "length (event_members_bytes e) = 265"
    using assms by (simp add: event_members_bytes_def)
  then have "take 265 (encode_event e) = event_members_bytes e"
    using assms by (simp add: encode_event_bytes)
  moreover have "decode_event (take n (encode_event e)) = None" if "n < 268"
    using that by (simp add: decode_event_def min_def)
  ultimately show ?thesis
    using assms len decode_members [OF assms, of "padding @ rest"]
    by (simp add: decode_encode) (simp add: encode_event_bytes)
qed

theorem event_layout_roundtrip_witness:
  "decode_event (encode_event \<lparr>ev_pid = 7, ev_type = 1, ev_resolved = 0, ev_target = replicate 256 0\<rparr>) =
     Some \<lparr>ev_pid = 7, ev_type = 1, ev_resolved = 0, ev_target = replicate 256 0\<rparr>"
  using event_layout_roundtrip [of "\<lparr>ev_pid = 7, ev_type = 1, ev_resolved = 0, ev_target = replicate 256 0\<rparr>"]
  by simp

lemma decode_target: "decode_event item = Some e \<Longrightarrow> length (ev_target e) = 256"
  by (auto simp: decode_event_def split: if_splits)

lemma handle_event_total:
  assumes "length (ev_target be) = 256"
  shows "\<exists>r. handle_event evict be c = Returned r"
proof -
  have "parse_dns_answers (ev_target be) \<noteq> Panicked"
    using assms by (auto simp: parse_dns_answers_value Let_def split: option.splits prod.splits)
  then show ?thesis
    by (auto simp: handle_event_def Let_def split: option.splits run.splits prod.splits)
qed

text \<open>An item that is not handed on writes nothing.\<close>

lemma silent_item: "handle_item evict item c = Returned (c', None) \<Longrightarrow> item_log evict item = []"
  by (auto simp: handle_item_def item_log_def handle_event_def dns_log_def Let_def event_type_of_def
      split: option.splits if_splits run.splits prod.splits)

lemma handle_item_total: "\<exists>r. handle_item evict item c = Returned r"
  using handle_event_total [OF decode_target] by (auto simp: handle_item_def split: option.split)

end
