(* ===== verification/Systems.thy ===== *)
theory Systems
  imports Prelude
begin

text \<open>
  The interface between a component that runs as a sequence of steps and its invariant.  The kernel
  programs, the flags and the caches of the monitor and the start-up protocol of \<open>watch\<close> interpret it.
\<close>

locale step_system =
  fixes init :: "'s \<Rightarrow> bool"
    and step :: "'s \<Rightarrow> 's \<Rightarrow> bool"
    and inv :: "'s \<Rightarrow> bool"
  assumes init_inv: "init s \<Longrightarrow> inv s"
    and step_inv: "step s t \<Longrightarrow> inv s \<Longrightarrow> inv t"
begin

lemma steps_inv: "step\<^sup>*\<^sup>* s t \<Longrightarrow> inv s \<Longrightarrow> inv t"
  by (induction rule: rtranclp_induct) (auto intro: step_inv)

lemma reachable_inv: "init s \<Longrightarrow> step\<^sup>*\<^sup>* s t \<Longrightarrow> inv t"
  by (blast intro: init_inv steps_inv)

lemma never: "init s \<Longrightarrow> step\<^sup>*\<^sup>* s t \<Longrightarrow> (\<And>u. inv u \<Longrightarrow> \<not> bad u) \<Longrightarrow> \<not> bad t"
  using reachable_inv by blast

end

text \<open>
  A detailed system whose states are mapped to those of another one, so that every detailed step is a
  sequence of steps there: what holds of the reachable states of the other one holds of the images.
\<close>

locale step_refinement = step_system init step inv
  for init :: "'s \<Rightarrow> bool" and step :: "'s \<Rightarrow> 's \<Rightarrow> bool" and inv :: "'s \<Rightarrow> bool" +
  fixes detailed_init :: "'d \<Rightarrow> bool"
    and detailed_step :: "'d \<Rightarrow> 'd \<Rightarrow> bool"
    and abs :: "'d \<Rightarrow> 's"
  assumes init_refines: "detailed_init d \<Longrightarrow> init (abs d)"
    and step_refines: "detailed_step d e \<Longrightarrow> step\<^sup>*\<^sup>* (abs d) (abs e)"
begin

lemma steps_refine: "detailed_step\<^sup>*\<^sup>* d e \<Longrightarrow> step\<^sup>*\<^sup>* (abs d) (abs e)"
  by (induction rule: rtranclp_induct) (auto intro: rtranclp_trans step_refines)

lemma refined_inv: "detailed_init d \<Longrightarrow> detailed_step\<^sup>*\<^sup>* d e \<Longrightarrow> inv (abs e)"
  by (blast intro: reachable_inv init_refines steps_refine)

end

text \<open>A relation that every step keeps between the first and the current state.\<close>

locale step_relation =
  fixes step :: "'s \<Rightarrow> 's \<Rightarrow> bool"
    and rel :: "'s \<Rightarrow> 's \<Rightarrow> bool"
  assumes rel_refl: "rel s s"
    and rel_trans: "rel s t \<Longrightarrow> rel t u \<Longrightarrow> rel s u"
    and step_rel: "step s t \<Longrightarrow> rel s t"
begin

lemma steps_rel: "step\<^sup>*\<^sup>* s t \<Longrightarrow> rel s t"
  by (induction rule: rtranclp_induct) (auto intro: rel_refl rel_trans step_rel)

end

end
