(* ===== verification/Monitor_Loop.thy ===== *)
theory Monitor_Loop
  imports Monitor_Event Systems
begin

text \<open>
  The control part of \<open>Monitor\<close> (\<open>monitor/mod.rs\<close>): the exit reason and the \<open>closed\<close> flag that the
  liveness thread, \<open>close\<close> and \<open>drop\<close> share, with their atomic operations as separate steps, and the
  event loop of \<open>start\<close>.
\<close>

section \<open>Exit reason and closed flag\<close>

datatype exit_reason = NoReason | UserRequested | TargetDied

text \<open>Where the liveness thread and a caller of \<open>close\<close> stand between their atomic operations.\<close>

datatype live_pc = LiveLoop | LiveSlept | LiveFound | LiveMarked | LiveDone
datatype close_pc = CloseIdle | CloseMarked

record monitor_flags =
  exit_reason :: exit_reason
  closed :: bool
  live :: live_pc
  closer :: close_pc
  dropped :: bool
  target_dead :: bool

definition new_flags :: monitor_flags where
  "new_flags = \<lparr>exit_reason = NoReason, closed = False, live = LiveLoop, closer = CloseIdle,
                dropped = False, target_dead = False\<rparr>"

text \<open>\<open>compare_exchange(None, new)\<close>\<close>

definition set_reason :: "exit_reason \<Rightarrow> monitor_flags \<Rightarrow> monitor_flags" where
  "set_reason new m = (if exit_reason m = NoReason then m\<lparr>exit_reason := new\<rparr> else m)"

definition exited_because_target_died :: "monitor_flags \<Rightarrow> bool" where
  "exited_because_target_died m = (exit_reason m = TargetDied)"

text \<open>\<open>close\<close> and \<open>drop\<close> run to the end, and the entry of the liveness thread that found the target gone.\<close>

definition close_monitor :: "monitor_flags \<Rightarrow> monitor_flags" where
  "close_monitor m = (set_reason UserRequested m)\<lparr>closed := True\<rparr>"

definition drop_flags :: "monitor_flags \<Rightarrow> monitor_flags" where
  "drop_flags m = m\<lparr>closed := True\<rparr>"

definition live_entry :: "u32 \<Rightarrow> log_call" where
  "live_entry target_pid =
     info_call ''monitor'' (''processo monitorado '' @ show_nat (unat target_pid) @ '' terminou naturalmente, encerrando'')"

inductive flag_step :: "monitor_flags \<Rightarrow> monitor_flags \<Rightarrow> bool" where
  live_sleep: "live m = LiveLoop \<Longrightarrow> \<not> closed m \<Longrightarrow> flag_step m (m\<lparr>live := LiveSlept\<rparr>)"
| live_stop: "live m = LiveLoop \<Longrightarrow> closed m \<Longrightarrow> flag_step m (m\<lparr>live := LiveDone\<rparr>)"
| live_again: "live m = LiveSlept \<Longrightarrow> \<not> target_dead m \<Longrightarrow> flag_step m (m\<lparr>live := LiveLoop\<rparr>)"
| live_gone: "live m = LiveSlept \<Longrightarrow> target_dead m \<Longrightarrow> flag_step m (m\<lparr>live := LiveFound\<rparr>)"
| live_mark: "live m = LiveFound \<Longrightarrow> flag_step m ((set_reason TargetDied m)\<lparr>live := LiveMarked\<rparr>)"
| live_close: "live m = LiveMarked \<Longrightarrow> flag_step m (m\<lparr>closed := True, live := LiveDone\<rparr>)"
| close_mark: "closer m = CloseIdle \<Longrightarrow> flag_step m ((set_reason UserRequested m)\<lparr>closer := CloseMarked\<rparr>)"
| close_store: "closer m = CloseMarked \<Longrightarrow> flag_step m (m\<lparr>closed := True, closer := CloseIdle\<rparr>)"
| drop_monitor: "flag_step m (m\<lparr>closed := True, dropped := True\<rparr>)"
| target_exits: "flag_step m (m\<lparr>target_dead := True\<rparr>)"

inductive_cases flag_stepE: "flag_step m m'"

definition flags_inv :: "monitor_flags \<Rightarrow> bool" where
  "flags_inv m \<longleftrightarrow>
     (closed m \<longrightarrow> dropped m \<or> exit_reason m \<noteq> NoReason) \<and>
     (exit_reason m = TargetDied \<longrightarrow> target_dead m) \<and>
     (live m = LiveFound \<or> live m = LiveMarked \<longrightarrow> target_dead m) \<and>
     (live m = LiveMarked \<or> closer m = CloseMarked \<longrightarrow> exit_reason m \<noteq> NoReason)"

lemma set_reason_frame [simp]:
  "closed (set_reason r m) = closed m" "live (set_reason r m) = live m"
  "closer (set_reason r m) = closer m" "dropped (set_reason r m) = dropped m"
  "target_dead (set_reason r m) = target_dead m"
  "exit_reason (set_reason r m) = (if exit_reason m = NoReason then r else exit_reason m)"
  by (simp_all add: set_reason_def)

interpretation flags: step_system "\<lambda>m. m = new_flags" flag_step flags_inv
proof
  show "m = new_flags \<Longrightarrow> flags_inv m" for m
    by (simp add: flags_inv_def new_flags_def)
  show "flag_step m m' \<Longrightarrow> flags_inv m \<Longrightarrow> flags_inv m'" for m m'
    by (induction rule: flag_step.induct) (auto simp: flags_inv_def)
qed

text \<open>\<open>close\<close> is two steps of the relation.\<close>

lemma close_monitor_steps:
  assumes "closer m = CloseIdle"
  shows "flag_step\<^sup>*\<^sup>* m (close_monitor m)"
proof -
  let ?m = "(set_reason UserRequested m)\<lparr>closer := CloseMarked\<rparr>"
  have "flag_step m ?m"
    by (rule close_mark [OF assms])
  moreover have "flag_step ?m (?m\<lparr>closed := True, closer := CloseIdle\<rparr>)"
    by (rule close_store) simp
  moreover have "?m\<lparr>closed := True, closer := CloseIdle\<rparr> = close_monitor m"
    using assms by (cases m) (simp add: close_monitor_def set_reason_def)
  ultimately show ?thesis
    by (metis rtranclp.rtrancl_into_rtrancl rtranclp.rtrancl_refl)
qed

definition keeps_reason :: "monitor_flags \<Rightarrow> monitor_flags \<Rightarrow> bool" where
  "keeps_reason m m' \<longleftrightarrow>
     (exit_reason m \<noteq> NoReason \<longrightarrow> exit_reason m' = exit_reason m) \<and> (closed m \<longrightarrow> closed m')"

interpretation reason: step_relation flag_step keeps_reason
proof
  show "keeps_reason m m" for m
    by (simp add: keeps_reason_def)
  show "keeps_reason a b \<Longrightarrow> keeps_reason b c \<Longrightarrow> keeps_reason a c" for a b c
    by (auto simp: keeps_reason_def)
  show "flag_step m m' \<Longrightarrow> keeps_reason m m'" for m m'
    by (auto simp: keeps_reason_def elim: flag_stepE)
qed

text \<open>
  C24. However the liveness thread, \<open>close\<close> and \<open>drop\<close> interleave: a monitor that was not dropped is
  closed only after the reason has been recorded; \<open>exited_because_target_died\<close> answers yes only when
  the target is dead; and the first reason recorded is never overwritten, nor is the monitor reopened.
\<close>

theorem exit_reason_recorded:
  assumes "flag_step\<^sup>*\<^sup>* new_flags m" and "flag_step\<^sup>*\<^sup>* m m'"
  shows "(closed m \<and> \<not> dropped m \<longrightarrow> exit_reason m \<noteq> NoReason) \<and>
     (exited_because_target_died m \<longrightarrow> target_dead m) \<and>
     (exit_reason m \<noteq> NoReason \<longrightarrow> exit_reason m' = exit_reason m) \<and>
     (closed m \<longrightarrow> closed m')"
  using flags.reachable_inv [OF refl assms(1)] reason.steps_rel [OF assms(2)]
  by (auto simp: flags_inv_def keeps_reason_def exited_because_target_died_def)

text \<open>The target dies and \<open>close\<close> comes between the two operations of the liveness thread.\<close>

theorem exit_reason_recorded_witness:
  "exited_because_target_died
     (new_flags\<lparr>target_dead := True, exit_reason := TargetDied, live := LiveMarked, closer := CloseMarked\<rparr>) \<and>
   \<not> closed (new_flags\<lparr>target_dead := True, exit_reason := TargetDied, live := LiveMarked, closer := CloseMarked\<rparr>)"
proof -
  let ?m = "new_flags\<lparr>target_dead := True, exit_reason := TargetDied, live := LiveMarked, closer := CloseMarked\<rparr>"
  have s1: "flag_step new_flags (new_flags\<lparr>target_dead := True\<rparr>)"
    by (rule target_exits)
  have s2: "flag_step (new_flags\<lparr>target_dead := True\<rparr>) (new_flags\<lparr>target_dead := True, live := LiveSlept\<rparr>)"
    using live_sleep [of "new_flags\<lparr>target_dead := True\<rparr>"] by (simp add: new_flags_def)
  have s3: "flag_step (new_flags\<lparr>target_dead := True, live := LiveSlept\<rparr>)
      (new_flags\<lparr>target_dead := True, live := LiveFound\<rparr>)"
    using live_gone [of "new_flags\<lparr>target_dead := True, live := LiveSlept\<rparr>"] by simp
  have s4: "flag_step (new_flags\<lparr>target_dead := True, live := LiveFound\<rparr>)
      (new_flags\<lparr>target_dead := True, exit_reason := TargetDied, live := LiveMarked\<rparr>)"
    using live_mark [of "new_flags\<lparr>target_dead := True, live := LiveFound\<rparr>"]
    by (simp add: set_reason_def new_flags_def)
  have s5: "flag_step (new_flags\<lparr>target_dead := True, exit_reason := TargetDied, live := LiveMarked\<rparr>) ?m"
    using close_mark [of "new_flags\<lparr>target_dead := True, exit_reason := TargetDied, live := LiveMarked\<rparr>"]
    by (simp add: set_reason_def new_flags_def)
  have "flag_step\<^sup>*\<^sup>* new_flags ?m"
    using s1 s2 s3 s4 s5 by (meson converse_rtranclp_into_rtranclp rtranclp.rtrancl_refl)
  from exit_reason_recorded [OF this rtranclp.rtrancl_refl]
  have "exited_because_target_died ?m \<longrightarrow> target_dead ?m" by blast
  then show ?thesis
    by (simp add: exited_because_target_died_def new_flags_def)
qed

section \<open>The event loop\<close>

text \<open>
  One round of the loop: the \<open>closed\<close> flag as the round finds it, what \<open>poll\<close> returns, and the items
  that \<open>ring_buf.next()\<close> yields until it is empty.
\<close>

datatype poll_result = PollError io_error | PollTimeout | PollReady bool

record round =
  round_closed :: bool
  round_poll :: poll_result
  round_items :: "u8 list list"

datatype loop_end = StillRunning | LoopPanicked | LoopErr io_error | LoopOk

text \<open>
  What the loop does for one item that it hands on: the entries of a DNS response, then the call of the
  handler with the event.
\<close>

type_synonym delivery = "log_call list \<times> event"

fun handle_items :: "eviction \<Rightarrow> u8 list list \<Rightarrow> dns_caches \<Rightarrow> (dns_caches \<times> delivery list) run" where
  "handle_items evict [] c = Returned (c, [])"
| "handle_items evict (item # items) c =
     (case handle_item evict item c of
        Panicked \<Rightarrow> Panicked
      | Returned (c, ev) \<Rightarrow>
          (case handle_items evict items c of
             Panicked \<Rightarrow> Panicked
           | Returned (c, ds) \<Rightarrow>
               Returned (c, (case ev of None \<Rightarrow> ds | Some e \<Rightarrow> (item_log evict item, e) # ds))))"

fun event_loop :: "eviction \<Rightarrow> round list \<Rightarrow> dns_caches \<Rightarrow> loop_end \<times> dns_caches \<times> delivery list" where
  "event_loop evict [] c = (StillRunning, c, [])"
| "event_loop evict (r # rs) c =
     (if round_closed r then (LoopOk, c, [])
      else
        (case round_poll r of
           PollError err \<Rightarrow>
             (if io_error_kind err = Interrupted then event_loop evict rs c
              else (LoopErr err, c, []))
         | PollTimeout \<Rightarrow> event_loop evict rs c
         | PollReady pollin \<Rightarrow>
             (if pollin then
                (case handle_items evict (round_items r) c of
                   Panicked \<Rightarrow> (LoopPanicked, c, [])
                 | Returned (c, ds) \<Rightarrow>
                     let (e, c, ds') = event_loop evict rs c in (e, c, ds @ ds'))
              else event_loop evict rs c)))"

text \<open>What the rounds deliver to the handler, as one pass over their items.\<close>

definition live_round :: "round \<Rightarrow> bool" where
  "live_round r \<longleftrightarrow> \<not> round_closed r \<and>
     (case round_poll r of PollError e \<Rightarrow> io_error_kind e = Interrupted | _ \<Rightarrow> True)"

definition items_of :: "round \<Rightarrow> u8 list list" where
  "items_of r = (if round_poll r = PollReady True then round_items r else [])"

definition end_of :: "round list \<Rightarrow> loop_end" where
  "end_of rs =
     (case dropWhile live_round rs of
        [] \<Rightarrow> StillRunning
      | r # _ \<Rightarrow>
          if round_closed r then LoopOk
          else (case round_poll r of PollError e \<Rightarrow> LoopErr e | _ \<Rightarrow> StillRunning))"

lemma handle_items_total: "\<exists>c' ds. handle_items evict items c = Returned (c', ds)"
proof (induction items arbitrary: c)
  case Nil
  then show ?case by simp
next
  case (Cons item items)
  obtain c1 ev where "handle_item evict item c = Returned (c1, ev)"
    using handle_item_total by (metis surj_pair)
  moreover obtain c' ds where "handle_items evict items c1 = Returned (c', ds)"
    using Cons.IH by blast
  ultimately show ?case by simp
qed

lemma handle_items_append:
  "handle_items evict items c = Returned (c1, ds) \<Longrightarrow>
   handle_items evict items' c1 = Returned (c2, ds') \<Longrightarrow>
   handle_items evict (items @ items') c = Returned (c2, ds @ ds')"
proof (induction items arbitrary: c ds)
  case Nil
  then show ?case by simp
next
  case (Cons item items)
  from Cons.prems(1) obtain c0 ev ds0 where
    "handle_item evict item c = Returned (c0, ev)" "handle_items evict items c0 = Returned (c1, ds0)"
    "ds = (case ev of None \<Rightarrow> ds0 | Some e \<Rightarrow> (item_log evict item, e) # ds0)"
    by (auto split: run.splits)
  then show ?case
    using Cons.IH [of c0 ds0] Cons.prems(2) by (simp split: option.split)
qed

lemma event_loop_pass:
  "\<exists>c' ds. handle_items evict (concat (map items_of (takeWhile live_round rs))) c = Returned (c', ds) \<and>
     event_loop evict rs c = (end_of rs, c', ds)"
proof (induction rs arbitrary: c)
  case Nil
  then show ?case by (simp add: end_of_def)
next
  case (Cons r rs)
  show ?case
  proof (cases "live_round r")
    case False
    then show ?thesis
      by (auto simp: live_round_def end_of_def split: poll_result.splits)
  next
    case True
    then have open_round: "\<not> round_closed r"
      by (simp add: live_round_def)
    have same_end: "end_of (r # rs) = end_of rs"
      using True by (simp add: end_of_def)
    obtain c1 ds1 where first: "handle_items evict (items_of r) c = Returned (c1, ds1)"
      using handle_items_total by blast
    obtain c2 ds2 where rest: "handle_items evict (concat (map items_of (takeWhile live_round rs))) c1 = Returned (c2, ds2)"
      "event_loop evict rs c1 = (end_of rs, c2, ds2)"
      using Cons.IH by blast
    have "event_loop evict (r # rs) c = (end_of rs, c2, ds1 @ ds2)"
    proof (cases "round_poll r = PollReady True")
      case ready: True
      then show ?thesis
        using open_round first rest(2) by (simp add: items_of_def)
    next
      case False
      then have "c1 = c" "ds1 = []"
        using first by (simp_all add: items_of_def)
      then show ?thesis
        using open_round rest(2) True False by (auto simp: live_round_def split: poll_result.split)
    qed
    then show ?thesis
      using True handle_items_append [OF first rest(1)] same_end by simp
  qed
qed

lemma handle_items_reports:
  assumes "item \<in> set items" and "\<And>c. handle_item evict item c = Returned (c, Some ev)"
    and "handle_items evict items c = Returned (c', ds)"
  shows "ev \<in> snd ` set ds"
  using assms(1,3)
proof (induction items arbitrary: c ds)
  case (Cons i items)
  show ?case
  proof (cases "i = item")
    case True
    then show ?thesis
      using Cons.prems(2) assms(2) by (auto split: run.splits)
  next
    case False
    then show ?thesis
      using Cons by (auto split: run.splits option.splits)
  qed
qed simp

text \<open>
  The records that reach the loop: the items of the rounds before it ends, those shorter than a record
  dropped.  \<open>shows_record\<close> says, of each kind of record that is handed on, which event it is.
\<close>

definition arrived :: "round list \<Rightarrow> bpf_event list" where
  "arrived rs = List.map_filter decode_event (concat (map items_of (takeWhile live_round rs)))"

definition handed_on :: "bpf_event \<Rightarrow> bool" where
  "handed_on be \<longleftrightarrow> ev_type be = EVENT_TYPE_READ \<or> ev_type be = EVENT_TYPE_EXEC \<or> ev_type be = EVENT_TYPE_NETWORK"

definition resolved_name :: "bpf_event \<Rightarrow> string" where
  "resolved_name be = (case parse_dns_answers (ev_target be) of Returned (Some (name, _)) \<Rightarrow> name | _ \<Rightarrow> dns_parse_error)"

definition shows_record :: "bpf_event \<Rightarrow> event \<Rightarrow> bool" where
  "shows_record be ev \<longleftrightarrow> event_pid ev = ev_pid be \<and>
     (if ev_type be = EVENT_TYPE_READ then
        event_kind ev = Read \<and> event_target ev = c_str_lossy (ev_target be)
      else if ev_type be = EVENT_TYPE_EXEC then
        event_kind ev = Syscall \<and> event_target ev = ''execve:'' @ c_str_lossy (ev_target be)
      else
        ev_type be = EVENT_TYPE_NETWORK \<and> event_kind ev = Network \<and>
        (ev_resolved be = 1 \<longrightarrow> event_target ev = resolved_name be) \<and>
        (ev_resolved be \<noteq> 1 \<and> ev_target be ! 0 \<noteq> 0xAA \<longrightarrow> event_target ev = c_str_lossy (ev_target be)) \<and>
        (\<not> event_resolved ev \<longrightarrow> ev_resolved be \<noteq> 1 \<and> ev_resolved be \<noteq> 2))"

lemma handle_event_hands:
  assumes "handle_event evict be c = Returned (c', out)"
  shows "(case out of None \<Rightarrow> \<not> handed_on be | Some ev \<Rightarrow> handed_on be \<and> shows_record be ev)"
proof (cases "ev_type be = EVENT_TYPE_NETWORK")
  case True
  then show ?thesis
    using assms
    by (auto simp: handle_event_def handed_on_def shows_record_def resolved_name_def event_type_of_def Let_def
        split: run.splits option.splits if_splits)
next
  case False
  then show ?thesis
    using assms
    by (auto simp: handle_event_def handed_on_def shows_record_def event_type_of_def Let_def split: if_splits)
qed

lemma handle_items_hands:
  "handle_items evict items c = Returned (c', ds) \<Longrightarrow>
   list_all2 (\<lambda>be d. fst d = dns_log evict be \<and> shows_record be (snd d))
     (filter handed_on (List.map_filter decode_event items)) ds"
proof (induction items arbitrary: c ds)
  case Nil
  then show ?case by (simp add: List.map_filter_def)
next
  case (Cons item items)
  from Cons.prems obtain c1 out ds1 where
    first: "handle_item evict item c = Returned (c1, out)" and
    rest: "handle_items evict items c1 = Returned (c', ds1)" and
    ds: "ds = (case out of None \<Rightarrow> ds1 | Some e \<Rightarrow> (item_log evict item, e) # ds1)"
    by (auto split: run.splits)
  show ?case
  proof (cases "decode_event item")
    case None
    then have "out = None"
      using first by (simp add: handle_item_def)
    then show ?thesis
      using None Cons.IH [OF rest] ds by (simp add: List.map_filter_simps)
  next
    case (Some be)
    then have "handle_event evict be c = Returned (c1, out)"
      using first by (simp add: handle_item_def)
    from handle_event_hands [OF this] show ?thesis
      using Some Cons.IH [OF rest] ds
      by (auto simp: List.map_filter_simps item_log_def split: option.splits)
  qed
qed


end
