(* ===== verification/Monitor_New.thy ===== *)
theory Monitor_New
  imports Monitor_Setup Monitor_Loop
begin

text \<open>
  \<open>Monitor::new\<close>: which programs end up attached, what the maps hold, and which failures end the
  construction.  The environment answers every call into the loader; \<open>links\<close> lists the attached
  programs with their hook, in order.
\<close>

section \<open>Definitions\<close>

datatype 'b monitor_error =
    Bpf 'b
  | Program 'b
  | MapError 'b
  | IO io_error
  | PidDoesNotExist u32
  | LinkCreationFailed

definition monitor_error_message :: "('b \<Rightarrow> string) \<Rightarrow> (io_error \<Rightarrow> string) \<Rightarrow> 'b monitor_error \<Rightarrow> string" where
  "monitor_error_message show_aya show_io e =
     (case e of
        Bpf b \<Rightarrow> (''bpf erro: '' @ show_aya b)
      | Program b \<Rightarrow> (''programa erro: '' @ show_aya b)
      | MapError b \<Rightarrow> (''map erro: '' @ show_aya b)
      | IO io \<Rightarrow> (''io erro: '' @ show_io io)
      | PidDoesNotExist pid \<Rightarrow> (''PID '' @ show_nat (unat pid) @ '' n'' @ [CHR 0xC3, CHR 0xA3] @ ''o existe'')
      | LinkCreationFailed \<Rightarrow> (''cria'' @ [CHR 0xC3, CHR 0xA7, CHR 0xC3, CHR 0xA3] @ ''o de link falhou''))"

text \<open>\<open>kill(pid as pid_t, 0) == 0\<close>\<close>

definition process_exists :: "(int \<Rightarrow> int \<Rightarrow> int) \<Rightarrow> u32 \<Rightarrow> bool" where
  "process_exists libc_kill pid = (libc_kill (sint pid) 0 = 0)"

text \<open>The fallible calls into the loader.\<close>

datatype aya_call =
    LoadObject
  | MapTryFrom string
  | MapInsert string nat               \<comment> \<open>the map and the key\<close>
  | ProgramTryInto string
  | ProgramLoad string
  | ProgramAttach string string

record 'b monitor_env =
  me_kill :: "int \<Rightarrow> int \<Rightarrow> int"                           \<comment> \<open>the system call \<open>kill\<close>\<close>
  me_call :: "aya_call \<Rightarrow> ('b monitor_error, unit) result"
  me_has_map :: "string \<Rightarrow> bool"
  me_has_program :: "string \<Rightarrow> bool"
  me_formats :: "(io_error, string) result list"            \<comment> \<open>the two format files, in order\<close>
  me_bpftool :: "u8 list option"
  me_lsm_file :: "(io_error, string) result"
  me_btf :: "(string, unit) result"                         \<comment> \<open>\<open>Btf::from_sys_fs\<close>, its error as printed\<close>
  me_memlock :: bool                                        \<comment> \<open>\<open>setrlimit\<close> succeeds\<close>
  me_debug :: "'b monitor_error \<Rightarrow> string"
  me_debug_lsm :: "(io_error, string) result \<Rightarrow> string"

type_synonym links = "(string \<times> string) list"

record monitor_built =
  mb_maps :: bpf_state
  mb_links :: links
  mb_flags :: monitor_flags
  mb_caches :: dns_caches

definition not_found :: "string \<Rightarrow> io_error" where
  "not_found name = IoError NotFoundKind (''map '' @ name @ '' n'' @ [CHR 0xC3, CHR 0xA3] @ ''o encontrado'')"

text \<open>\<open>bpf.map_mut(name).ok_or_else(...)?\<close>, then \<open>try_from\<close>.\<close>

definition open_map :: "'b monitor_env \<Rightarrow> string \<Rightarrow> ('b monitor_error, unit) result" where
  "open_map env name =
     (if me_has_map env name then me_call env (MapTryFrom name) else Err (IO (not_found name)))"

definition insert_in ::
    "'b monitor_env \<Rightarrow> string \<Rightarrow> nat \<Rightarrow> (bpf_state \<Rightarrow> bpf_state) \<Rightarrow> bpf_state \<Rightarrow> ('b monitor_error, bpf_state) result" where
  "insert_in env name key upd st = and_then (me_call env (MapInsert name key)) (\<lambda>_. Ok (upd st))"

text \<open>The tables are filled entry by entry, under the keys 0, 1, ...; an object without the map is left alone.\<close>

fun insert_each ::
    "'b monitor_env \<Rightarrow> string \<Rightarrow> (u32 \<Rightarrow> 'v \<Rightarrow> bpf_state \<Rightarrow> bpf_state) \<Rightarrow> nat \<Rightarrow> 'v list \<Rightarrow> bpf_state \<Rightarrow>
     ('b monitor_error, bpf_state) result" where
  "insert_each env name put i [] st = Ok st"
| "insert_each env name put i (v # vs) st =
     and_then (insert_in env name i (put (of_nat i) v) st) (\<lambda>st. insert_each env name put (i + 1) vs st)"

definition fill_map ::
    "'b monitor_env \<Rightarrow> string \<Rightarrow> (u32 \<Rightarrow> 'v \<Rightarrow> bpf_state \<Rightarrow> bpf_state) \<Rightarrow> 'v list \<Rightarrow> bpf_state \<Rightarrow>
     ('b monitor_error, bpf_state) result" where
  "fill_map env name put entries st =
     (if me_has_map env name
      then and_then (me_call env (MapTryFrom name)) (\<lambda>_. insert_each env name put 0 entries st)
      else Ok st)"

definition fill_tables ::
    "'b monitor_env \<Rightarrow> 're policy \<Rightarrow> sync_compiled_policy \<Rightarrow> bpf_state \<Rightarrow> ('b monitor_error, bpf_state) result" where
  "fill_tables env pol c st =
     and_then (fill_map env ''ENFORCE_MODE''
       (\<lambda>i v. ENFORCE_MODE_update (\<lambda>m. map_insert m i v)) [mode_val (pol_mode pol)] st) (\<lambda>st.
     and_then (fill_map env ''ALLOW_READ_PREFIXES''
       (\<lambda>i v. ALLOW_READ_PREFIXES_update (\<lambda>m. map_insert m i v)) (allow_read_prefixes c) st) (\<lambda>st.
     and_then (fill_map env ''ALLOW_WRITE_PREFIXES''
       (\<lambda>i v. ALLOW_WRITE_PREFIXES_update (\<lambda>m. map_insert m i v)) (allow_write_prefixes c) st) (\<lambda>st.
     and_then (fill_map env ''DENY_ALWAYS_PREFIXES''
       (\<lambda>i v. DENY_ALWAYS_PREFIXES_update (\<lambda>m. map_insert m i v)) (deny_always_prefixes c) st) (\<lambda>st.
     fill_map env ''DENY_SYSCALLS_RULES''
       (\<lambda>i r. DENY_SYSCALLS_RULES_update (\<lambda>m. map_insert m i (bpf_rule r))) (deny_syscalls_rules c) st))))"

abbreviation says :: "string \<Rightarrow> log_call" where
  "says \<equiv> info_call ''monitor''"

text \<open>One LSM hook: \<open>None\<close> when the object has no such program (\<open>attach_ok = false\<close>).\<close>

definition attach_lsm ::
    "'b monitor_env \<Rightarrow> string \<Rightarrow> string \<Rightarrow> links \<Rightarrow> ('b monitor_error, links option) logged_result" where
  "attach_lsm env prog hook links =
     (if me_has_program env prog then
        (case me_call env (ProgramTryInto prog) of
           Inl e \<Rightarrow> ([says (''falha ao carregar '' @ prog @ '': '' @ me_debug env e)], Err e)
         | Inr _ \<Rightarrow>
             quiet
               (and_then (me_call env (ProgramLoad prog)) (\<lambda>_.
                and_then (me_call env (ProgramAttach prog hook)) (\<lambda>_.
                Ok (Some (links @ [(prog, hook)]))))))
      else saying [says (''LSM '' @ prog @ '' n'' @ [CHR 0xC3, CHR 0xA3] @ ''o encontrado'')] None)"

text \<open>The synchronous attempt: whether the hooks are in force, the links and the maps.\<close>

definition lsm_failed :: "bool \<times> links \<times> bpf_state \<Rightarrow> ('b monitor_error, bool \<times> links \<times> bpf_state) logged_result" where
  "lsm_failed r = saying [says ''Falha ao atrelar hooks LSM. Caindo para modo reativo.''] r"

definition attach_hooks ::
    "'b monitor_env \<Rightarrow> 're policy \<Rightarrow> sync_compiled_policy \<Rightarrow> bpf_state \<Rightarrow>
     ('b monitor_error, bool \<times> links \<times> bpf_state) logged_result" where
  "attach_hooks env pol c st =
     (case me_btf env of
        Inl e \<Rightarrow> and_log (saying [says (''falha ao carregar BTF do kernel: '' @ e)] ()) (\<lambda>_. lsm_failed (False, [], st))
      | Inr _ \<Rightarrow>
          and_log (attach_lsm env ''lsm_file_open'' ''file_open'' []) (\<lambda>fo.
          case fo of
            None \<Rightarrow> lsm_failed (False, [], st)
          | Some links \<Rightarrow>
              and_log (attach_lsm env ''lsm_exec_check'' ''bprm_check_security'' links) (\<lambda>ec.
              case ec of
                None \<Rightarrow> lsm_failed (False, links, st)
              | Some links \<Rightarrow>
                  and_log (quiet (fill_tables env pol c st)) (\<lambda>st.
                  saying [says (''Modo de enforcement s'' @ [CHR 0xC3, CHR 0xAD] @ ''ncrono (BPF LSM) ativado com sucesso.'')] (True, links, st)))))"

definition attach_sync ::
    "'b monitor_env \<Rightarrow> 're policy \<Rightarrow> bpf_state \<Rightarrow>
     ('b monitor_error, bool \<times> links \<times> bpf_state) logged_result" where
  "attach_sync env pol st =
     (let (detected, mode) = detect_enforcement_mode (me_debug_lsm env) (me_lsm_file env) in
      and_log (saying detected ()) (\<lambda>_.
      if mode = Sync then
        and_log (saying [says (''Tentando inicializar modo s'' @ [CHR 0xC3, CHR 0xAD] @ ''ncrono (BPF LSM)...'')] ()) (\<lambda>_.
        case try_compile_for_sync pol of
          Inr c \<Rightarrow> attach_hooks env pol c st
        | Inl e \<Rightarrow>
            saying [says (''N'' @ [CHR 0xC3, CHR 0xA3] @ ''o foi poss'' @ [CHR 0xC3, CHR 0xAD] @ ''vel carregar pol'' @ [CHR 0xC3, CHR 0xAD] @ ''tica no modo s'' @ [CHR 0xC3, CHR 0xAD] @ ''ncrono (caindo para modo reativo): '' @ sync_error_message e)]
              (False, [], st))
      else
        saying [says (''Modo s'' @ [CHR 0xC3, CHR 0xAD] @ ''ncrono (BPF LSM) indispon'' @ [CHR 0xC3, CHR 0xAD] @ ''vel. Ativando modo reativo.'')] (False, [], st)))"

definition attach_tracepoint ::
    "'b monitor_env \<Rightarrow> string \<Rightarrow> string \<Rightarrow> links \<Rightarrow> ('b monitor_error, links) result" where
  "attach_tracepoint env prog tp links =
     (if me_has_program env prog then
        and_then (me_call env (ProgramTryInto prog)) (\<lambda>_.
        and_then (me_call env (ProgramLoad prog)) (\<lambda>_.
        and_then (me_call env (ProgramAttach prog tp)) (\<lambda>_.
        Ok (links @ [(prog, tp)]))))
      else Ok links)"

text \<open>A kprobe that cannot be attached is only logged.\<close>

definition attach_kprobe ::
    "'b monitor_env \<Rightarrow> string \<Rightarrow> string \<Rightarrow> links \<Rightarrow> ('b monitor_error, links) logged_result" where
  "attach_kprobe env prog fn links =
     (case me_call env (ProgramAttach prog fn) of
        Inr _ \<Rightarrow> saying [] (links @ [(prog, fn)])
      | Inl e \<Rightarrow> saying [says (''falha ao atrelar kprobe '' @ fn @ '': '' @ me_debug env e)] links)"

definition attach_common :: "'b monitor_env \<Rightarrow> links \<Rightarrow> ('b monitor_error, links) result" where
  "attach_common env links =
     and_then (attach_tracepoint env ''handle_fork'' ''sched_process_fork'' links) (\<lambda>links.
     and_then (attach_tracepoint env ''handle_exit'' ''sched_process_exit'' links) (\<lambda>links.
     and_then (attach_tracepoint env ''handle_connect'' ''sys_enter_connect'' links) (\<lambda>links.
     and_then (attach_tracepoint env ''handle_sendto'' ''sys_enter_sendto'' links) (\<lambda>links.
     and_then (attach_tracepoint env ''handle_enter_recvfrom'' ''sys_enter_recvfrom'' links) (\<lambda>links.
     attach_tracepoint env ''handle_exit_recvfrom'' ''sys_exit_recvfrom'' links)))))"

definition attach_reactive :: "'b monitor_env \<Rightarrow> links \<Rightarrow> ('b monitor_error, links) logged_result" where
  "attach_reactive env links =
     and_log
       (if me_has_program env ''handle_open'' then
          and_log (quiet (me_call env (ProgramTryInto ''handle_open''))) (\<lambda>_.
          and_log (quiet (me_call env (ProgramLoad ''handle_open''))) (\<lambda>_.
          and_log (attach_kprobe env ''handle_open'' ''do_sys_open'' links) (\<lambda>links.
          attach_kprobe env ''handle_open'' ''do_sys_openat2'' links)))
        else saying [] links) (\<lambda>links.
     and_log (quiet (attach_tracepoint env ''handle_execve'' ''sys_enter_execve'' links)) (\<lambda>links.
     quiet (attach_tracepoint env ''handle_ptrace'' ''sys_enter_ptrace'' links)))"

text \<open>The first format file that can be read, and the two offsets of the fork tracepoint.\<close>

fun first_readable :: "(io_error, string) result list \<Rightarrow> string option" where
  "first_readable [] = None"
| "first_readable (Inr s # rs) = Some s"
| "first_readable (Inl e # rs) = first_readable rs"

definition fork_offsets :: "string option \<Rightarrow> u32 \<times> u32" where
  "fork_offsets format_data =
     (case format_data of
        Some data \<Rightarrow>
          (case parse_tracepoint_offset data ''parent_pid'' of Some off \<Rightarrow> off | None \<Rightarrow> 12,
           case parse_tracepoint_offset data ''child_pid'' of Some off \<Rightarrow> off | None \<Rightarrow> 20)
      | None \<Rightarrow> (12, 20))"

definition set_offset :: "u32 \<Rightarrow> u32 \<Rightarrow> bpf_state \<Rightarrow> bpf_state" where
  "set_offset i v = OFFSETS_update (\<lambda>m. map_insert m i v)"

definition fill_offsets :: "'b monitor_env \<Rightarrow> bpf_state \<Rightarrow> ('b monitor_error, bpf_state) result" where
  "fill_offsets env st =
     (let (parent_offset, child_offset) = fork_offsets (first_readable (me_formats env)) in
      and_then (insert_in env ''OFFSETS'' 1 (set_offset 1 parent_offset) st) (\<lambda>st.
      and_then (insert_in env ''OFFSETS'' 2 (set_offset 2 child_offset) st) (\<lambda>st.
      insert_in env ''OFFSETS'' 3 (set_offset 3 (resolve_btf_offsets (me_bpftool env))) st)))"

definition offsets_log :: "'b monitor_env \<Rightarrow> log_call list" where
  "offsets_log env =
     [case first_readable (me_formats env) of
        Some data \<Rightarrow>
          let (parent_offset, child_offset) = fork_offsets (Some data)
          in says (''Offsets detectados em runtime para sched_process_fork: parent_pid='' @ show_nat (unat parent_offset) @ '', child_pid='' @ show_nat (unat child_offset))
      | None \<Rightarrow> says (''falha ao ler formato do tracepoint sched_process_fork, usando fallbacks padr'' @ [CHR 0xC3, CHR 0xA3] @ ''o (12/20)''),
      says (''Offsets din'' @ [CHR 0xC3, CHR 0xA2] @ ''micos estruturais resolvidos: f_mode='' @ show_nat (unat (resolve_btf_offsets (me_bpftool env))))]"

definition monitor_new ::
    "'b monitor_env \<Rightarrow> u32 \<Rightarrow> 're policy \<Rightarrow> ('b monitor_error, monitor_built) logged_result" where
  "monitor_new env target_pid pol =
     (if \<not> process_exists (me_kill env) target_pid then quiet (Err (PidDoesNotExist target_pid))
      else
     and_log
       (saying (if me_memlock env then []
                else [says ''falha ao remover limite memlock (pode ser normal em kernel novo)'']) ()) (\<lambda>_.
     and_log (quiet (me_call env LoadObject)) (\<lambda>_.
     and_log (quiet (open_map env ''MONITORED_PIDS'')) (\<lambda>_.
     and_log (quiet (insert_in env ''MONITORED_PIDS'' (unat target_pid)
       (\<lambda>s. s\<lparr>MONITORED_PIDS := map_insert (MONITORED_PIDS s) target_pid 1\<rparr>) initial_maps)) (\<lambda>st.
     and_log (quiet (open_map env ''OFFSETS'')) (\<lambda>_.
     and_log (saying (butlast (offsets_log env)) ()) (\<lambda>_.
     and_log (quiet (fill_offsets env st)) (\<lambda>st.
     and_log (saying [last (offsets_log env)] ()) (\<lambda>_.
     and_log (quiet (open_map env ''IP_TO_DOMAIN'')) (\<lambda>_.
     and_log (attach_sync env pol st) (\<lambda>(lsm_attached, links, st).
     and_log (quiet (attach_common env links)) (\<lambda>links.
     and_log (if lsm_attached then saying [] links else attach_reactive env links) (\<lambda>links.
     saying []
       \<lparr>mb_maps = st, mb_links = links, mb_flags = new_flags,
        mb_caches = no_caches\<rparr>)))))))))))))"

section \<open>Facts\<close>

text \<open>A successful run of insertions writes the whole list, whatever the field it goes to.\<close>

lemma insert_each_Inr:
  assumes "\<And>f g st. upd f (upd g st) = upd (f \<circ> g) st" and "\<And>st. upd (\<lambda>m. m) st = st"
    and "insert_each env name (\<lambda>i v. upd (\<lambda>m. map_insert m i (h v))) i vs st = Inr st'"
  shows "st' = upd (insert_all i (map h vs)) st"
  using assms(3)
proof (induction vs arbitrary: i st)
  case Nil
  moreover have "insert_all i [] = (\<lambda>m. m)"
    by auto
  ultimately show ?case by (simp add: assms(2))
next
  case (Cons v vs)
  then have "insert_each env name (\<lambda>i v. upd (\<lambda>m. map_insert m i (h v))) (i + 1) vs
      (upd (\<lambda>m. map_insert m (of_nat i) (h v)) st) = Inr st'"
    by (auto simp: insert_in_def and_then_Inr)
  from Cons.IH [OF this]
  have "st' = upd (insert_all (i + 1) (map h vs) \<circ> (\<lambda>m. map_insert m (of_nat i) (h v))) st"
    by (simp only: assms(1))
  moreover have "insert_all i (map h (v # vs)) = insert_all (i + 1) (map h vs) \<circ> (\<lambda>m. map_insert m (of_nat i) (h v))"
    by (simp add: fun_eq_iff)
  ultimately show ?case
    by (simp only:)
qed

lemma fill_map_Inr:
  assumes "fill_map env name (\<lambda>i v. upd (\<lambda>m. map_insert m i (h v))) vs st = Inr st'" and "me_has_map env name"
    and "\<And>f g st. upd f (upd g st) = upd (f \<circ> g) st" and "\<And>st. upd (\<lambda>m. m) st = st"
  shows "st' = upd (insert_all 0 (map h vs)) st"
  using assms(1,2) insert_each_Inr [of upd, OF assms(3,4)] by (auto simp: fill_map_def and_then_Inr)

lemma fill_field_Inr:
  "fill_map env ''ENFORCE_MODE'' (\<lambda>i v. ENFORCE_MODE_update (\<lambda>m. map_insert m i v)) es st = Inr st' \<Longrightarrow> me_has_map env ''ENFORCE_MODE'' \<Longrightarrow>
     st' = ENFORCE_MODE_update (insert_all 0 es) st"
  "fill_map env ''ALLOW_READ_PREFIXES'' (\<lambda>i v. ALLOW_READ_PREFIXES_update (\<lambda>m. map_insert m i v)) rd st = Inr st' \<Longrightarrow> me_has_map env ''ALLOW_READ_PREFIXES'' \<Longrightarrow>
     st' = ALLOW_READ_PREFIXES_update (insert_all 0 rd) st"
  "fill_map env ''ALLOW_WRITE_PREFIXES'' (\<lambda>i v. ALLOW_WRITE_PREFIXES_update (\<lambda>m. map_insert m i v)) wr st = Inr st' \<Longrightarrow> me_has_map env ''ALLOW_WRITE_PREFIXES'' \<Longrightarrow>
     st' = ALLOW_WRITE_PREFIXES_update (insert_all 0 wr) st"
  "fill_map env ''DENY_ALWAYS_PREFIXES'' (\<lambda>i v. DENY_ALWAYS_PREFIXES_update (\<lambda>m. map_insert m i v)) dn st = Inr st' \<Longrightarrow> me_has_map env ''DENY_ALWAYS_PREFIXES'' \<Longrightarrow>
     st' = DENY_ALWAYS_PREFIXES_update (insert_all 0 dn) st"
  "fill_map env ''DENY_SYSCALLS_RULES'' (\<lambda>i r. DENY_SYSCALLS_RULES_update (\<lambda>m. map_insert m i (bpf_rule r))) rs st = Inr st' \<Longrightarrow>
     me_has_map env ''DENY_SYSCALLS_RULES'' \<Longrightarrow> st' = DENY_SYSCALLS_RULES_update (insert_all 0 (map bpf_rule rs)) st"
  subgoal using fill_map_Inr [of env _ ENFORCE_MODE_update "\<lambda>v. v" es st st'] by simp
  subgoal using fill_map_Inr [of env _ ALLOW_READ_PREFIXES_update "\<lambda>v. v" rd st st'] by simp
  subgoal using fill_map_Inr [of env _ ALLOW_WRITE_PREFIXES_update "\<lambda>v. v" wr st st'] by simp
  subgoal using fill_map_Inr [of env _ DENY_ALWAYS_PREFIXES_update "\<lambda>v. v" dn st st'] by simp
  subgoal using fill_map_Inr [of env _ DENY_SYSCALLS_RULES_update "bpf_rule" rs st st'] by simp
  done

text \<open>When every call is answered, nothing fails.\<close>

lemma insert_each_ok:
  "(\<And>k. me_call env k = Inr ()) \<Longrightarrow> \<exists>st'. insert_each env name put i vs st = Inr st'"
  by (induction vs arbitrary: i st) (simp_all add: insert_in_def)

lemma fill_map_ok: "(\<And>k. me_call env k = Inr ()) \<Longrightarrow> \<exists>st'. fill_map env name put vs st = Inr st'"
  by (simp add: fill_map_def insert_each_ok)

lemma and_then_ok:
  "\<exists>a. r = Inr a \<Longrightarrow> (\<And>a. \<exists>b. f a = Inr b) \<Longrightarrow> \<exists>b. and_then r f = Inr b"
  by auto

lemma fill_tables_ok:
  assumes "\<And>k. me_call env k = Inr ()"
  shows "\<exists>st'. fill_tables env pol c st = Inr st'"
  unfolding fill_tables_def by (intro and_then_ok fill_map_ok assms)

definition set_offsets :: "'b monitor_env \<Rightarrow> bpf_state \<Rightarrow> bpf_state" where
  "set_offsets env st =
     (let (parent_offset, child_offset) = fork_offsets (first_readable (me_formats env))
      in st\<lparr>OFFSETS := map_insert (map_insert (map_insert (OFFSETS st) 1 parent_offset) 2 child_offset)
                         3 (resolve_btf_offsets (me_bpftool env))\<rparr>)"

lemma fill_offsets_Inr: "fill_offsets env st = Inr st' \<Longrightarrow> st' = set_offsets env st"
  by (auto simp: fill_offsets_def set_offsets_def set_offset_def insert_in_def and_then_Inr split: prod.splits)

lemma fill_offsets_ok: "(\<And>k. me_call env k = Inr ()) \<Longrightarrow> fill_offsets env st = Inr (set_offsets env st)"
  by (simp add: fill_offsets_def set_offsets_def set_offset_def insert_in_def split: prod.split)

definition table_maps :: "string list" where
  "table_maps = [''ENFORCE_MODE'', ''ALLOW_READ_PREFIXES'', ''ALLOW_WRITE_PREFIXES'',
     ''DENY_ALWAYS_PREFIXES'', ''DENY_SYSCALLS_RULES'']"

lemma fill_tables_Inr:
  assumes "fill_tables env pol c st = Inr st'" and "list_all (me_has_map env) table_maps"
  shows "st' = populate_maps pol c st"
  using assms
  by (auto simp: fill_tables_def and_then_Inr table_maps_def populate_maps_def dest!: fill_field_Inr)

lemma attach_tracepoint_Inr:
  "attach_tracepoint env prog tp links = Inr links' \<Longrightarrow>
   links' = links @ (if me_has_program env prog then [(prog, tp)] else [])"
  by (auto simp: attach_tracepoint_def and_then_Inr split: if_splits)

lemma attach_lsm_Inr:
  "snd (attach_lsm env prog hook links) = Inr r \<Longrightarrow>
   r = (if me_has_program env prog then Some (links @ [(prog, hook)]) else None)"
  by (auto simp: attach_lsm_def and_then_Inr split: if_splits sum.splits)

definition common_programs :: "(string \<times> string) list" where
  "common_programs =
     [(''handle_fork'', ''sched_process_fork''), (''handle_exit'', ''sched_process_exit''),
      (''handle_connect'', ''sys_enter_connect''), (''handle_sendto'', ''sys_enter_sendto''),
      (''handle_enter_recvfrom'', ''sys_enter_recvfrom''), (''handle_exit_recvfrom'', ''sys_exit_recvfrom'')]"

definition lsm_programs :: "(string \<times> string) list" where
  "lsm_programs = [(''lsm_file_open'', ''file_open''), (''lsm_exec_check'', ''bprm_check_security'')]"

definition complete_object :: "'b monitor_env \<Rightarrow> bool" where
  "complete_object env \<longleftrightarrow> (\<forall>p. me_has_program env p) \<and> (\<forall>m. me_has_map env m)"

lemma attach_common_Inr:
  assumes "attach_common env links = Inr links'" and "complete_object env"
  shows "links' = links @ common_programs"
  using assms
  by (auto simp: attach_common_def and_then_Inr complete_object_def common_programs_def
      dest!: attach_tracepoint_Inr)

text \<open>
  The program of the file events goes to two kernel functions; a refusal of either is only logged, so
  that only the accepted ones are attached.
\<close>

definition open_probes :: "'b monitor_env \<Rightarrow> (string \<times> string) list" where
  "open_probes env =
     filter (\<lambda>(prog, fn). is_ok (me_call env (ProgramAttach prog fn)))
       [(''handle_open'', ''do_sys_open''), (''handle_open'', ''do_sys_openat2'')]"

lemma attach_reactive_Inr:
  assumes "snd (attach_reactive env links) = Inr links'" and "complete_object env"
  shows "links' = links @ open_probes env @
     [(''handle_execve'', ''sys_enter_execve''), (''handle_ptrace'', ''sys_enter_ptrace'')]"
  using assms
  by (auto simp: attach_reactive_def and_then_Inr complete_object_def attach_kprobe_def open_probes_def is_ok_def
      dest!: attach_tracepoint_Inr split: sum.splits)

lemma attach_sync_steps:
  "snd (attach_sync env pol st) =
     (if bpf_lsm_available (me_lsm_file env) then
        (case try_compile_for_sync pol of
           Inl e \<Rightarrow> Ok (False, [], st)
         | Inr c \<Rightarrow> snd (attach_hooks env pol c st))
      else Ok (False, [], st))"
proof -
  obtain detected where
    "detect_enforcement_mode (me_debug_lsm env) (me_lsm_file env) =
       (detected, if bpf_lsm_available (me_lsm_file env) then Sync else Reactive)"
    using detect_mode [of "me_debug_lsm env" "me_lsm_file env"] by (metis prod.collapse)
  then show ?thesis
    by (simp add: attach_sync_def split: sum.split)
qed

lemma attach_hooks_Inr:
  assumes "snd (attach_hooks env pol c st) = Inr (att, links, st')" and "complete_object env"
  shows "if is_ok (me_btf env) then att \<and> links = lsm_programs \<and> st' = populate_maps pol c st
     else \<not> att \<and> links = [] \<and> st' = st"
proof -
  have maps: "list_all (me_has_map env) table_maps" and progs: "me_has_program env p" for p
    using assms(2) by (simp_all add: complete_object_def table_maps_def)
  show ?thesis
    using assms(1) progs
    by (cases "me_btf env")
       (auto simp: attach_hooks_def lsm_failed_def and_then_Inr lsm_programs_def fill_tables_Inr [OF _ maps]
         dest!: attach_lsm_Inr)
qed

lemma attach_sync_Inr:
  assumes "snd (attach_sync env pol st) = Inr (att, links, st')" and "complete_object env"
  shows "(att \<and> bpf_lsm_available (me_lsm_file env) \<and> is_ok (me_btf env) \<and> links = lsm_programs \<and>
           (\<exists>c. try_compile_for_sync pol = Inr c \<and> st' = populate_maps pol c st)) \<or>
         (\<not> att \<and> links = [] \<and> st' = st \<and>
           (\<not> bpf_lsm_available (me_lsm_file env) \<or> \<not> is_ok (try_compile_for_sync pol) \<or> \<not> is_ok (me_btf env)))"
proof (cases "bpf_lsm_available (me_lsm_file env) \<and> is_ok (try_compile_for_sync pol)")
  case False
  then show ?thesis
    using assms(1) by (auto simp: attach_sync_steps split: sum.splits if_splits)
next
  case True
  then obtain c where c: "try_compile_for_sync pol = Inr c"
    by (cases "try_compile_for_sync pol") auto
  with True assms(1) have "snd (attach_hooks env pol c st) = Inr (att, links, st')"
    by (simp add: attach_sync_steps)
  from attach_hooks_Inr [OF this assms(2)] True c show ?thesis
    by (auto split: if_splits)
qed

lemma monitor_new_steps:
  assumes "snd (monitor_new env pid pol) = Inr m"
  obtains att links st links' where
    "process_exists (me_kill env) pid"
    "snd (attach_sync env pol (set_offsets env (initial_maps\<lparr>MONITORED_PIDS := map_insert Map.empty pid 1\<rparr>))) = Inr (att, links, st)"
    "attach_common env links = Inr links'"
    "(if att then Ok links' else snd (attach_reactive env links')) = Inr (mb_links m)" "mb_maps m = st"
    "mb_flags m = new_flags"
    "mb_caches m = no_caches"
  using assms
  by (auto simp: monitor_new_def insert_in_def and_then_Inr initial_maps_def split: if_splits dest!: fill_offsets_Inr)

lemma monitor_new_modes:
  assumes "snd (monitor_new env pid pol) = Inr m" and "complete_object env"
  shows "is_monitored (mb_maps m) pid \<and> set common_programs \<subseteq> set (mb_links m) \<and>
     ((bpf_lsm_available (me_lsm_file env) \<and> is_ok (me_btf env) \<and>
      mb_links m = lsm_programs @ common_programs \<and>
      (\<exists>c st. try_compile_for_sync pol = Inr c \<and> fresh_tables st \<and> mb_maps m = populate_maps pol c st)) \<or>
      ((\<not> bpf_lsm_available (me_lsm_file env) \<or> \<not> is_ok (try_compile_for_sync pol) \<or> \<not> is_ok (me_btf env)) \<and>
      set lsm_programs \<inter> set (mb_links m) = {} \<and> fresh_tables (mb_maps m) \<and>
      mb_links m = common_programs @ open_probes env @
        [(''handle_execve'', ''sys_enter_execve''), (''handle_ptrace'', ''sys_enter_ptrace'')]))"
proof -
  let ?st0 = "set_offsets env (initial_maps\<lparr>MONITORED_PIDS := map_insert Map.empty pid 1\<rparr>)"
  have fresh: "fresh_tables ?st0" and mon: "is_monitored ?st0 pid"
    by (simp_all add: fresh_tables_def set_offsets_def initial_maps_def is_monitored_def map_insert_def
        split: prod.split)
  from assms(1) obtain att links st links' where
    steps: "snd (attach_sync env pol ?st0) = Inr (att, links, st)" "attach_common env links = Inr links'"
      "(if att then Ok links' else snd (attach_reactive env links')) = Inr (mb_links m)" "mb_maps m = st"
    by (rule monitor_new_steps)
  have links': "links' = links @ common_programs"
    by (rule attach_common_Inr [OF steps(2) assms(2)])
  from attach_sync_Inr [OF steps(1) assms(2)] show ?thesis
  proof
    assume sync: "att \<and> bpf_lsm_available (me_lsm_file env) \<and> is_ok (me_btf env) \<and> links = lsm_programs \<and>
       (\<exists>c. try_compile_for_sync pol = Inr c \<and> st = populate_maps pol c ?st0)"
    moreover have "is_monitored (populate_maps pol c ?st0) pid" for c
      using mon by (simp add: is_monitored_def populate_maps_def)
    moreover have eq: "mb_links m = lsm_programs @ common_programs"
      using sync steps(3) links' by simp
    ultimately show ?thesis
      unfolding eq using steps(4) fresh by auto
  next
    assume reactive: "\<not> att \<and> links = [] \<and> st = ?st0 \<and>
       (\<not> bpf_lsm_available (me_lsm_file env) \<or> \<not> is_ok (try_compile_for_sync pol) \<or> \<not> is_ok (me_btf env))"
    then have o: "mb_links m = common_programs @ open_probes env @
        [(''handle_execve'', ''sys_enter_execve''), (''handle_ptrace'', ''sys_enter_ptrace'')]"
      using attach_reactive_Inr [OF _ assms(2), of links' "mb_links m"] steps(3) links' by simp
    have "set lsm_programs \<inter> set (mb_links m) = {}"
      by (auto simp: o lsm_programs_def common_programs_def open_probes_def)
    then show ?thesis
      using reactive o steps(4) fresh mon by auto
  qed
qed

text \<open>
  C22. A monitor that has been built from the complete object follows its target and is in exactly one
  of two modes.  In the synchronous mode, reached only when the kernel lists \<open>bpf\<close>, the policy
  compiles and BTF is available, both LSM hooks are attached, the tables hold the compiled policy and
  no file or program tracing is attached.  Otherwise the hooks are absent, the tables are empty, and the
  tracing of programs and of \<open>ptrace\<close> is attached; the program that reports opened files is attached
  to those of its two kernel functions that accept it, which may be none.  The process and network
  programs are attached in both modes, and nothing else is.
\<close>

theorem monitor_new_mode:
  assumes "snd (monitor_new env pid pol) = Inr m" and "complete_object env"
  shows "is_monitored (mb_maps m) pid \<and> set common_programs \<subseteq> set (mb_links m) \<and>
     ((bpf_lsm_available (me_lsm_file env) \<and> is_ok (me_btf env) \<and>
      mb_links m = lsm_programs @ common_programs \<and>
      (\<exists>c st. try_compile_for_sync pol = Inr c \<and> fresh_tables st \<and> mb_maps m = populate_maps pol c st)) \<or>
      ((\<not> bpf_lsm_available (me_lsm_file env) \<or> \<not> is_ok (try_compile_for_sync pol) \<or> \<not> is_ok (me_btf env)) \<and>
      set lsm_programs \<inter> set (mb_links m) = {} \<and> fresh_tables (mb_maps m) \<and>
      mb_links m = common_programs @ open_probes env @
        [(''handle_execve'', ''sys_enter_execve''), (''handle_ptrace'', ''sys_enter_ptrace'')]))"
  using assms by (rule monitor_new_modes)

section \<open>An environment\<close>

text \<open>A kernel that lists \<open>bpf\<close> and answers every call.\<close>

definition example_env :: "unit monitor_env" where
  "example_env =
     \<lparr>me_kill = (\<lambda>p s. if p = 42 then 0 else - 1), me_call = (\<lambda>_. Inr ()), me_has_map = (\<lambda>_. True),
      me_has_program = (\<lambda>_. True), me_formats = [], me_bpftool = None,
      me_lsm_file = Inr ''lockdown,capability,bpf'', me_btf = Inr (), me_memlock = True,
      me_debug = (\<lambda>_. ''error''), me_debug_lsm = (\<lambda>_. ''lsm'')\<rparr>"

lemma example_env_simps [simp]:
  "me_call example_env k = Inr ()" "me_has_map example_env m" "me_has_program example_env p"
  "me_btf example_env = Inr ()" "me_kill example_env 42 n = 0"
  by (simp_all add: example_env_def)

text \<open>There the construction always succeeds.\<close>

lemma example_builds: "is_ok (snd (monitor_new example_env 42 pol))"
proof -
  obtain filled where "\<And>c st. fill_tables example_env pol c st = Inr (filled c st)"
    using fill_tables_ok [of example_env pol] by (metis example_env_simps(1))
  then have "\<exists>r. snd (attach_sync example_env pol st) = Inr r" for st
    by (simp add: attach_sync_steps attach_hooks_def attach_lsm_def lsm_failed_def ex_bool_eq split: sum.split)
  then obtain f where "\<And>st. snd (attach_sync example_env pol st) = Inr (f st)"
    by metis
  then show ?thesis
    by (simp add: monitor_new_def process_exists_def open_map_def insert_in_def fill_offsets_ok attach_common_def
        attach_tracepoint_def attach_reactive_def attach_kprobe_def and_then_def split: prod.split)
qed

lemma example_complete: "complete_object example_env"
  by (simp add: complete_object_def example_env_def)

lemma example_sync: "bpf_lsm_available (me_lsm_file example_env)"
proof -
  have "lists_bpf ''lockdown,capability,bpf''"
    by code_simp
  then show ?thesis
    by (simp add: bpf_lsm_available_def example_env_def)
qed

end
