(* ===== verification/Ebpf_System.thy ===== *)
theory Ebpf_System
  imports Ebpf_Trace Ebpf_Lsm Systems
begin

text \<open>
  All programs of the eBPF object together, called in any order with any inputs from the kernel, and
  the two ways in which user space changes the maps while they run: it drains the ring buffer and it
  records the host name of an address.  The invariant says what a reader of the ring buffer may rely
  on.
\<close>

section \<open>Steps\<close>

datatype kernel_call =
    CallFork "u32 set" trace_ctx
  | CallExit trace_ctx
  | CallOpen trace_ctx
  | CallExecve trace_ctx
  | CallSendto "u16 set" trace_ctx
  | CallEnterRecvfrom "u64 set" trace_ctx
  | CallExitRecvfrom trace_ctx
  | CallConnect "u64 set" trace_ctx
  | CallPtrace trace_ctx
  | CallFileOpen lsm_ctx
  | CallExecCheck lsm_ctx

fun run_call :: "kernel_call \<Rightarrow> bpf_state \<Rightarrow> bpf_state" where
  "run_call (CallFork v ctx) st = handle_fork v ctx st"
| "run_call (CallExit ctx) st = handle_exit ctx st"
| "run_call (CallOpen ctx) st = handle_open ctx st"
| "run_call (CallExecve ctx) st = handle_execve ctx st"
| "run_call (CallSendto v ctx) st = handle_sendto v ctx st"
| "run_call (CallEnterRecvfrom v ctx) st = handle_enter_recvfrom v ctx st"
| "run_call (CallExitRecvfrom ctx) st = handle_exit_recvfrom ctx st"
| "run_call (CallConnect v ctx) st = handle_connect v ctx st"
| "run_call (CallPtrace ctx) st = handle_ptrace ctx st"
| "run_call (CallFileOpen ctx) st = after (lsm_file_open ctx st)"
| "run_call (CallExecCheck ctx) st = after (lsm_exec_check ctx st)"

text \<open>The kernel's bulk readers fill a buffer in place.\<close>

definition good_trace :: "trace_ctx \<Rightarrow> bool" where
  "good_trace ctx \<longleftrightarrow>
     (\<forall>a b. length (tc_user_str ctx a b) = length b) \<and> (\<forall>a b. length (tc_user_buf ctx a b) = length b)"

definition good_lsm :: "lsm_ctx \<Rightarrow> bool" where
  "good_lsm ctx \<longleftrightarrow> (\<forall>b. length (snd (lc_d_path ctx b)) = length b)"

fun good_call :: "kernel_call \<Rightarrow> bool" where
  "good_call (CallFork v ctx) = good_trace ctx"
| "good_call (CallExit ctx) = good_trace ctx"
| "good_call (CallOpen ctx) = good_trace ctx"
| "good_call (CallExecve ctx) = good_trace ctx"
| "good_call (CallSendto v ctx) = good_trace ctx"
| "good_call (CallEnterRecvfrom v ctx) = good_trace ctx"
| "good_call (CallExitRecvfrom ctx) = good_trace ctx"
| "good_call (CallConnect v ctx) = good_trace ctx"
| "good_call (CallPtrace ctx) = good_trace ctx"
| "good_call (CallFileOpen ctx) = good_lsm ctx"
| "good_call (CallExecCheck ctx) = good_lsm ctx"

definition drain :: "bpf_state \<Rightarrow> bpf_state" where
  "drain st = st\<lparr>EVENTS := tl (EVENTS st)\<rparr>"

definition learn_domain :: "u32 set \<Rightarrow> u32 \<Rightarrow> u8 list \<Rightarrow> bpf_state \<Rightarrow> bpf_state" where
  "learn_domain victims ip host st = st\<lparr>IP_TO_DOMAIN := lru_insert victims (IP_TO_DOMAIN st) ip host\<rparr>"

definition monitored :: "bpf_state \<Rightarrow> u32 set" where
  "monitored st = {p. is_monitored st p}"

text \<open>A state of the run: the maps and the tasks that have been monitored so far.\<close>

inductive kernel_step :: "bpf_state \<times> u32 set \<Rightarrow> bpf_state \<times> u32 set \<Rightarrow> bool" where
  call: "good_call c \<Longrightarrow> kernel_step (st, seen) (run_call c st, seen \<union> monitored (run_call c st))"
| drained: "kernel_step (st, seen) (drain st, seen)"
| learned: "length host = 256 \<Longrightarrow> kernel_step (st, seen) (learn_domain victims ip host st, seen)"

inductive_cases kernel_stepE: "kernel_step s t"

section \<open>The invariant\<close>

definition event_ok :: "u32 set \<Rightarrow> bpf_event \<Rightarrow> bool" where
  "event_ok seen e \<longleftrightarrow> ev_pid e \<in> seen \<and> length (ev_target e) = 256 \<and>
     ev_type e \<in> {EVENT_TYPE_READ, EVENT_TYPE_WRITE, EVENT_TYPE_EXEC, EVENT_TYPE_NETWORK, EVENT_TYPE_SYSCALL}"

definition kernel_inv :: "bpf_state \<times> u32 set \<Rightarrow> bool" where
  "kernel_inv = (\<lambda>(st, seen).
     list_all (event_ok seen) (EVENTS st) \<and> monitored st \<subseteq> seen \<and>
     (\<forall>k v. DNS_RECV_BUFF st k = Some v \<longrightarrow> tgid_of k \<in> seen) \<and>
     (\<forall>k v. IP_TO_DOMAIN st k = Some v \<longrightarrow> length v = 256))"

definition kernel_init :: "bpf_state \<times> u32 set \<Rightarrow> bool" where
  "kernel_init = (\<lambda>(st, seen).
     EVENTS st = [] \<and> DNS_RECV_BUFF st = Map.empty \<and> IP_TO_DOMAIN st = Map.empty \<and> seen = monitored st)"

lemma event_ok_mono: "event_ok seen e \<Longrightarrow> event_ok (seen \<union> new) e"
  by (auto simp: event_ok_def)

lemma events_ok_mono: "list_all (event_ok seen) es \<Longrightarrow> list_all (event_ok (seen \<union> new)) es"
  by (auto simp: list_all_iff event_ok_mono)

lemma inv_mono: "kernel_inv (st, seen) \<Longrightarrow> kernel_inv (st, seen \<union> new)"
  by (auto simp: kernel_inv_def events_ok_mono)

lemma inv_emit:
  "kernel_inv (st, seen) \<Longrightarrow> event_ok seen e \<Longrightarrow> kernel_inv (emit room e st, seen)"
  by (auto simp: kernel_inv_def monitored_def is_monitored_def)

lemma is_monitored_frame [simp]:
  "is_monitored (st\<lparr>DNS_RECV_BUFF := a\<rparr>) = is_monitored st"
  "is_monitored (st\<lparr>PENDING_DNS_QUERY := b\<rparr>) = is_monitored st"
  "is_monitored (st\<lparr>DNS_FDS := c\<rparr>) = is_monitored st"
  "is_monitored (st\<lparr>SCRATCH_DOMAIN := d\<rparr>) = is_monitored st"
  "is_monitored (st\<lparr>IP_TO_DOMAIN := f\<rparr>) = is_monitored st"
  "is_monitored (st\<lparr>EVENTS := g\<rparr>) = is_monitored st"
  "is_monitored (st\<lparr>SCRATCH_PATH := h\<rparr>) = is_monitored st"
  "is_monitored (emit r e st) = is_monitored st"
  by (simp_all add: is_monitored_def fun_eq_iff)

lemma monitored_seen: "kernel_inv (st, seen) \<Longrightarrow> is_monitored st p \<Longrightarrow> p \<in> seen"
  by (auto simp: kernel_inv_def monitored_def)

lemma inv_frame:
  "kernel_inv (st, seen) \<Longrightarrow> kernel_inv (st\<lparr>SCRATCH_PATH := a\<rparr>, seen)"
  "kernel_inv (st, seen) \<Longrightarrow> kernel_inv (st\<lparr>SCRATCH_DOMAIN := b\<rparr>, seen)"
  "kernel_inv (st, seen) \<Longrightarrow> kernel_inv (st\<lparr>PENDING_DNS_QUERY := c\<rparr>, seen)"
  "kernel_inv (st, seen) \<Longrightarrow> kernel_inv (st\<lparr>DNS_FDS := d\<rparr>, seen)"
  by (simp_all add: kernel_inv_def monitored_def)

lemma inv_tree:
  "kernel_inv (st, seen) \<Longrightarrow>
   kernel_inv (st\<lparr>MONITORED_PIDS := m\<rparr>, seen \<union> monitored (st\<lparr>MONITORED_PIDS := m\<rparr>))"
  by (auto simp: kernel_inv_def events_ok_mono)

lemma inv_recv_remove:
  "kernel_inv (st, seen) \<Longrightarrow> kernel_inv (st\<lparr>DNS_RECV_BUFF := map_remove (DNS_RECV_BUFF st) k\<rparr>, seen)"
  by (auto simp: kernel_inv_def monitored_def map_remove_def)

lemma inv_recv_insert:
  "kernel_inv (st, seen) \<Longrightarrow> tgid_of k \<in> seen \<Longrightarrow>
   kernel_inv (st\<lparr>DNS_RECV_BUFF := lru_insert vs (DNS_RECV_BUFF st) k v\<rparr>, seen)"
  by (auto simp: kernel_inv_def monitored_def lru_insert_def)

lemmas kernel_keeps [inv_intros] = inv_emit inv_frame inv_recv_remove inv_recv_insert monitored_seen

lemma event_ok_read [simp]:
  "event_ok seen \<lparr>ev_pid = p, ev_type = EVENT_TYPE_READ, ev_resolved = r, ev_target = t\<rparr> \<longleftrightarrow> p \<in> seen \<and> length t = 256"
  "event_ok seen \<lparr>ev_pid = p, ev_type = EVENT_TYPE_WRITE, ev_resolved = r, ev_target = t\<rparr> \<longleftrightarrow> p \<in> seen \<and> length t = 256"
  "event_ok seen \<lparr>ev_pid = p, ev_type = EVENT_TYPE_EXEC, ev_resolved = r, ev_target = t\<rparr> \<longleftrightarrow> p \<in> seen \<and> length t = 256"
  "event_ok seen \<lparr>ev_pid = p, ev_type = EVENT_TYPE_NETWORK, ev_resolved = r, ev_target = t\<rparr> \<longleftrightarrow> p \<in> seen \<and> length t = 256"
  "event_ok seen \<lparr>ev_pid = p, ev_type = EVENT_TYPE_SYSCALL, ev_resolved = r, ev_target = t\<rparr> \<longleftrightarrow> p \<in> seen \<and> length t = 256"
  by (simp_all add: event_ok_def)

subsection \<open>Every program keeps it\<close>

lemma report_inv:
  assumes "kernel_inv (st, seen)" and "pid \<in> seen"
  shows "kernel_inv (report_fs_event room pid w buf st, seen)"
    and "kernel_inv (report_exec_event room pid buf st, seen)"
  using assms by (auto simp: report_fs_event_def report_exec_event_def intro!: inv_emit)

lemma refuse_inv:
  "kernel_inv (st, seen) \<Longrightarrow> pid \<in> seen \<Longrightarrow> kernel_inv (after (refuse_fs ctx pid w buf st), seen)"
  by (simp add: refuse_fs_def report_inv)

lemma file_open_inv:
  assumes "kernel_inv (st, seen)"
  shows "kernel_inv (after (lsm_file_open ctx st), seen)"
proof (cases "is_monitored st (tgid_of (lc_pid_tgid ctx))")
  case False
  then show ?thesis using assms by (simp add: lsm_file_open_def Let_def)
next
  case True
  note seen = monitored_seen [OF assms True]
  have refuse: "kernel_inv (after (refuse_fs ctx (tgid_of (lc_pid_tgid ctx)) w buf (st\<lparr>SCRATCH_PATH := b\<rparr>)), seen)"
    for w buf b
    by (intro refuse_inv inv_frame assms seen)
  show ?thesis
    using True assms refuse inv_frame(1) [OF assms]
    by (auto simp: lsm_file_open_def Let_def split: option.split prod.split)
qed

lemma exec_check_inv:
  assumes "kernel_inv (st, seen)"
  shows "kernel_inv (after (lsm_exec_check ctx st), seen)"
proof (cases "is_monitored st (tgid_of (lc_pid_tgid ctx))")
  case False
  then show ?thesis using assms by (simp add: lsm_exec_check_def Let_def)
next
  case True
  note seen = monitored_seen [OF assms True]
  have report: "kernel_inv (report_exec_event r (tgid_of (lc_pid_tgid ctx)) buf (st\<lparr>SCRATCH_PATH := b\<rparr>), seen)"
    for r buf b
    by (intro report_inv inv_frame assms seen)
  show ?thesis
    using True assms report inv_frame(1) [OF assms]
    by (auto simp: lsm_exec_check_def Let_def split: option.split prod.split)
qed

lemma zeros_length [simp]: "length (zeros n) = n"
  by (simp add: zeros_def)

lemma trace_inv:
  assumes "kernel_inv (st, seen)" and "good_trace ctx"
  shows "kernel_inv (handle_open ctx st, seen)"
    and "kernel_inv (handle_execve ctx st, seen)"
    and "kernel_inv (handle_ptrace ctx st, seen)"
    and "kernel_inv (handle_sendto v ctx st, seen)"
    and "kernel_inv (handle_enter_recvfrom w ctx st, seen)"
  using assms
  by (auto simp: handle_open_def handle_execve_def handle_ptrace_def handle_sendto_def
      handle_enter_recvfrom_def good_trace_def Let_def split: option.split intro!: inv_intros)

lemma exit_recvfrom_inv:
  assumes "kernel_inv (st, seen)" and "good_trace ctx"
  shows "kernel_inv (handle_exit_recvfrom ctx st, seen)"
proof -
  have "tgid_of (tc_pid_tgid ctx) \<in> seen" if "DNS_RECV_BUFF st (tc_pid_tgid ctx) = Some v" for v
    using assms(1) that by (auto simp: kernel_inv_def)
  then show ?thesis
    using assms inv_recv_remove [OF assms(1)]
    by (auto simp: handle_exit_recvfrom_def good_trace_def Let_def split: option.split intro!: inv_emit inv_frame)
qed

lemma connect_inv:
  assumes "kernel_inv (st, seen)" and "good_trace ctx"
  shows "kernel_inv (handle_connect v ctx st, seen)"
proof -
  have "length d = 256" if "IP_TO_DOMAIN st ip = Some d" for ip d
    using assms(1) that by (auto simp: kernel_inv_def)
  then show ?thesis
    using assms
    by (auto simp: handle_connect_def ipv6_message_def Let_def split: option.split intro!: inv_intros)
qed

lemma tree_inv:
  assumes "kernel_inv (st, seen)"
  shows "kernel_inv (handle_fork v ctx st, seen \<union> monitored (handle_fork v ctx st))"
    and "kernel_inv (handle_exit ctx st, seen \<union> monitored (handle_exit ctx st))"
  using assms
  by (simp_all add: handle_fork_def handle_exit_def Let_def inv_tree inv_mono)

lemma run_call_inv:
  "kernel_inv (st, seen) \<Longrightarrow> good_call c \<Longrightarrow> kernel_inv (run_call c st, seen \<union> monitored (run_call c st))"
  by (cases c) (auto intro!: tree_inv inv_mono [OF trace_inv(1)] inv_mono [OF trace_inv(2)]
      inv_mono [OF trace_inv(3)] inv_mono [OF trace_inv(4)] inv_mono [OF trace_inv(5)]
      inv_mono [OF exit_recvfrom_inv] inv_mono [OF connect_inv] inv_mono [OF file_open_inv]
      inv_mono [OF exec_check_inv])

interpretation kernel: step_system kernel_init kernel_step kernel_inv
proof
  show "kernel_init s \<Longrightarrow> kernel_inv s" for s
    by (cases s) (auto simp: kernel_init_def kernel_inv_def)
  show "kernel_step s t \<Longrightarrow> kernel_inv s \<Longrightarrow> kernel_inv t" for s t
  proof (induction rule: kernel_step.induct)
    case (call c st seen)
    then show ?case by (simp add: run_call_inv)
  next
    case (drained st seen)
    then show ?case
      by (cases "EVENTS st") (auto simp: kernel_inv_def drain_def monitored_def)
  next
    case (learned host st seen victims ip)
    then show ?case
      by (auto simp: kernel_inv_def learn_domain_def monitored_def lru_insert_def)
  qed
qed

section \<open>Properties of the whole object\<close>

text \<open>
  C18. Whatever calls the kernel makes in whatever order, every record that waits in the ring buffer
  belongs to a task that was monitored at some point of the run, carries a target of 256 bytes and
  one of the five event types.
\<close>

theorem kernel_events_sound:
  assumes "kernel_init (st0, seen0)" and "kernel_step\<^sup>*\<^sup>* (st0, seen0) (st, seen)"
  shows "\<forall>e \<in> set (EVENTS st). ev_pid e \<in> seen \<and> length (ev_target e) = 256 \<and>
     ev_type e \<in> {EVENT_TYPE_READ, EVENT_TYPE_WRITE, EVENT_TYPE_EXEC, EVENT_TYPE_NETWORK, EVENT_TYPE_SYSCALL}"
  using kernel.reachable_inv [OF assms] by (auto simp: kernel_inv_def list_all_iff event_ok_def)

definition same_tables :: "bpf_state \<Rightarrow> bpf_state \<Rightarrow> bool" where
  "same_tables st st' \<longleftrightarrow>
     ENFORCE_MODE st' = ENFORCE_MODE st \<and> ALLOW_READ_PREFIXES st' = ALLOW_READ_PREFIXES st \<and>
     ALLOW_WRITE_PREFIXES st' = ALLOW_WRITE_PREFIXES st \<and>
     DENY_ALWAYS_PREFIXES st' = DENY_ALWAYS_PREFIXES st \<and>
     DENY_SYSCALLS_RULES st' = DENY_SYSCALLS_RULES st \<and> OFFSETS st' = OFFSETS st"

lemma same_tables_trace:
  "same_tables st (handle_fork v1 ctx st)" "same_tables st (handle_exit ctx st)"
  "same_tables st (handle_open ctx st)" "same_tables st (handle_execve ctx st)"
  "same_tables st (handle_sendto v2 ctx st)" "same_tables st (handle_enter_recvfrom v3 ctx st)"
  "same_tables st (handle_exit_recvfrom ctx st)" "same_tables st (handle_ptrace ctx st)"
  by (simp_all add: same_tables_def handle_fork_def handle_exit_def handle_open_def handle_execve_def
      handle_sendto_def handle_enter_recvfrom_def handle_exit_recvfrom_def handle_ptrace_def Let_def
      split: option.split)

lemma same_tables_connect: "same_tables st (handle_connect v ctx st)"
  by (simp add: same_tables_def handle_connect_def Let_def split: option.split)

lemma same_tables_lsm:
  "same_tables st (after (lsm_file_open lctx st))" "same_tables st (after (lsm_exec_check lctx st))"
  by (simp_all add: same_tables_def lsm_file_open_def lsm_exec_check_def refuse_fs_def
      report_fs_event_def report_exec_event_def Let_def split: option.split prod.split)

lemma same_tables_call: "same_tables st (run_call c st)"
  by (cases c) (simp_all add: same_tables_trace same_tables_connect same_tables_lsm)

lemma same_tables_user:
  "same_tables st (drain st)" "same_tables st (learn_domain victims ip host st)"
  by (simp_all add: same_tables_def drain_def learn_domain_def)

interpretation tables: step_relation kernel_step "\<lambda>s t. same_tables (fst s) (fst t)"
proof
  show "same_tables (fst s) (fst s)" for s
    by (simp add: same_tables_def)
  show "same_tables (fst s) (fst t) \<Longrightarrow> same_tables (fst t) (fst u) \<Longrightarrow> same_tables (fst s) (fst u)" for s t u
    by (simp add: same_tables_def)
  show "kernel_step s t \<Longrightarrow> same_tables (fst s) (fst t)" for s t
    by (induction rule: kernel_step.induct) (simp_all add: same_tables_call same_tables_user)
qed

text \<open>
  No program of the object changes the policy that user space has loaded: the mode, the four
  rule tables and the offsets are the same after any number of calls.
\<close>

theorem kernel_policy_read_only:
  assumes "kernel_step\<^sup>*\<^sup>* (st, seen) (st', seen')"
  shows "is_enforce_mode st' = is_enforce_mode st \<and>
     ALLOW_READ_PREFIXES st' = ALLOW_READ_PREFIXES st \<and>
     ALLOW_WRITE_PREFIXES st' = ALLOW_WRITE_PREFIXES st \<and>
     DENY_ALWAYS_PREFIXES st' = DENY_ALWAYS_PREFIXES st \<and>
     DENY_SYSCALLS_RULES st' = DENY_SYSCALLS_RULES st \<and>
     get_f_mode_offset st' = get_f_mode_offset st"
  using tables.steps_rel [OF assms]
  by (simp add: same_tables_def is_enforce_mode_def get_f_mode_offset_def)

text \<open>
  A \<open>recvfrom\<close> that a monitored task has entered is reported at most once, with the whole
  buffer, and only when more than twelve bytes arrived; its registration is gone afterwards, so a
  second exit of the same thread reports nothing.
\<close>

theorem recvfrom_reported_once:
  "EVENTS (handle_exit_recvfrom ctx st) = EVENTS st @
     (case DNS_RECV_BUFF st (tc_pid_tgid ctx) of
        None \<Rightarrow> []
      | Some buff \<Rightarrow>
          if sint (case tc_u64_at ctx 16 of Some v \<Rightarrow> v | None \<Rightarrow> 0) > 12 \<and>
             tc_user_u16 ctx buff \<noteq> None \<and> tc_room ctx
          then [\<lparr>ev_pid = tgid_of (tc_pid_tgid ctx), ev_type = EVENT_TYPE_NETWORK, ev_resolved = 1,
                 ev_target = tc_user_buf ctx buff (zeros 256)\<rparr>]
          else []) \<and>
   handle_exit_recvfrom (ctx'\<lparr>tc_pid_tgid := tc_pid_tgid ctx\<rparr>) (handle_exit_recvfrom ctx st) =
     handle_exit_recvfrom ctx st"
proof
  have gone: "DNS_RECV_BUFF (handle_exit_recvfrom ctx st) (tc_pid_tgid ctx) = None"
    by (simp add: handle_exit_recvfrom_def map_remove_def Let_def split: option.split)
  then show "handle_exit_recvfrom (ctx'\<lparr>tc_pid_tgid := tc_pid_tgid ctx\<rparr>) (handle_exit_recvfrom ctx st) =
     handle_exit_recvfrom ctx st"
    by (simp add: handle_exit_recvfrom_def [of "ctx'\<lparr>tc_pid_tgid := tc_pid_tgid ctx\<rparr>"])
qed (auto simp: handle_exit_recvfrom_def Let_def split: option.split)


section \<open>An example run\<close>

definition example_start :: bpf_state where
  "example_start = initial_maps\<lparr>MONITORED_PIDS := [42 \<mapsto> 1]\<rparr>"

definition example_trace :: trace_ctx where
  "example_trace = (task_ctx Map.empty)\<lparr>tc_pid_tgid := 0x2A0000002A\<rparr>"

lemma example_trace_tgid: "tgid_of (tc_pid_tgid example_trace) = 42"
  by (simp add: example_trace_def tgid_of_def drop_bit_eq_div)

lemma example_run_ptrace:
  "kernel_step\<^sup>*\<^sup>* (example_start, monitored example_start)
     (handle_ptrace example_trace example_start,
      monitored example_start \<union> monitored (handle_ptrace example_trace example_start))"
proof -
  have "good_call (CallPtrace example_trace)"
    by (simp add: good_trace_def example_trace_def task_ctx_def)
  from kernel_step.call [OF this, of example_start "monitored example_start"] show ?thesis
    by (auto intro: r_into_rtranclp)
qed

theorem kernel_events_sound_witness:
  "\<exists>e. EVENTS (handle_ptrace example_trace example_start) = [e] \<and> length (ev_target e) = 256"
proof -
  have "kernel_init (example_start, monitored example_start)"
    by (simp add: kernel_init_def example_start_def initial_maps_def)
  then have "\<forall>e \<in> set (EVENTS (handle_ptrace example_trace example_start)). length (ev_target e) = 256"
    using kernel_events_sound [OF _ example_run_ptrace] by blast
  moreover have "length (EVENTS (handle_ptrace example_trace example_start)) = 1"
    using example_trace_tgid
    by (simp add: handle_ptrace_def example_start_def is_monitored_def initial_maps_def example_trace_def task_ctx_def)
  ultimately show ?thesis
    by (auto simp: length_Suc_conv)
qed

theorem kernel_policy_read_only_witness:
  "is_enforce_mode (handle_ptrace example_trace example_start)"
  using kernel_policy_read_only [OF example_run_ptrace]
  by (simp add: example_start_def initial_maps_def is_enforce_mode_def)


end
