(* ===== verification/Monitor_Cache.thy ===== *)
theory Monitor_Cache
  imports Monitor_Event Ebpf_System
begin

text \<open>
  The two caches of host names (the map \<open>IP_TO_DOMAIN\<close> that the kernel programs read and the
  \<open>local_dns_cache\<close> of the monitor), what they hold after the responses of a run, and what a connection, an opened file, a
  \<open>ptrace\<close> call or received data become when their record goes through the monitor to the enforcer.
\<close>

section \<open>Host names in buffers\<close>

lemma domain_buffer_pad: "length name \<le> 255 \<Longrightarrow> domain_buffer name = pad 256 (as_bytes name)"
  by (simp add: domain_buffer_def pad_def min_def)

lemma domain_buffer_length [simp]: "length (domain_buffer name) = 256"
  by (simp add: domain_buffer_def Let_def)

text \<open>What a reader of the buffer sees: the name up to its first NUL, which a label of a response may hold.\<close>

definition until_nul :: "string \<Rightarrow> string" where
  "until_nul name = takeWhile (\<lambda>c. c \<noteq> CHR 0x00) name"

lemma c_string_as_bytes: "c_string (as_bytes s) = as_bytes (until_nul s)"
  by (induction s) (auto simp: c_string_def until_nul_def)

lemma c_string_pad_any: "c_string (pad n bs) = c_string bs"
  by (cases "0 \<in> set bs") (auto simp: pad_def c_string_def takeWhile_append takeWhile_eq_all_conv [THEN iffD2] takeWhile_replicate)

lemma domain_buffer_read:
  assumes "length name \<le> 255" and "valid_str name"
  shows "c_str_lossy (domain_buffer name) = until_nul name"
proof -
  have "valid_utf8 (c_string (as_bytes name))"
    using assms(2) by (simp add: valid_str_def valid_utf8_c_string)
  then show ?thesis
    using assms(1) by (simp add: c_str_lossy_def domain_buffer_pad c_string_pad_any from_utf8_lossy_valid c_string_as_bytes)
qed

lemma parse_name_ok:
  assumes "parse_dns_answers wire = Returned (Some (name, ips))" and "length wire = 256"
  shows "valid_str name \<and> length name \<le> 255"
proof -
  from assms(1) obtain pos where q: "qname_value wire 12 [] True = Some (name, pos)"
    by (auto simp: parse_dns_answers_value Let_def split: if_splits option.splits prod.splits)
  have "valid_str []"
    by (simp add: valid_str_def)
  from qname_loop_name [OF q this] assms(2) show ?thesis
    by auto
qed

section \<open>The caches and the responses\<close>

text \<open>
  The history of the responses: for each address of each response, in order, the name that was asked for
  and whether the kernel accepted the insertion into its map.
\<close>

type_synonym naming = "u32 \<times> string \<times> bool"

definition namings :: "eviction \<Rightarrow> u8 list \<Rightarrow> naming list" where
  "namings evict item =
     (case decode_event item of
        None \<Rightarrow> []
      | Some be \<Rightarrow>
          if ev_type be = EVENT_TYPE_NETWORK \<and> ev_resolved be = 1 then
            (case parse_dns_answers (ev_target be) of
               Returned (Some (name, ips)) \<Rightarrow> map (\<lambda>ip. (ip, name, is_ok (evict ip))) ips
             | _ \<Rightarrow> [])
          else [])"

fun latest :: "naming list \<Rightarrow> u32 \<Rightarrow> string option" where
  "latest [] ip = None"
| "latest ((ip', name, stored) # h) ip =
     (case latest h ip of Some n \<Rightarrow> Some n | None \<Rightarrow> if ip' = ip then Some name else None)"

abbreviation stored :: "naming list \<Rightarrow> naming list" where
  "stored h \<equiv> filter (\<lambda>(ip, name, ok). ok) h"

lemma latest_snoc:
  "latest (h @ [(ip', name, ok)]) ip = (if ip' = ip then Some name else latest h ip)"
  by (induction h ip rule: latest.induct) (auto split: option.split)

lemma latest_member: "latest h ip = Some name \<Longrightarrow> \<exists>ok. (ip, name, ok) \<in> set h"
  by (induction h ip rule: latest.induct) (auto split: option.splits if_splits)

text \<open>
  The monitor remembers the latest name of an address; what the kernel map holds for it, if anything, is the
  buffer of the latest name whose insertion succeeded.
\<close>

definition cache_inv :: "naming list \<times> dns_caches \<Rightarrow> bool" where
  "cache_inv = (\<lambda>(h, c).
     local_dns_cache c = latest h \<and>
     (\<forall>ip v. ip_to_domain c ip = Some v \<longrightarrow> (\<exists>name. latest (stored h) ip = Some name \<and> v = domain_buffer name)) \<and>
     (\<forall>(ip, name, ok) \<in> set h. valid_str name \<and> length name \<le> 255))"

lemma remember_inv:
  assumes "cache_inv (h, c)" and "valid_str name" "length name \<le> 255"
  shows "cache_inv (h @ map (\<lambda>ip. (ip, name, is_ok (evict ip))) ips, fold (remember evict name) ips c)"
  using assms(1)
proof (induction ips arbitrary: h c)
  case Nil
  then show ?case by simp
next
  case (Cons ip ips)
  have "cache_inv (h @ [(ip, name, is_ok (evict ip))], remember evict name ip c)"
    using Cons.prems assms(2,3)
    by (cases "evict ip") (auto simp: cache_inv_def remember_def lru_insert_def latest_snoc fun_eq_iff)
  from Cons.IH [OF this] show ?case
    by simp
qed

text \<open>One item handled by the loop, as a step on the caches and the history.\<close>

inductive cache_step :: "naming list \<times> dns_caches \<Rightarrow> naming list \<times> dns_caches \<Rightarrow> bool" where
  "handle_item evict item c = Returned (c', ev) \<Longrightarrow> cache_step (h, c) (h @ namings evict item, c')"

lemma item_inv:
  assumes "cache_inv (h, c)" and "handle_item evict item c = Returned (c', ev)"
  shows "cache_inv (h @ namings evict item, c')"
proof (cases "decode_event item")
  case None
  with assms show ?thesis by (simp add: handle_item_def namings_def)
next
  case (Some be)
  then have handled: "handle_event evict be c = Returned (c', ev)"
    using assms(2) by (simp add: handle_item_def)
  show ?thesis
  proof (cases "ev_type be = EVENT_TYPE_NETWORK \<and> ev_resolved be = 1")
    case False
    then have "c' = c"
      using handled by (auto simp: handle_event_def Let_def split: option.splits if_splits)
    with False Some assms(1) show ?thesis by (auto simp: namings_def)
  next
    case True
    then obtain parsed where parsed: "parse_dns_answers (ev_target be) = Returned parsed"
      using handled by (cases "parse_dns_answers (ev_target be)") (auto simp: handle_event_def event_type_of_def event_type_defs)
    have c': "c' = (case parsed of None \<Rightarrow> c | Some (name, ips) \<Rightarrow> fold (remember evict name) ips c)"
      using handled True parsed
      by (auto simp: handle_event_def event_type_of_def event_type_defs Let_def split: option.splits)
    show ?thesis
      using assms(1) Some True parsed c' parse_name_ok [of "ev_target be"] decode_target [OF Some]
      by (auto simp: namings_def remember_inv split: option.split)
  qed
qed

interpretation caches: step_system "\<lambda>s. s = ([], no_caches)" cache_step cache_inv
proof
  show "s = ([], no_caches) \<Longrightarrow> cache_inv s" for s
    by (simp add: cache_inv_def no_caches_def fun_eq_iff)
  show "cache_step s t \<Longrightarrow> cache_inv s \<Longrightarrow> cache_inv t" for s t
    by (induction rule: cache_step.induct) (rule item_inv)
qed

lemma kernel_name:
  assumes "cache_step\<^sup>*\<^sup>* ([], no_caches) (h, c)" and "ip_to_domain c ip = Some v"
  shows "\<exists>name. latest (stored h) ip = Some name \<and> v = domain_buffer name \<and> c_str_lossy v = until_nul name"
proof -
  have inv: "cache_inv (h, c)"
    by (rule caches.reachable_inv [OF refl assms(1)])
  then obtain name where name: "latest (stored h) ip = Some name" "v = domain_buffer name"
    using assms(2) by (auto simp: cache_inv_def)
  then have "valid_str name \<and> length name \<le> 255"
    using inv latest_member [OF name(1)] by (auto simp: cache_inv_def)
  with name show ?thesis
    by (simp add: domain_buffer_read)
qed

lemma monitor_name: "cache_step\<^sup>*\<^sup>* ([], no_caches) (h, c) \<Longrightarrow> local_dns_cache c ip = latest h ip"
  using caches.reachable_inv [OF refl] by (fastforce simp: cache_inv_def)

text \<open>
  C19. The caches follow the responses, after any items whatever, complete or not, and with any insertion
  refused by the kernel.  The handling of an item never panics.  The monitor names an address by the
  latest response for it.  What the kernel map holds for an address is the name of the latest response whose
  insertion succeeded, of which a reader sees the part before the first NUL byte; so the two names agree
  when the latest insertion succeeded and the name holds no NUL.
\<close>

theorem caches_agree:
  assumes "cache_step\<^sup>*\<^sup>* ([], no_caches) (h, c)"
  shows "(\<exists>r. handle_item evict item c = Returned r) \<and> local_dns_cache c ip = latest h ip \<and>
     (ip_to_domain c ip = Some v \<longrightarrow>
        (\<exists>name. latest (stored h) ip = Some name \<and> v = domain_buffer name \<and> c_str_lossy v = until_nul name))"
  using handle_item_total monitor_name [OF assms] kernel_name [OF assms] by blast

section \<open>Connections\<close>

text \<open>The record that \<open>handle_connect\<close> writes for an IPv4 address.\<close>

definition ipv4_connect :: "trace_ctx \<Rightarrow> bpf_state \<Rightarrow> u8 list \<Rightarrow> bool" where
  "ipv4_connect ctx st sa \<longleftrightarrow> is_monitored st (tgid_of (tc_pid_tgid ctx)) \<and>
     (\<exists>p. tc_u64_at ctx 24 = Some p \<and> p \<noteq> 0 \<and> tc_user_u16 ctx p = Some 2 \<and> tc_user_buf ctx p (zeros 16) = sa) \<and>
     be_u16 (sa ! 2) (sa ! 3) \<noteq> 53 \<and> sa ! 4 \<noteq> 127 \<and> tc_room ctx"

lemma dotted_not_ipv6: "dotted [a, b, d, e] \<noteq> ''<ipv6-nao-suportado>''"
proof
  assume eq: "dotted [a, b, d, e] = ''<ipv6-nao-suportado>''"
  have "CHR ''.'' \<in> set (dotted [a, b, d, e])"
    by (simp add: dotted_def)
  then show False
    unfolding eq by simp
qed

lemma connect_record:
  assumes "ipv4_connect ctx st sa"
  shows "EVENTS (handle_connect v ctx st) = EVENTS st @
     [case IP_TO_DOMAIN st (be_u32 (sa ! 4) (sa ! 5) (sa ! 6) (sa ! 7)) of
        Some d \<Rightarrow> \<lparr>ev_pid = tgid_of (tc_pid_tgid ctx), ev_type = EVENT_TYPE_NETWORK, ev_resolved = 2, ev_target = d\<rparr>
      | None \<Rightarrow> \<lparr>ev_pid = tgid_of (tc_pid_tgid ctx), ev_type = EVENT_TYPE_NETWORK, ev_resolved = 0,
                 ev_target = [0xAA, sa ! 4, sa ! 5, sa ! 6, sa ! 7] @ drop 5 (zeros 256)\<rparr>]"
proof -
  obtain p where p: "tc_u64_at ctx 24 = Some p" "p \<noteq> 0" "tc_user_u16 ctx p = Some 2"
    "tc_user_buf ctx p (zeros 16) = sa"
    using assms by (auto simp: ipv4_connect_def)
  have other: "be_u16 (sa ! 2) (sa ! 3) \<noteq> 53" "sa ! 4 \<noteq> 127" "tc_room ctx"
    "is_monitored st (tgid_of (tc_pid_tgid ctx))"
    using assms by (simp_all add: ipv4_connect_def)
  show ?thesis
    by (simp add: handle_connect_def p other) (simp add: Let_def)
qed

lemma event_type_network [simp]: "event_type_of EVENT_TYPE_NETWORK = Some Network"
  "event_type_of EVENT_TYPE_READ = Some Read" "event_type_of EVENT_TYPE_EXEC = Some Syscall"
  by (simp_all add: event_type_of_def event_type_defs)

text \<open>The record that the kernel writes with an entry \<open>held\<close> for the address, or without one.\<close>

definition connect_event :: "u32 \<Rightarrow> u8 list \<Rightarrow> u8 list option \<Rightarrow> bpf_event" where
  "connect_event p sa held =
     (case held of
        Some d \<Rightarrow> \<lparr>ev_pid = p, ev_type = EVENT_TYPE_NETWORK, ev_resolved = 2, ev_target = d\<rparr>
      | None \<Rightarrow> \<lparr>ev_pid = p, ev_type = EVENT_TYPE_NETWORK, ev_resolved = 0,
                 ev_target = [0xAA, sa ! 4, sa ! 5, sa ! 6, sa ! 7] @ drop 5 (zeros 256)\<rparr>)"

lemma connect_handled:
  "handle_event evict (connect_event p sa held) c =
     Returned (c, Some
       (case (held, local_dns_cache c (be_u32 (sa ! 4) (sa ! 5) (sa ! 6) (sa ! 7))) of
          (Some d, _) \<Rightarrow> \<lparr>event_pid = p, event_kind = Network, event_target = c_str_lossy d, event_resolved = True\<rparr>
        | (None, Some name) \<Rightarrow> \<lparr>event_pid = p, event_kind = Network, event_target = name, event_resolved = True\<rparr>
        | (None, None) \<Rightarrow> \<lparr>event_pid = p, event_kind = Network,
                            event_target = dotted [sa ! 4, sa ! 5, sa ! 6, sa ! 7], event_resolved = False\<rparr>))"
  by (cases held) (auto simp: connect_event_def handle_event_def nth_Cons' split: option.split)

text \<open>
  The name by which a connection is judged: the kernel's, from the responses \<open>h\<close> handled before the
  connection, where its map holds the address; otherwise the monitor's, from the responses \<open>h'\<close> handled
  before the record.
\<close>

definition judged_name :: "naming list \<Rightarrow> naming list \<Rightarrow> bool \<Rightarrow> u32 \<Rightarrow> string option" where
  "judged_name h h' held ip = (if held then map_option until_nul (latest (stored h) ip) else latest h' ip)"

lemma connection_judged:
  assumes "ipv4_connect ctx st sa"
    and "cache_step\<^sup>*\<^sup>* ([], no_caches) (h, c)" "ip_to_domain c = IP_TO_DOMAIN st"
    and "cache_step\<^sup>*\<^sup>* (h, c) (h', c')"
    and ip: "ip = be_u32 (sa ! 4) (sa ! 5) (sa ! 6) (sa ! 7)"
  shows "\<exists>rec ev. EVENTS (handle_connect v ctx st) = EVENTS st @ [rec] \<and>
     handle_item evict (encode_event rec) c' = Returned (c', Some ev) \<and>
     event_pid ev = tgid_of (tc_pid_tgid ctx) \<and>
     (event_allowed api pol ev \<longleftrightarrow>
        (case judged_name h h' (IP_TO_DOMAIN st ip \<noteq> None) ip of
           Some name \<Rightarrow> name \<noteq> ''<ipv6-nao-suportado>'' \<and> domain_allowed pol name
         | None \<Rightarrow> False))"
proof -
  let ?rec = "connect_event (tgid_of (tc_pid_tgid ctx)) sa (IP_TO_DOMAIN st ip)"
  have later: "cache_step\<^sup>*\<^sup>* ([], no_caches) (h', c')"
    using assms(2,4) by (rule rtranclp_trans)
  have held: "\<exists>name. latest (stored h) ip = Some name \<and> d = domain_buffer name \<and> c_str_lossy d = until_nul name"
    if "IP_TO_DOMAIN st ip = Some d" for d
    using kernel_name [OF assms(2), of ip d] that assms(3) by simp
  then have "length (ev_target ?rec) = 256"
    by (auto simp: connect_event_def split: option.split)
  then have item: "handle_item evict (encode_event ?rec) c' = handle_event evict ?rec c'"
    by (simp add: handle_item_def decode_encode)
  show ?thesis
  proof (intro exI conjI)
    show "EVENTS (handle_connect v ctx st) = EVENTS st @ [?rec]"
      using connect_record [OF assms(1), of v] by (simp add: connect_event_def ip split: option.split)
    show "handle_item evict (encode_event ?rec) c' = Returned (c', Some
       (case (IP_TO_DOMAIN st ip, latest h' ip) of
          (Some d, _) \<Rightarrow> \<lparr>event_pid = tgid_of (tc_pid_tgid ctx), event_kind = Network, event_target = c_str_lossy d, event_resolved = True\<rparr>
        | (None, Some name) \<Rightarrow> \<lparr>event_pid = tgid_of (tc_pid_tgid ctx), event_kind = Network, event_target = name, event_resolved = True\<rparr>
        | (None, None) \<Rightarrow> \<lparr>event_pid = tgid_of (tc_pid_tgid ctx), event_kind = Network,
                            event_target = dotted [sa ! 4, sa ! 5, sa ! 6, sa ! 7], event_resolved = False\<rparr>))"
      unfolding item connect_handled by (simp add: monitor_name [OF later] ip)
  qed (use held in \<open>force simp: event_allowed_def judged_name_def split: option.splits\<close>)+
qed

text \<open>
  C16. End to end for a connection to an IPv4 address (not loopback, not port 53): the kernel records
  it, and the event that the monitor decodes from the record is allowed exactly when the policy allows the
  name it is judged by.  That is the latest name the kernel map has accepted for the address before the
  connection, cut at its first NUL byte, where the map still holds one; otherwise the latest name the
  monitor itself has seen before it handles the record; an address without either is a violation.  The
  map of the monitor and that of the kernel programs are one object; insertions into it may fail and
  entries may be evicted at any time.
\<close>

theorem connection_decision:
  assumes "ipv4_connect ctx st sa"
    and "cache_step\<^sup>*\<^sup>* ([], no_caches) (h, c)" "ip_to_domain c = IP_TO_DOMAIN st"
    and "cache_step\<^sup>*\<^sup>* (h, c) (h', c')"
    and "ip = be_u32 (sa ! 4) (sa ! 5) (sa ! 6) (sa ! 7)"
  shows "\<exists>rec ev. EVENTS (handle_connect v ctx st) = EVENTS st @ [rec] \<and>
     handle_item evict (encode_event rec) c' = Returned (c', Some ev) \<and>
     event_pid ev = tgid_of (tc_pid_tgid ctx) \<and>
     (event_allowed api pol ev \<longleftrightarrow>
        (case judged_name h h' (IP_TO_DOMAIN st ip \<noteq> None) ip of
           Some name \<Rightarrow> name \<noteq> ''<ipv6-nao-suportado>'' \<and> domain_allowed pol name
         | None \<Rightarrow> False))"
  using assms by (rule connection_judged)

text \<open>
  A response for a name with a NUL in a label: the connection that follows is judged by what stands before
  the NUL, whatever the rest of the name is.
\<close>

theorem nul_name_judged_by_its_head:
  assumes "ipv4_connect ctx st sa"
    and "cache_step\<^sup>*\<^sup>* ([], no_caches) (h, c)" "ip_to_domain c = IP_TO_DOMAIN st"
    and "ip = be_u32 (sa ! 4) (sa ! 5) (sa ! 6) (sa ! 7)" "IP_TO_DOMAIN st ip \<noteq> None"
    and "latest (stored h) ip = Some (listed @ CHR 0x00 # rest)" "CHR 0x00 \<notin> set listed"
    and "domain_allowed pol listed" "listed \<noteq> ''<ipv6-nao-suportado>''"
  shows "\<exists>rec ev. EVENTS (handle_connect v ctx st) = EVENTS st @ [rec] \<and>
     handle_item evict (encode_event rec) c = Returned (c, Some ev) \<and> event_allowed api pol ev"
proof -
  have "until_nul (listed @ CHR 0x00 # rest) = listed"
    using assms(7) by (induction listed) (auto simp: until_nul_def)
  then have "judged_name h h (IP_TO_DOMAIN st ip \<noteq> None) ip = Some listed"
    using assms(5,6) by (simp add: judged_name_def)
  then show ?thesis
    using connection_judged [OF assms(1-3) rtranclp.rtrancl_refl assms(4), of v evict api pol] assms(8,9) by auto
qed

end
