(* ===== verification/Sync_Exec.thy ===== *)
theory Sync_Exec
  imports Sync_Enforcement
begin

text \<open>
  The system call rules of the synchronous mode: what \<open>lsm_exec_check\<close> does with the rules that
  \<open>try_compile_for_sync\<close> has written, against \<open>syscall_denied\<close> of the policy they come from.
\<close>

section \<open>One rule\<close>

text \<open>The part of a compiled rule that the hook compares with the path of the program.\<close>

definition exec_rule_hits :: "string \<Rightarrow> syscall_rule \<Rightarrow> bool" where
  "exec_rule_hits path r \<longleftrightarrow> prefix (take 120 (drop 7 (pattern r))) path"

lemma pattern_offset_rest:
  assumes "length e \<le> 120"
  shows "pattern_offset (string_to_bytes_128 (''execve:'' @ e)) = pad 128 (as_bytes e)"
proof (rule nth_equalityI)
  show "length (pattern_offset (string_to_bytes_128 (''execve:'' @ e))) = length (pad 128 (as_bytes e))"
    using assms by (simp add: pattern_offset_def)
  fix i
  assume "i < length (pattern_offset (string_to_bytes_128 (''execve:'' @ e)))"
  then have i: "i < 128" by (simp add: pattern_offset_def)
  have "string_to_bytes_128 (''execve:'' @ e) ! (i + 7) = pad 121 (as_bytes e) ! i" if "i < 120"
    using that assms by (simp add: string_to_bytes_pad pad_def take_as_bytes nth_append)
  then show "pattern_offset (string_to_bytes_128 (''execve:'' @ e)) ! i = pad 128 (as_bytes e) ! i"
    using i assms by (auto simp: pattern_offset_def pad_def nth_append)
qed

lemma bytes_128_take: "string_to_bytes_128 (take 127 s) = string_to_bytes_128 s"
  by (simp add: string_to_bytes_pad)

lemma exec_rule_matches_compiled:
  assumes "compile_syscall r = Inr x" and "CHR 0x00 \<notin> set (pattern r)"
    and "holds_path buf p" "length buf = 256"
  shows "exec_rule_matches buf (bpf_rule x) \<longleftrightarrow> exec_rule_hits p r"
proof -
  obtain e where e: "pattern r = ''execve:'' @ e" and x: "x = (string_to_bytes_128 (pattern r), kill_on_deny r)"
    using assms(1) by (auto simp: compile_syscall_Ok prefix_def)
  let ?b = "string_to_bytes_128 (''execve:'' @ take 120 e)"
  have off: "pattern_offset ?b = pad 128 (as_bytes (take 120 e))"
    by (rule pattern_offset_rest) simp
  have b: "fst x = ?b"
    using bytes_128_take [of "''execve:'' @ e"] by (simp add: x e)
  have start: "?b ! 0 = byte CHR ''e''" "?b ! 1 = byte CHR ''x''" "?b ! 2 = byte CHR ''e''"
    "?b ! 3 = byte CHR ''c''" "?b ! 4 = byte CHR ''v''" "?b ! 5 = byte CHR ''e''" "?b ! 6 = byte CHR '':''"
    by (simp_all add: string_to_bytes_pad pad_def)
  have no0: "CHR 0x00 \<notin> set (take 120 e)"
    using assms(2) by (auto simp: e dest: in_set_takeD)
  have "exec_rule_matches buf (bpf_rule x) \<longleftrightarrow> starts_with buf (pattern_offset ?b)"
    using b start by (cases x) (simp add: exec_rule_matches_def bpf_rule_def)
  also have "\<dots> \<longleftrightarrow> starts_with buf (pad 128 (as_bytes (take 120 e)))"
    by (rule arg_cong [OF off])
  also have "\<dots> \<longleftrightarrow> prefix (as_bytes (take 120 e)) (c_string buf)"
    using no0 assms(4) by (subst starts_with_c_string) (simp_all add: c_string_pad)
  finally show ?thesis
    using assms(3) by (simp add: exec_rule_hits_def holds_path_def e)
qed

section \<open>The hook\<close>

text \<open>The hook is asked about a monitored task and gets the program's path in \<open>buf\<close>.\<close>

definition exec_run :: "lsm_ctx \<Rightarrow> bpf_state \<Rightarrow> u8 list \<Rightarrow> bool" where
  "exec_run ctx st buf \<longleftrightarrow> hook_run ctx st buf \<and> \<not> lc_file_null ctx"

definition exec_hit :: "bpf_state \<Rightarrow> u8 list \<Rightarrow> bpf_syscall_rule option" where
  "exec_hit st buf = first_entry 16 (DENY_SYSCALLS_RULES st) (exec_rule_matches buf)"

lemma lsm_exec_check_run:
  assumes "exec_run ctx st buf" and "is_enforce_mode st"
  shows "lsm_exec_check ctx st =
    \<lparr>verdict = (if exec_hit st buf = None then 0 else - EACCES),
     signal = (case exec_hit st buf of
                 None \<Rightarrow> None
               | Some rule \<Rightarrow> if rule_kill_on_deny rule = 1 then Some 9 else None),
     after = st\<lparr>SCRATCH_PATH := buf\<rparr>\<rparr>"
proof -
  obtain r where "r \<ge> 0" "lc_d_path ctx (replicate 256 0) = (r, buf)"
    using assms by (auto simp: exec_run_def hook_run_def)
  then show ?thesis
    using assms by (auto simp: exec_run_def hook_run_def lsm_exec_check_def exec_hit_def split: option.splits)
qed

lemma exec_hit_compiled:
  assumes "try_compile_for_sync pol = Inr c" "fresh_tables st"
    and "\<forall>r \<in> set (deny_syscalls pol). CHR 0x00 \<notin> set (pattern r)"
    and "holds_path buf p" "length buf = 256"
  shows "rel_option (\<lambda>r rule. rule_kill_on_deny rule = (if kill_on_deny r then 1 else 0))
    (find (exec_rule_hits p) (deny_syscalls pol)) (exec_hit (populate_maps pol c st) buf)"
proof -
  note ok = assms(1) [unfolded try_compile_Ok]
  have "list_all2 (\<lambda>r x. compile_syscall r = Inr x) (deny_syscalls pol) (deny_syscalls_rules c)"
    using ok by (simp add: collect_results_Ok)
  then have "list_all2 (\<lambda>r rule. \<exists>x. compile_syscall r = Inr x \<and> rule = bpf_rule x \<and> r \<in> set (deny_syscalls pol))
      (deny_syscalls pol) (map bpf_rule (deny_syscalls_rules c))"
    unfolding list_all2_map2 by (rule list.rel_mono_strong) blast
  then have "rel_option (\<lambda>r rule. \<exists>x. compile_syscall r = Inr x \<and> rule = bpf_rule x \<and> r \<in> set (deny_syscalls pol))
      (find (exec_rule_hits p) (deny_syscalls pol))
      (find (exec_rule_matches buf) (map bpf_rule (deny_syscalls_rules c)))"
    by (rule find_list_all2) (use exec_rule_matches_compiled [OF _ _ assms(4,5)] assms(3) in auto)
  then have "rel_option (\<lambda>r rule. rule_kill_on_deny rule = (if kill_on_deny r then 1 else 0))
      (find (exec_rule_hits p) (deny_syscalls pol))
      (find (exec_rule_matches buf) (map bpf_rule (deny_syscalls_rules c)))"
    by (rule option.rel_mono_strong) (auto simp: compile_syscall_Ok bpf_rule_def)
  then show ?thesis
    using ok by (simp add: exec_hit_def populate_tables [OF assms(2,1)] first_entry_table)
qed

lemma exec_rule_hits_denied:
  assumes "try_compile_for_sync pol = Inr c" and "syscall_denied pol (''execve:'' @ p)"
  shows "\<exists>r \<in> set (deny_syscalls pol). exec_rule_hits p r"
proof -
  have colon: "\<forall>r \<in> set (deny_syscalls pol). prefix ''execve:'' (pattern r)"
  proof -
    have "list_all2 (\<lambda>r x. compile_syscall r = Inr x) (deny_syscalls pol) (deny_syscalls_rules c)"
      using assms(1) by (simp add: try_compile_Ok collect_results_Ok)
    then show ?thesis
      by (induction rule: list_all2_induct) (auto simp: compile_syscall_Ok)
  qed
  obtain r where r: "r \<in> set (deny_syscalls pol)" "rule_applies (''execve:'' @ p) r"
    using assms(2) by (auto simp: syscall_denied_def list_ex_iff)
  then have "pattern r = ''execve:'' @ p"
    using colon by (auto simp: rule_applies_iff prefix_def)
  then have "exec_rule_hits p r"
    by (simp add: exec_rule_hits_def take_is_prefix)
  then show ?thesis
    using r(1) by blast
qed

text \<open>
  C14. In enforce mode \<open>lsm_exec_check\<close> refuses a program exactly when some \<open>execve:\<close> rule of the
  policy names a prefix of its path (of at most 120 bytes); the first such rule in the order of the
  policy decides whether the task also gets SIGKILL.  So every program that the policy's own
  \<open>syscall_denied\<close> refuses is refused.
\<close>

theorem exec_check_decides:
  assumes compiled: "try_compile_for_sync pol = Inr c" "fresh_tables st" "pol_mode pol = Enforce"
    and rules: "\<forall>r \<in> set (deny_syscalls pol). CHR 0x00 \<notin> set (pattern r)"
    and run: "exec_run ctx (populate_maps pol c st) buf" "holds_path buf p" "length buf = 256"
  shows "(case find (\<lambda>r. prefix (take 120 (drop 7 (pattern r))) p) (deny_syscalls pol) of
            None \<Rightarrow> verdict (lsm_exec_check ctx (populate_maps pol c st)) = 0 \<and>
                    signal (lsm_exec_check ctx (populate_maps pol c st)) = None
          | Some r \<Rightarrow> verdict (lsm_exec_check ctx (populate_maps pol c st)) = - 13 \<and>
                      signal (lsm_exec_check ctx (populate_maps pol c st)) =
                        (if kill_on_deny r then Some 9 else None)) \<and>
     (syscall_denied pol (''execve:'' @ p) \<longrightarrow>
        verdict (lsm_exec_check ctx (populate_maps pol c st)) = - 13)"
proof -
  let ?st = "populate_maps pol c st"
  let ?find = "find (exec_rule_hits p) (deny_syscalls pol)"
  have out: "lsm_exec_check ctx ?st =
    \<lparr>verdict = (if exec_hit ?st buf = None then 0 else - EACCES),
     signal = (case exec_hit ?st buf of
                 None \<Rightarrow> None
               | Some rule \<Rightarrow> if rule_kill_on_deny rule = 1 then Some 9 else None),
     after = ?st\<lparr>SCRATCH_PATH := buf\<rparr>\<rparr>"
    by (rule lsm_exec_check_run [OF run(1)]) (simp add: populate_mode compiled(3))
  have rel: "rel_option (\<lambda>r rule. rule_kill_on_deny rule = (if kill_on_deny r then 1 else 0))
    ?find (exec_hit ?st buf)"
    by (rule exec_hit_compiled [OF compiled(1,2) rules run(2,3)])
  have eq: "find (\<lambda>r. prefix (take 120 (drop 7 (pattern r))) p) (deny_syscalls pol) = ?find"
    by (simp add: exec_rule_hits_def [abs_def])
  have "?find \<noteq> None" if "syscall_denied pol (''execve:'' @ p)"
    using exec_rule_hits_denied [OF compiled(1) that] by (auto simp: find_is_Some)
  then show ?thesis
    unfolding eq using rel by (cases ?find) (auto simp: out EACCES_def option_rel_Some1)
qed

end
