(* ===== verification/Sync_Witness.thy ===== *)
theory Sync_Witness
  imports Sync_Exec
begin

text \<open>
  A policy that compiles for the synchronous mode, the kernel maps that hold it, and the properties
  of the compiler and the hooks applied to them.
\<close>

section \<open>The example\<close>

definition sync_raw :: raw_policy where
  "sync_raw =
     \<lparr>raw_mode = ''enforce'',
      raw_fs = \<lparr>rf_allow_read = [''/data/**''], rf_allow_write = [''/data/out/**''],
                rf_deny_always = [''**/.env'', ''/data/secret/**'']\<rparr>,
      raw_net = \<lparr>rn_allow_domains = [], rn_deny_all_else = True\<rparr>,
      raw_sys = \<lparr>rs_deny = [Structured ''execve:/bin/sh'' True]\<rparr>\<rparr>"

definition sync_policy :: "re_node list policy" where
  "sync_policy =
     \<lparr>pol_mode = Enforce,
      compiled_deny = [glob_nodes (chars ''**/.env''), glob_nodes (chars ''/data/secret/**'')],
      compiled_allow_read = [glob_nodes (chars ''/data/**'')],
      compiled_allow_write = [glob_nodes (chars ''/data/out/**'')],
      allow_domains = [],
      deny_all_else = True,
      deny_syscalls = [\<lparr>pattern = ''execve:/bin/sh'', kill_on_deny = True\<rparr>],
      raw_deny_always = [''**/.env'', ''/data/secret/**''],
      raw_allow_read = [''/data/**''],
      raw_allow_write = [''/data/out/**'']\<rparr>"

definition sync_tables :: sync_compiled_policy where
  "sync_tables =
     \<lparr>allow_read_prefixes = [string_to_bytes_128 ''/data/''],
      allow_write_prefixes = [string_to_bytes_128 ''/data/out/''],
      deny_always_prefixes = [string_to_bytes_128 ''/data/secret/''],
      deny_syscalls_rules = [(string_to_bytes_128 ''execve:/bin/sh'', True)]\<rparr>"

definition sync_maps :: bpf_state where
  "sync_maps = initial_maps\<lparr>MONITORED_PIDS := map_insert Map.empty 42 1\<rparr>"

abbreviation sync_state :: bpf_state where
  "sync_state \<equiv> populate_maps sync_policy sync_tables sync_maps"

definition example_ctx :: "string \<Rightarrow> u32 \<Rightarrow> lsm_ctx" where
  "example_ctx p f_mode =
     \<lparr>lc_pid_tgid = 0x2A0000002A, lc_arg0_null = False, lc_file_null = False, lc_scratch = True,
      lc_d_path = (\<lambda>buf. (int (length p) + 1, pad 256 (as_bytes p))),
      lc_read_kernel = (\<lambda>off. if off = 4 then Some f_mode else None), lc_room = True\<rparr>"

lemma sync_policy_loads: "from_yaml mini_api (\<lambda>_. Inr sync_raw) [] = Inr sync_policy"
  by (simp add: from_yaml_def from_raw_def sync_raw_def sync_policy_def mini_glob str_ok_ascii
      parse_mode_def)

lemma sync_policy_valid: "globs_valid sync_policy"
  by (simp add: globs_valid_def sync_policy_def valid_str_ascii)

lemma sync_policy_compiles: "try_compile_for_sync sync_policy = Inr sync_tables"
proof -
  have "extract_prefix ''/data/**'' = Inr ''/data/''" "extract_prefix ''/data/out/**'' = Inr ''/data/out/''"
    "extract_prefix ''/data/secret/**'' = Inr ''/data/secret/''"
    by code_simp+
  moreover have "is_static_security_rule ''**/.env''" "\<not> is_static_security_rule ''/data/secret/**''"
    by code_simp+
  ultimately show ?thesis
    by (simp add: try_compile_for_sync_def sync_policy_def sync_tables_def compile_prefix_def
        compile_syscall_def)
qed

lemma sync_fresh: "fresh_tables sync_maps"
  by (simp add: fresh_tables_def sync_maps_def initial_maps_def)

lemma example_tgid: "tgid_of 0x2A0000002A = 42"
  by (simp add: tgid_of_def drop_bit_eq_div)

lemma populate_monitored [simp]: "is_monitored (populate_maps pol c st) pid = is_monitored st pid"
  by (simp add: is_monitored_def populate_maps_def)

lemma sync_monitored: "is_monitored sync_maps 42"
  by (simp add: is_monitored_def sync_maps_def map_insert_def)

lemma example_run: "hook_run (example_ctx p m) sync_state (pad 256 (as_bytes p))"
  using sync_monitored
  by (auto simp: hook_run_def example_ctx_def example_tgid intro!: exI [of _ "int (length p) + 1"])

lemma example_write: "opens_for_write (example_ctx p m) sync_state \<longleftrightarrow> m AND 2 \<noteq> 0"
  by (simp add: opens_for_write_def example_ctx_def get_f_mode_offset_def populate_maps_def
      sync_maps_def initial_maps_def)

lemma example_holds: "CHR 0x00 \<notin> set p \<Longrightarrow> length p < 256 \<Longrightarrow> holds_path (pad 256 (as_bytes p)) p"
  by (simp add: holds_path_def c_string_pad)

lemma sync_dirs: "sync_dir ''/data/**''" "sync_dir ''/data/out/**''" "sync_dir ''/data/secret/**''"
proof -
  have dir: "sync_dir (d @ ''/**'')" if "dir_glob d" "length d \<le> 126" "ascii d" for d
    using that str_ok_ascii by (auto simp: sync_dir_def)
  show "sync_dir ''/data/**''" "sync_dir ''/data/out/**''" "sync_dir ''/data/secret/**''"
    using dir [of "''/data''"] dir [of "''/data/out''"] dir [of "''/data/secret''"]
    by (simp_all add: dir_glob_def)
qed

section \<open>Witnesses\<close>

theorem sync_tables_fit_witness:
  "length (allow_read_prefixes sync_tables) \<le> 16 \<and> string_to_bytes_128 ''/data/out/'' ! 127 = 0"
  using sync_tables_fit [OF sync_policy_compiles] by (simp add: sync_tables_def)

theorem is_sensitive_path_correct_witness:
  "is_sensitive_path (pad 256 (as_bytes ''/home/u/.ssh/config'')) \<and>
   \<not> is_sensitive_path (pad 256 (as_bytes ''/home/u/.sshd''))"
proof -
  have "sensitive ''/home/u/.ssh/config''" "\<not> sensitive ''/home/u/.sshd''"
    by code_simp+
  then show ?thesis
    using is_sensitive_path_correct [of "pad 256 (as_bytes ''/home/u/.ssh/config'')" "''/home/u/.ssh/config''"]
      is_sensitive_path_correct [of "pad 256 (as_bytes ''/home/u/.sshd'')" "''/home/u/.sshd''"]
    by (simp add: example_holds del: as_bytes_simps)
qed

lemma sync_enforce: "is_enforce_mode sync_state"
  by (simp add: populate_mode sync_policy_def)

lemma ascii_data: "ascii ''/data/x''"
  by simp

lemma sync_globs:
  "raw_deny_always sync_policy = [''**/.env'', ''/data/secret/**'']"
  "raw_allow_read sync_policy = [''/data/**'']"
  "raw_allow_write sync_policy = [''/data/out/**'']"
  by (simp_all add: sync_policy_def)

lemma sync_decision:
  "glob_covers ''/data/**'' ''/data/x''" "\<not> glob_covers ''**/.env'' ''/data/x''"
  "\<not> glob_covers ''/data/secret/**'' ''/data/x''" "\<not> glob_covers ''/data/out/**'' ''/data/x''"
  "\<not> sensitive ''/data/x''"
  by code_simp+

theorem sync_agrees_with_policy_witness:
  "verdict (lsm_file_open (example_ctx ''/data/x'' 1) sync_state) = 0 \<and>
   verdict (lsm_file_open (example_ctx ''/data/x'' 3) sync_state) \<noteq> 0"
proof -
  have agree: "verdict (lsm_file_open (example_ctx ''/data/x'' m) sync_state) = 0 \<longleftrightarrow>
      path_allowed mini_api sync_policy ''/data/x''
        (opens_for_write (example_ctx ''/data/x'' m) sync_state) \<and> \<not> sensitive ''/data/x''" for m
  proof (rule sync_agrees_with_policy [OF mini.regex_engine_axioms sync_policy_loads sync_policy_valid
        _ sync_policy_compiles sync_fresh _ _ example_run])
    show "\<forall>g \<in> set (raw_deny_always sync_policy).
        sync_dir g \<and> \<not> is_static_security_rule g \<or> g \<in> set native_rules"
    proof -
      have "\<not> is_static_security_rule ''/data/secret/**''"
        by code_simp
      then show ?thesis
        by (simp add: sync_policy_def sync_dirs native_rules_def)
    qed
    show "holds_path (pad 256 (as_bytes ''/data/x'')) ''/data/x''"
      by (rule example_holds) simp_all
    show "newline \<notin> set (chars ''/data/x'')"
      by code_simp
  qed (simp_all add: valid_str_ascii, simp_all add: sync_policy_def sync_dirs)
  have "path_allowed mini_api sync_policy ''/data/x'' w \<longleftrightarrow> \<not> w" for w
    unfolding path_allowed_globs [OF mini.regex_engine_axioms sync_policy_loads sync_policy_valid
        valid_str_ascii [OF ascii_data]]
    using sync_decision by (cases w) (simp_all only: sync_globs list.set if_True if_False ball_simps bex_simps simp_thms)
  then show ?thesis
    using sync_decision by (simp add: agree example_write)
qed

lemma table_entries: "list_all (\<lambda>e. length e = 128) vs \<Longrightarrow> entries_128 (table_of vs)"
  by (auto simp: entries_128_def ran_def table_of_def list_all_length split: if_splits)

lemma sync_entries:
  "entries_128 (DENY_ALWAYS_PREFIXES sync_state)" "entries_128 (ALLOW_WRITE_PREFIXES sync_state)"
  "entries_128 (ALLOW_READ_PREFIXES sync_state)"
  unfolding populate_tables [OF sync_fresh sync_policy_compiles]
  by (simp_all add: table_entries sync_tables_def string_to_bytes_pad)

theorem lsm_file_open_enforce_witness:
  "verdict (lsm_file_open (example_ctx ''/data/.env'' 1) sync_state) = - EACCES"
proof -
  let ?ctx = "example_ctx ''/data/.env'' 1" and ?buf = "pad 256 (as_bytes ''/data/.env'')"
  have "sensitive ''/data/.env''"
    by code_simp
  moreover have "lc_d_path ?ctx (replicate 256 0) = (int (length ''/data/.env'') + 1, ?buf)"
    by (simp add: example_ctx_def)
  moreover have "is_monitored sync_state (tgid_of (lc_pid_tgid ?ctx))" "\<not> lc_arg0_null ?ctx" "lc_scratch ?ctx"
    using example_run [of "''/data/.env''" 1] by (simp_all add: hook_run_def)
  moreover have "holds_path ?buf ''/data/.env''"
    by (rule example_holds) simp_all
  ultimately show ?thesis
    using lsm_file_open_enforce [OF sync_enforce _ _ _ _ _ _ _ sync_entries, of ?ctx _ ?buf "''/data/.env''"]
    by (auto simp del: as_bytes_simps)
qed

theorem lsm_file_open_monitor_witness:
  "EVENTS (after (lsm_file_open (example_ctx ''/data/.env'' 1) (sync_state\<lparr>ENFORCE_MODE := map_insert Map.empty 0 0\<rparr>))) =
     [\<lparr>ev_pid = 42, ev_type = EVENT_TYPE_READ, ev_resolved = 0, ev_target = pad 256 (as_bytes ''/data/.env'')\<rparr>]"
proof -
  let ?st = "sync_state\<lparr>ENFORCE_MODE := map_insert Map.empty 0 0\<rparr>" and ?strict = "sync_state\<lparr>ENFORCE_MODE := [0 \<mapsto> 1]\<rparr>"
  let ?ctx = "example_ctx ''/data/.env'' 1" and ?buf = "pad 256 (as_bytes ''/data/.env'')"
  have run: "hook_run ?ctx ?strict ?buf"
    using example_run [of "''/data/.env''" 1] by (simp add: hook_run_def is_monitored_def)
  have "sensitive ''/data/.env''"
    by code_simp
  then have "\<not> hook_permits (?strict, ?buf) w" for w
    by (simp add: hook_access.decision hook_denied_def is_sensitive_path_correct_iff [OF example_holds] del: as_bytes_simps)
  then have "verdict (lsm_file_open ?ctx ?strict) \<noteq> 0"
    by (simp add: lsm_file_open_run [OF run] refuse_fs_def is_enforce_mode_def EACCES_def)
  moreover have "\<not> opens_for_write ?ctx ?st"
    using example_write [of "''/data/.env''" 1] by (simp add: opens_for_write_def get_f_mode_offset_def)
  moreover have "\<not> path_lost ?ctx ?st"
    by (simp add: path_lost_def example_ctx_def)
  moreover have "EVENTS ?st = []" "lc_room ?ctx" "tgid_of (lc_pid_tgid ?ctx) = 42" "\<not> is_enforce_mode ?st"
    "snd (lc_d_path ?ctx (replicate 256 0)) = ?buf"
    by (simp_all add: example_ctx_def example_tgid populate_maps_def sync_maps_def initial_maps_def is_enforce_mode_def map_insert_def)
  ultimately show ?thesis
    using lsm_file_open_monitor [of ?st ?ctx] by (simp add: pad_def)
qed

theorem exec_check_decides_witness:
  "verdict (lsm_exec_check (example_ctx ''/bin/sh'' 1) sync_state) = - 13 \<and>
   signal (lsm_exec_check (example_ctx ''/bin/sh'' 1) sync_state) = Some 9 \<and>
   verdict (lsm_exec_check (example_ctx ''/bin/ls'' 1) sync_state) = 0"
proof -
  have run: "exec_run (example_ctx p m) sync_state (pad 256 (as_bytes p))" for p m
    using example_run by (simp add: exec_run_def example_ctx_def)
  note decides = exec_check_decides [OF sync_policy_compiles sync_fresh _ _ run example_holds]
  show ?thesis
    using decides [of "''/bin/sh''" 1] decides [of "''/bin/ls''" 1]
    by (simp add: sync_policy_def)
qed

end
