(* ===== verification/Monitor_Paths.thy ===== *)
theory Monitor_Paths
  imports Monitor_Cache Sync_Witness
begin

text \<open>
  What becomes of the records of the tracing programs in the reactive mode: opened files, started
  programs, \<open>ptrace\<close> calls and received data, from the kernel program to the enforcer's decision.
\<close>

section \<open>From the kernel to the decision\<close>

text \<open>A bulk reader that leaves the C string \<open>s\<close> in the destination.\<close>

definition reads_str :: "trace_ctx \<Rightarrow> u64 \<Rightarrow> string \<Rightarrow> bool" where
  "reads_str ctx p s \<longleftrightarrow> length (tc_user_str ctx p (zeros 256)) = 256 \<and>
     c_string (tc_user_str ctx p (zeros 256)) = as_bytes s \<and> valid_str s"

lemma reads_str_lossy: "reads_str ctx p s \<Longrightarrow> c_str_lossy (tc_user_str ctx p (zeros 256)) = s"
  using from_utf8_lossy_valid [of "as_bytes s"] by (simp add: reads_str_def c_str_lossy_def valid_str_def)

lemma item_of_record:
  "length (ev_target e) = 256 \<Longrightarrow> handle_item evict (encode_event e) c = handle_event evict e c"
  by (simp add: handle_item_def decode_encode)

text \<open>The record of an opened file and the event it becomes.\<close>

lemma open_record:
  assumes "is_monitored st (tgid_of (tc_pid_tgid ctx))" and "tc_room ctx"
    and "tc_arg ctx 1 = Some p" and "reads_str ctx p path" and "EVENTS (handle_open ctx st) = EVENTS st @ [rec]"
  shows "handle_item evict (encode_event rec) c = Returned (c, Some
    \<lparr>event_pid = tgid_of (tc_pid_tgid ctx), event_kind = Read, event_target = path, event_resolved = False\<rparr>)"
proof -
  have "rec = \<lparr>ev_pid = tgid_of (tc_pid_tgid ctx), ev_type = EVENT_TYPE_READ, ev_resolved = 0,
      ev_target = tc_user_str ctx p (zeros 256)\<rparr>"
    using assms(1,2,3,5) by (simp add: handle_open_def)
  then show ?thesis
    using assms(4) reads_str_lossy [OF assms(4)] by (simp add: item_of_record reads_str_def handle_event_def)
qed

lemma open_emits:
  assumes "is_monitored st (tgid_of (tc_pid_tgid ctx))" and "tc_room ctx" and "tc_arg ctx 1 = Some p"
  shows "\<exists>rec. EVENTS (handle_open ctx st) = EVENTS st @ [rec]"
  using assms by (simp add: handle_open_def)

text \<open>
  In the reactive mode an opened file is judged by the path that was passed to the call and as a
  read, however it was opened: the event that reaches the enforcer for a monitored task is allowed
  exactly when the policy allows reading the path.
\<close>

theorem open_judged_as_read:
  assumes "is_monitored st (tgid_of (tc_pid_tgid ctx))" and "tc_room ctx"
    and "tc_arg ctx 1 = Some p" and "reads_str ctx p path"
  shows "\<exists>rec ev. EVENTS (handle_open ctx st) = EVENTS st @ [rec] \<and>
     handle_item evict (encode_event rec) c = Returned (c, Some ev) \<and>
     event_pid ev = tgid_of (tc_pid_tgid ctx) \<and>
     event_allowed api pol ev = path_allowed api pol path False"
proof -
  obtain rec where rec: "EVENTS (handle_open ctx st) = EVENTS st @ [rec]"
    using open_emits [OF assms(1-3)] by blast
  from open_record [OF assms rec] rec show ?thesis
    by (intro exI conjI) (auto simp: event_allowed_def)
qed

text \<open>
  In the reactive mode a started program is judged as the system call \<open>execve:<path>\<close>; it is
  killed exactly when the first rule for that call asks for it.
\<close>

theorem execve_judged_as_syscall:
  assumes "is_monitored st (tgid_of (tc_pid_tgid ctx))" and "tc_room ctx"
    and "tc_u64_at ctx 16 = Some p" "p \<noteq> 0" and "reads_str ctx p path" and "pol_mode pol = Enforce"
  shows "\<exists>rec ev. EVENTS (handle_execve ctx st) = EVENTS st @ [rec] \<and>
     handle_item evict (encode_event rec) c = Returned (c, Some ev) \<and>
     event_allowed api pol ev = (\<not> syscall_denied pol (''execve:'' @ path)) \<and>
     kills (fst (enforce api pol kill ev)) =
       (if should_kill_on_syscall_deny pol (''execve:'' @ path) then [tgid_of (tc_pid_tgid ctx)] else [])"
proof (intro exI conjI)
  let ?rec = "\<lparr>ev_pid = tgid_of (tc_pid_tgid ctx), ev_type = EVENT_TYPE_EXEC, ev_resolved = 0,
     ev_target = tc_user_str ctx p (zeros 256)\<rparr>"
  let ?ev = "\<lparr>event_pid = tgid_of (tc_pid_tgid ctx), event_kind = Syscall,
      event_target = ''execve:'' @ path, event_resolved = False\<rparr>"
  show "EVENTS (handle_execve ctx st) = EVENTS st @ [?rec]"
    using assms by (simp add: handle_execve_def)
  show "handle_item evict (encode_event ?rec) c = Returned (c, Some ?ev)"
    using assms(5) reads_str_lossy [OF assms(5)]
    by (simp add: item_of_record reads_str_def handle_event_def)
  show "event_allowed api pol ?ev = (\<not> syscall_denied pol (''execve:'' @ path))"
    by (simp add: event_allowed_def)
  then show "kills (fst (enforce api pol kill ?ev)) =
       (if should_kill_on_syscall_deny pol (''execve:'' @ path) then [tgid_of (tc_pid_tgid ctx)] else [])"
    using should_kill_denied assms(6) by (auto simp: enforce_kills kill_due_def)
qed

text \<open>
  The record of a \<open>ptrace\<close> call never reaches the enforcer: the event loop skips its type, so a
  rule that denies \<open>ptrace\<close> has no effect in the reactive mode.  The same holds for the write
  records of the file hook.
\<close>

theorem ptrace_never_reaches_enforcer:
  assumes "is_monitored st (tgid_of (tc_pid_tgid ctx))" and "tc_room ctx"
  shows "(\<exists>rec. EVENTS (handle_ptrace ctx st) = EVENTS st @ [rec] \<and>
       handle_item evict (encode_event rec) c = Returned (c, None)) \<and>
     (\<exists>rec. EVENTS (report_fs_event True pid True buf st) = EVENTS st @ [rec] \<and>
       handle_item evict (encode_event rec) c = Returned (c, None))"
  using assms
  by (simp add: handle_ptrace_def report_fs_event_def item_of_record handle_event_def event_type_of_def
      event_type_defs)

text \<open>
  Data that a monitored task receives with \<open>recvfrom\<close> on any socket is taken for a DNS response:
  when it does not parse as one, the event is a network access to \<open><dns-parse-error>\<close>, which a policy
  with \<open>deny_all_else\<close> answers, in enforce mode, by killing the task.
\<close>

theorem received_data_taken_for_dns:
  assumes "DNS_RECV_BUFF st (tc_pid_tgid ctx) = Some buff" and "tc_u64_at ctx 16 = Some ret" "sint ret > 12"
    and "tc_user_u16 ctx buff \<noteq> None" and "tc_room ctx" and "length (tc_user_buf ctx buff (zeros 256)) = 256"
    and "parse_dns_answers (tc_user_buf ctx buff (zeros 256)) = Returned None"
    and "deny_all_else pol" "pol_mode pol = Enforce" "\<not> domain_listed (allow_domains pol) dns_parse_error"
  shows "\<exists>rec ev. EVENTS (handle_exit_recvfrom ctx st) = EVENTS st @ [rec] \<and>
     handle_item evict (encode_event rec) c = Returned (c, Some ev) \<and>
     kills (fst (enforce api pol kill ev)) = [tgid_of (tc_pid_tgid ctx)]"
proof (intro exI conjI)
  let ?rec = "\<lparr>ev_pid = tgid_of (tc_pid_tgid ctx), ev_type = EVENT_TYPE_NETWORK, ev_resolved = 1,
     ev_target = tc_user_buf ctx buff (zeros 256)\<rparr>"
  let ?ev = "\<lparr>event_pid = tgid_of (tc_pid_tgid ctx), event_kind = Network,
      event_target = dns_parse_error, event_resolved = True\<rparr>"
  show "EVENTS (handle_exit_recvfrom ctx st) = EVENTS st @ [?rec]"
    using assms by (auto simp: handle_exit_recvfrom_def)
  show "handle_item evict (encode_event ?rec) c = Returned (c, Some ?ev)"
    using assms by (simp add: item_of_record handle_event_def)
  show "kills (fst (enforce api pol kill ?ev)) = [tgid_of (tc_pid_tgid ctx)]"
    using assms by (simp add: enforce_kills kill_due_def event_allowed_def domain_allowed_def)
qed

section \<open>Witnesses\<close>

definition call_ctx :: "string \<Rightarrow> trace_ctx" where
  "call_ctx s =
     \<lparr>tc_pid_tgid = 0x2A0000002A, tc_i32_at = (\<lambda>_. None), tc_u64_at = (\<lambda>_. Some 64), tc_arg = (\<lambda>_. Some 64),
      tc_user_u16 = (\<lambda>_. Some 2), tc_user_str = (\<lambda>_ b. pad (length b) (as_bytes s)),
      tc_user_buf = (\<lambda>_ b. replicate (length b) 0x41), tc_scratch = True, tc_room = True\<rparr>"

lemma call_ctx_tgid: "tgid_of (tc_pid_tgid (call_ctx s)) = 42"
  by (simp add: call_ctx_def tgid_of_def drop_bit_eq_div)

lemma call_ctx_monitored: "is_monitored example_start (tgid_of (tc_pid_tgid (call_ctx s)))"
  unfolding call_ctx_tgid by (simp add: example_start_def is_monitored_def)

lemma call_ctx_reads:
  assumes "ascii s" and "CHR 0x00 \<notin> set s" and "length s \<le> 255"
  shows "reads_str (call_ctx s) 64 s"
  using assms by (simp add: reads_str_def call_ctx_def c_string_pad valid_str_ascii)

theorem open_judged_as_read_witness:
  "\<exists>rec ev. EVENTS (handle_open (call_ctx ''/etc/passwd'') example_start) = [rec] \<and>
     handle_item (\<lambda>_. Inr {}) (encode_event rec) no_caches = Returned (no_caches, Some ev) \<and>
     event_allowed mini_api (test_policy Enforce) ev =
       path_allowed mini_api (test_policy Enforce) ''/etc/passwd'' False"
  using open_judged_as_read [OF call_ctx_monitored _ _ call_ctx_reads, of "''/etc/passwd''"
      "\<lambda>_. Inr {}" no_caches mini_api "test_policy Enforce"]
  by (simp add: call_ctx_def example_start_def initial_maps_def) blast

theorem execve_judged_as_syscall_witness:
  "\<exists>rec ev. EVENTS (handle_execve (call_ctx ''/bin/sh'') example_start) = [rec] \<and>
     handle_item (\<lambda>_. Inr {}) (encode_event rec) no_caches = Returned (no_caches, Some ev) \<and>
     kills (fst (enforce mini_api sync_policy (\<lambda>_. Inr ()) ev)) = [42]"
proof -
  have "should_kill_on_syscall_deny sync_policy (''execve:'' @ ''/bin/sh'')"
    by (simp add: should_kill_on_syscall_deny_def sync_policy_def rule_applies_def)
  then show ?thesis
    using execve_judged_as_syscall [OF call_ctx_monitored _ _ _ call_ctx_reads, of "''/bin/sh''" sync_policy
        "\<lambda>_. Inr {}" no_caches mini_api "\<lambda>_. Inr ()"]
    unfolding call_ctx_tgid
    by (simp add: call_ctx_def example_start_def initial_maps_def sync_policy_def) blast
qed

theorem ptrace_never_reaches_enforcer_witness:
  "\<exists>rec. EVENTS (handle_ptrace (call_ctx []) example_start) = [rec] \<and>
     handle_item (\<lambda>_. Inr {}) (encode_event rec) no_caches = Returned (no_caches, None)"
  using ptrace_never_reaches_enforcer [OF call_ctx_monitored, of "[]" "\<lambda>_. Inr {}" no_caches]
  by (simp add: call_ctx_def example_start_def initial_maps_def)

theorem received_data_taken_for_dns_witness:
  "\<exists>rec ev. EVENTS (handle_exit_recvfrom (call_ctx []) (example_start\<lparr>DNS_RECV_BUFF := [0x2A0000002A \<mapsto> 64]\<rparr>)) = [rec] \<and>
     handle_item (\<lambda>_. Inr {}) (encode_event rec) no_caches = Returned (no_caches, Some ev) \<and>
     kills (fst (enforce mini_api (test_policy Enforce) (\<lambda>_. Inr ()) ev)) = [42]"
proof -
  have none: "parse_dns_answers (replicate 256 0x41) = Returned None"
    by (simp add: parse_dns_answers_value u16_at_def be_u16_def Let_def)
  have unlisted: "\<not> domain_listed (allow_domains (test_policy Enforce)) dns_parse_error"
    by code_simp
  show ?thesis
    using received_data_taken_for_dns [of "example_start\<lparr>DNS_RECV_BUFF := [0x2A0000002A \<mapsto> 64]\<rparr>"
        "call_ctx []" 64 64 "test_policy Enforce" "\<lambda>_. Inr {}" no_caches mini_api "\<lambda>_. Inr ()"]
      none unlisted
    unfolding call_ctx_tgid
    by (simp add: call_ctx_def example_start_def initial_maps_def test_policy_def zeros_def)
qed

definition connect_ctx :: "u8 list \<Rightarrow> trace_ctx" where
  "connect_ctx sa = (call_ctx [])\<lparr>tc_user_buf := (\<lambda>_ b. sa)\<rparr>"

theorem connection_decision_witness:
  "\<exists>rec ev. EVENTS (handle_connect {} (connect_ctx [2, 0, 1, 187, 1, 2, 3, 4, 0, 0, 0, 0, 0, 0, 0, 0]) example_start) = [rec] \<and>
     handle_item (\<lambda>_. Inr {}) (encode_event rec) no_caches = Returned (no_caches, Some ev) \<and>
     \<not> event_allowed mini_api (test_policy Enforce) ev"
proof -
  let ?sa = "[2, 0, 1, 187, 1, 2, 3, 4, 0, 0, 0, 0, 0, 0, 0, 0]"
  have "ipv4_connect (connect_ctx ?sa) example_start ?sa"
    using call_ctx_monitored [of "[]"]
    by (simp add: ipv4_connect_def connect_ctx_def call_ctx_def be_u16_def)
  moreover have "ip_to_domain no_caches = IP_TO_DOMAIN example_start"
    by (simp add: no_caches_def example_start_def initial_maps_def)
  ultimately show ?thesis
    using connection_decision [OF _ rtranclp.rtrancl_refl _ rtranclp.rtrancl_refl refl, of "connect_ctx ?sa" example_start ?sa
        "{}" "\<lambda>_. Inr {}" mini_api "test_policy Enforce"]
    by (simp add: judged_name_def example_start_def initial_maps_def) blast
qed

text \<open>A response whose insertion the kernel refuses: the monitor knows the name, the kernel map does not.\<close>

definition answer_record :: bpf_event where
  "answer_record = \<lparr>ev_pid = 42, ev_type = EVENT_TYPE_NETWORK, ev_resolved = 1,
     ev_target = pad 256 (dns_response [0x12, 0x34, 0x81, 0x80] [''a''] [([0, 0, 0, 60], 0x01020304)])\<rparr>"

theorem caches_agree_witness:
  "\<exists>h c. cache_step\<^sup>*\<^sup>* ([], no_caches) (h, c) \<and> latest h 0x01020304 = Some ''a'' \<and>
     local_dns_cache c 0x01020304 = Some ''a'' \<and> latest (stored h) 0x01020304 = None"
proof -
  have "parse_dns_answers (ev_target answer_record) = Returned (Some (''a'', [0x01020304]))"
    unfolding answer_record_def bpf_event.select_convs by code_simp
  moreover have "decode_event (encode_event answer_record) = Some answer_record"
    by (rule decode_encode) (simp add: answer_record_def pad_def dns_response_def dns_question_def dns_label_def
        dns_answer_def ip_bytes_def count_bytes_def)
  ultimately have named: "namings (\<lambda>_. Inl ''full'') (encode_event answer_record) = [(0x01020304, ''a'', False)]"
    by (simp add: namings_def) (simp add: answer_record_def)
  obtain c ev where "handle_item (\<lambda>_. Inl ''full'') (encode_event answer_record) no_caches = Returned (c, ev)"
    using handle_item_total by (metis surj_pair)
  then have "cache_step\<^sup>*\<^sup>* ([], no_caches) ([(0x01020304, ''a'', False)], c)"
    using cache_step.intros [of "\<lambda>_. Inl ''full''" "encode_event answer_record" no_caches c ev "[]"] named by auto
  then show ?thesis
    using caches_agree [where h = "[(0x01020304, ''a'', False)]" and ip = "0x01020304"]
    by (intro exI [of _ "[(0x01020304, ''a'', False)]"] exI [of _ c]) simp
qed

end
