(* ===== verification/Monitor_Start.thy ===== *)
theory Monitor_Start
  imports Monitor_New
begin

text \<open>
  \<open>Monitor::start\<close> as a whole: the ring buffer is taken out of the object, then the event loop runs
  until the monitor is closed or \<open>poll\<close> fails.
\<close>

datatype 'b start_end = StartRunning | StartPanicked | StartReturned "('b monitor_error, unit) result"

definition start_of :: "loop_end \<Rightarrow> 'b start_end" where
  "start_of e =
     (case e of
        StillRunning \<Rightarrow> StartRunning
      | LoopPanicked \<Rightarrow> StartPanicked
      | LoopErr err \<Rightarrow> StartReturned (Err (IO err))
      | LoopOk \<Rightarrow> StartReturned (Ok ()))"

definition monitor_start ::
    "'b monitor_env \<Rightarrow> eviction \<Rightarrow> round list \<Rightarrow> dns_caches \<Rightarrow> 'b start_end \<times> dns_caches \<times> delivery list" where
  "monitor_start env evict rounds c =
     (case open_map env ''EVENTS'' of
        Inl e \<Rightarrow> (StartReturned (Err e), c, [])
      | Inr _ \<Rightarrow> (let (e, c, ds) = event_loop evict rounds c in (start_of e, c, ds)))"

end
