(* ===== verification/Session.thy ===== *)
theory Session
  imports Monitor_Start
begin

text \<open>
  The calls of the handler during one run of the event loop.  \<open>main\<close> and \<open>watch\<close> give the monitor a
  handler each; both hand the event to the enforcer.  The locale states what they share; its
  interpretations are in \<open>Watch\<close> and \<open>Cli\<close>.
\<close>

text \<open>
  One pass over what the loop delivers: for each item its own entries, then the effects of the handler.
  The handler is given the number of the delivery, since the killer may answer differently each time.
\<close>

fun deliver ::
    "(nat \<Rightarrow> event \<Rightarrow> 's \<Rightarrow> effect list \<times> 's) \<Rightarrow> nat \<Rightarrow> delivery list \<Rightarrow> 's \<Rightarrow> effect list \<times> 's" where
  "deliver handler i [] s = ([], s)"
| "deliver handler i ((said, ev) # ds) s =
     (let (es, s) = handler i ev s;
          (rest, s) = deliver handler (i + 1) ds s
      in (logs said @ es @ rest, s))"

text \<open>Everything up to the delivery number \<open>n\<close> and the rest, as two parts of one pass.\<close>

definition deliver_parts ::
    "(nat \<Rightarrow> event \<Rightarrow> 's \<Rightarrow> effect list \<times> 's) \<Rightarrow> nat \<Rightarrow> delivery list \<Rightarrow> 's \<Rightarrow> (effect list \<times> 's) \<times> effect list" where
  "deliver_parts handler n ds s =
     (let (early, s) = deliver handler 0 (take n ds) s;
          (late, _) = deliver handler (min n (length ds)) (drop n ds) s
      in ((early, s), late))"

lemma deliver_append:
  "deliver handler i (ds @ ds') s =
     (let (es, t) = deliver handler i ds s; (es', u) = deliver handler (i + length ds) ds' t in (es @ es', u))"
  by (induction ds arbitrary: i s) (auto simp: split_beta Let_def)

lemma deliver_parts_whole:
  "fst (fst (deliver_parts handler n ds s)) @ snd (deliver_parts handler n ds s) = fst (deliver handler 0 ds s)"
  using deliver_append [of handler 0 "take n ds" "drop n ds" s]
  by (simp add: deliver_parts_def split_beta Let_def min.commute)

lemma deliver_member:
  "ev \<in> snd ` set ds \<Longrightarrow> \<exists>j t. set (fst (handler j ev t)) \<subseteq> set (fst (deliver handler i ds s))"
proof (induction ds arbitrary: i s)
  case (Cons d ds)
  obtain said e where d: "d = (said, e)"
    by (cases d)
  show ?case
  proof (cases "e = ev")
    case True
    then have "set (fst (handler i ev s)) \<subseteq> set (fst (deliver handler i (d # ds) s))"
      by (auto simp: d split_beta Let_def)
    then show ?thesis by blast
  next
    case False
    then have "ev \<in> snd ` set ds"
      using Cons.prems d by auto
    then obtain j t where "set (fst (handler j ev t)) \<subseteq> set (fst (deliver handler (i + 1) ds (snd (handler i e s))))"
      using Cons.IH by blast
    then show ?thesis
      by (auto simp: d split_beta Let_def intro!: exI [of _ j] exI [of _ t])
  qed
qed simp

definition received_entry :: "event \<Rightarrow> log_call" where
  "received_entry ev =
     \<lparr>call_level = ''info'', call_component = ''enforcer_debug'', call_message = ''event received'',
      call_pid = Some (event_pid ev), call_event_type = Some (et_str (event_kind ev)),
      call_target = Some (event_target ev), call_action = None\<rparr>"

lemma enforce_received: "received_entry ev \<in> set (logged (fst (enforce api pol kill ev)))"
  by (simp add: enforce_def received_entry_def Let_def split: sum.split)

lemma enforce_keeps_log: "\<not> opens_log (fst (enforce api pol kill ev))"
  by (simp add: enforce_def Let_def split: sum.split)

text \<open>The entry that records a decision: \<open>allow\<close>, \<open>log\<close>, \<open>kill\<close> or \<open>kill_failed\<close>, as the policy asks.\<close>

definition decision_entry :: "('re, 'e) regex_api \<Rightarrow> 're policy \<Rightarrow> event \<Rightarrow> log_call \<Rightarrow> bool" where
  "decision_entry api pol ev c \<longleftrightarrow>
     call_component c = ''enforcer'' \<and> call_pid c = Some (event_pid ev) \<and>
     call_event_type c = Some (et_str (event_kind ev)) \<and> call_target c = Some (event_target ev) \<and>
     (call_action c = Some ''allow'' \<longleftrightarrow> event_allowed api pol ev) \<and>
     (call_action c \<in> {Some ''kill'', Some ''kill_failed''} \<longleftrightarrow> kill_due api pol ev)"

lemma enforce_decision: "\<exists>c \<in> set (logged (fst (enforce api pol kill ev))). decision_entry api pol ev c"
  by (auto simp: enforce_def decision_entry_def kill_due_def Let_def split: sum.split)

locale event_handler =
  fixes handler :: "nat \<Rightarrow> event \<Rightarrow> 's \<Rightarrow> effect list \<times> 's"
    and due :: "event \<Rightarrow> bool"
    and decides :: "event \<Rightarrow> log_call \<Rightarrow> bool"
  assumes handler_kills: "kills (fst (handler i ev s)) = (if due ev then [event_pid ev] else [])"
    and handler_logs: "received_entry ev \<in> set (logged (fst (handler i ev s)))"
    and handler_decides: "\<exists>c \<in> set (logged (fst (handler i ev s))). decides ev c"
    and handler_keeps_log: "\<not> opens_log (fst (handler i ev s))"
begin

lemma deliver_kills: "kills (fst (deliver handler i ds s)) = map event_pid (filter due (map snd ds))"
  by (induction ds arbitrary: i s) (auto simp: handler_kills split_beta Let_def)

lemma deliver_logs: "ev \<in> snd ` set ds \<Longrightarrow> received_entry ev \<in> set (logged (fst (deliver handler i ds s)))"
  using deliver_member [of ev ds handler i s] handler_logs by (fastforce simp: set_logged)

lemma deliver_decides: "ev \<in> snd ` set ds \<Longrightarrow> \<exists>c \<in> set (logged (fst (deliver handler i ds s))). decides ev c"
  using deliver_member [of ev ds handler i s] handler_decides by (fastforce simp: set_logged)

lemma deliver_keeps_log: "\<not> opens_log (fst (deliver handler i ds s))"
  by (induction ds arbitrary: i s) (auto simp: handler_keeps_log split_beta Let_def)

lemma parts_kills:
  "kills (fst (fst (deliver_parts handler n ds s))) = map event_pid (filter due (map snd (take n ds)))"
  "kills (snd (deliver_parts handler n ds s)) = map event_pid (filter due (map snd (drop n ds)))"
  by (simp_all add: deliver_parts_def deliver_kills split_beta Let_def)

lemma parts_audit:
  "ev \<in> snd ` set ds \<Longrightarrow>
   received_entry ev \<in> set (logged (fst (fst (deliver_parts handler n ds s)) @ snd (deliver_parts handler n ds s))) \<and>
   (\<exists>c \<in> set (logged (fst (fst (deliver_parts handler n ds s)) @ snd (deliver_parts handler n ds s))). decides ev c)"
  unfolding deliver_parts_whole using deliver_logs deliver_decides by blast

lemma parts_keep_log:
  "\<not> opens_log (fst (fst (deliver_parts handler n ds s)))" "\<not> opens_log (snd (deliver_parts handler n ds s))"
  by (simp_all add: deliver_parts_def deliver_keeps_log split_beta Let_def)

end

text \<open>A log that reports a session: every event on arrival and with its decision.\<close>

definition audited :: "('re, 'e) regex_api \<Rightarrow> 're policy \<Rightarrow> event list \<Rightarrow> log_call list \<Rightarrow> bool" where
  "audited api pol evs cs \<longleftrightarrow>
     (\<forall>ev \<in> set evs. received_entry ev \<in> set cs \<and> (\<exists>c \<in> set cs. decision_entry api pol ev c))"

lemma audited_mono: "audited api pol evs cs \<Longrightarrow> set cs \<subseteq> set cs' \<Longrightarrow> audited api pol evs cs'"
  by (auto simp: audited_def)

lemma audited_append: "audited api pol evs cs \<Longrightarrow> audited api pol evs' cs' \<Longrightarrow> audited api pol (evs @ evs') (cs @ cs')"
  by (auto simp: audited_def)

lemma audited_Nil [simp]: "audited api pol [] cs"
  by (simp add: audited_def)

text \<open>What \<open>start\<close> delivers, and the events among it.\<close>

definition deliveries :: "'b monitor_env \<Rightarrow> eviction \<Rightarrow> round list \<Rightarrow> dns_caches \<Rightarrow> delivery list" where
  "deliveries env evict rounds c = snd (snd (monitor_start env evict rounds c))"

text \<open>A record whose event does not depend on the caches is among the deliveries of a live round.\<close>

lemma delivered:
  assumes "item \<in> set (concat (map items_of (takeWhile live_round rs)))"
    and "\<And>c. handle_item evict item c = Returned (c, Some ev)"
    and "is_ok (open_map env ''EVENTS'')"
  shows "ev \<in> snd ` set (deliveries env evict rs c)"
proof -
  obtain c' ds where pass:
    "handle_items evict (concat (map items_of (takeWhile live_round rs))) c = Returned (c', ds)"
    "event_loop evict rs c = (end_of rs, c', ds)"
    using event_loop_pass [of evict rs c] by blast
  have "ev \<in> snd ` set ds"
    by (rule handle_items_reports [OF assms(1,2) pass(1)])
  then show ?thesis
    using assms(3) pass(2) by (cases "open_map env ''EVENTS''") (simp_all add: deliveries_def monitor_start_def)
qed

end
