(* ===== verification/Watch.thy ===== *)
theory Watch
  imports Session
begin

text \<open>
  \<open>watch.rs\<close>: the arguments of the agent and the supervision loop.  The loop consumes one \<open>attempt\<close>
  per round, which holds what the system of the round answers; it builds a monitor and runs its event
  loop with the handler of this file, and yields its effects and its result; the child's side of a round is in \<open>Watch_Child\<close>, the pipe between the two in \<open>Watch_Pipe\<close>.
\<close>

section \<open>Arguments\<close>

text \<open>\<open>CString::new\<close> refuses a zero byte and names its position.\<close>

definition c_string_new :: "string \<Rightarrow> (string, u8 list) result" where
  "c_string_new s =
     (case str_find s [CHR 0x00] of
        None \<Rightarrow> Ok (as_bytes s @ [0])
      | Some pos \<Rightarrow> Err (''nul byte found in provided data at position: '' @ show_nat pos))"

fun c_strings :: "nat \<Rightarrow> string list \<Rightarrow> (nat \<times> string, u8 list list) result" where
  "c_strings idx [] = Ok []"
| "c_strings idx (arg # args) =
     (case c_string_new arg of
        Inl e \<Rightarrow> Err (idx, (''argumento '' @ show_nat idx @ '': '' @ e))
      | Inr c_str \<Rightarrow> and_then (c_strings (idx + 1) args) (\<lambda>cs. Ok (c_str # cs)))"

definition parse_c_command :: "string list \<Rightarrow> (nat \<times> string, u8 list list) result" where
  "parse_c_command args =
     (if args = [] then Err (0, (''comando n'' @ [CHR 0xC3, CHR 0xA3] @ ''o pode ser vazio'')) else c_strings 0 args)"

lemma sublist_single_iff: "sublist [c] s \<longleftrightarrow> c \<in> set s"
  by (auto simp: sublist_def in_set_conv_decomp)

lemma c_string_new_cases:
  "c_string_new s = Inr c \<longleftrightarrow> CHR 0x00 \<notin> set s \<and> c = as_bytes s @ [0]"
  "(\<exists>e. c_string_new s = Inl e) \<longleftrightarrow> CHR 0x00 \<in> set s"
  using str_find_None [of s "[CHR 0x00]"] sublist_single_iff [of "CHR 0x00" s]
  by (auto simp: c_string_new_def split: option.splits)

lemma c_strings_Inr:
  "c_strings idx args = Inr cs \<longleftrightarrow>
     list_all (\<lambda>a. CHR 0x00 \<notin> set a) args \<and> cs = map (\<lambda>a. as_bytes a @ [0]) args"
proof (induction args arbitrary: idx cs)
  case (Cons a args)
  show ?case
  proof (cases "c_string_new a")
    case (Inl e)
    then show ?thesis
      using c_string_new_cases(2) [of a] by auto
  next
    case (Inr c)
    then show ?thesis
      using Cons.IH c_string_new_cases(1) [of a c] by (auto simp: and_then_Inr)
  qed
qed auto

lemma c_strings_Inl:
  "c_strings idx args = Inl (i, m) \<Longrightarrow>
     \<exists>k. i = idx + k \<and> k < length args \<and> CHR 0x00 \<in> set (args ! k) \<and> (\<forall>j < k. CHR 0x00 \<notin> set (args ! j))"
proof (induction args arbitrary: idx)
  case Nil
  then show ?case by simp
next
  case (Cons a args)
  show ?case
  proof (cases "CHR 0x00 \<in> set a")
    case True
    then obtain e where "c_string_new a = Inl e"
      using c_string_new_cases(2) by blast
    with Cons.prems True show ?thesis by auto
  next
    case False
    then have "c_string_new a = Inr (as_bytes a @ [0])"
      by (simp add: c_string_new_cases)
    with Cons.prems have "c_strings (idx + 1) args = Inl (i, m)"
      by (auto simp: and_then_Inl)
    then obtain k where "i = Suc idx + k" "k < length args" "CHR 0x00 \<in> set (args ! k)"
      "\<forall>j < k. CHR 0x00 \<notin> set (args ! j)"
      using Cons.IH [of "idx + 1"] by auto
    then show ?thesis
      using False by (intro exI [of _ "Suc k"]) (auto simp: less_Suc_eq_0_disj)
  qed
qed

text \<open>
  The command line is accepted exactly when it is not empty and no argument has a zero byte; then
  every argument becomes the C string of the same bytes.  Otherwise the error names the first
  offending argument.
\<close>

theorem parse_c_command_spec:
  "case parse_c_command args of
     Inr cs \<Rightarrow> args \<noteq> [] \<and> list_all (\<lambda>a. CHR 0x00 \<notin> set a) args \<and> cs = map (\<lambda>a. as_bytes a @ [0]) args
   | Inl (i, m) \<Rightarrow>
       if args = [] then i = 0
       else i < length args \<and> CHR 0x00 \<in> set (args ! i) \<and>
            list_all (\<lambda>a. CHR 0x00 \<notin> set a) (take i args)"
proof (cases "parse_c_command args")
  case (Inl e)
  then show ?thesis
    using c_strings_Inl [of 0 args "fst e" "snd e"]
    by (cases e) (auto simp: parse_c_command_def list_all_length split: if_splits)
next
  case (Inr cs)
  then show ?thesis
    by (simp add: parse_c_command_def c_strings_Inr split: if_splits)
qed

section \<open>The supervision loop\<close>

datatype wait_status = Signaled int | Exited int | OtherStatus

datatype ('n, 'b) watch_error = Errno 'n | MonitorFailed "'b monitor_error" | MaxRestartsExceeded | PolicyViolationHalt

text \<open>How foreign values are printed, and the conversion of an error number into an I/O error.\<close>

record ('n, 'b) watch_text =
  show_errno :: "'n \<Rightarrow> string"
  show_aya :: "'b \<Rightarrow> string"
  show_signal :: "int \<Rightarrow> string"
  show_io_error :: "io_error \<Rightarrow> string"
  errno_io :: "'n \<Rightarrow> io_error"

definition show_monitor_error :: "('n, 'b) watch_text \<Rightarrow> 'b monitor_error \<Rightarrow> string" where
  "show_monitor_error fmt = monitor_error_message (show_aya fmt) (show_io_error fmt)"

definition watch_error_message :: "('n, 'b) watch_text \<Rightarrow> ('n, 'b) watch_error \<Rightarrow> string" where
  "watch_error_message fmt e =
     (case e of
        Errno n \<Rightarrow> (''erro de sistema (fork/exec/wait): '' @ show_errno fmt n)
      | MonitorFailed m \<Rightarrow> (''erro de monitor: '' @ show_monitor_error fmt m)
      | MaxRestartsExceeded \<Rightarrow> (''n'' @ [CHR 0xC3, CHR 0xBA] @ ''mero m'' @ [CHR 0xC3, CHR 0xA1] @ ''ximo de rein'' @ [CHR 0xC3, CHR 0xAD] @ ''cios atingido, supervis'' @ [CHR 0xC3, CHR 0xA3] @ ''o encerrada'')
      | PolicyViolationHalt \<Rightarrow> (''agente encerrado por viola'' @ [CHR 0xC3, CHR 0xA7, CHR 0xC3, CHR 0xA3] @ ''o de pol'' @ [CHR 0xC3, CHR 0xAD] @ ''tica, supervis'' @ [CHR 0xC3, CHR 0xA3] @ ''o interrompida''))"

text \<open>
  One round: the answers of \<open>pipe2\<close>, \<open>fork\<close>, the closing of descriptors, the loader, the release write
  and \<open>waitpid\<close>; the rounds of the event loop with the evictions of the kernel and the answers of
  \<open>kill\<close> (to the delivery of each number).  The monitor has its own thread: \<open>at_seen\<close> is the number of
  deliveries whose handler has returned when the parent looks at the recorded reason, and \<open>at_gone\<close>
  tells whether the liveness thread found the agent gone.
\<close>

record ('n, 'b) attempt =
  at_pipe :: "('n, unit) result"
  at_fork :: "('n, u32) result"
  at_close_read :: "('n, unit) result"
  at_monitor :: "'b monitor_env"
  at_close_abort :: "('n, unit) result"
  at_write :: "('n, unit) result"
  at_close_write :: "('n, unit) result"
  at_evict :: eviction
  at_rounds :: "round list"
  at_kill :: "nat \<Rightarrow> killer"
  at_seen :: nat
  at_gone :: bool
  at_wait :: "('n, wait_status) result"

abbreviation warn_pid :: "u32 \<Rightarrow> string \<Rightarrow> log_call" where
  "warn_pid pid \<equiv> plain_call ''warn'' ''watch'' (Some pid)"

abbreviation info_pid :: "u32 \<Rightarrow> string \<Rightarrow> log_call" where
  "info_pid pid \<equiv> plain_call ''info'' ''watch'' (Some pid)"

abbreviation fatal_watch :: "string \<Rightarrow> log_call" where
  "fatal_watch \<equiv> fatal_call ''watch''"

definition logs_error :: "('e, unit) result \<Rightarrow> ('e \<Rightarrow> log_call) \<Rightarrow> log_call list" where
  "logs_error r f = (case r of Inl e \<Rightarrow> [f e] | Inr _ \<Rightarrow> [])"

text \<open>The handler records a kill, logs an error and leaves everything else.\<close>

definition on_result :: "(enforce_error, action) result \<Rightarrow> kill_reason option \<Rightarrow> kill_reason option" where
  "on_result r kr = (case r of Inr Kill \<Rightarrow> Some PolicyViolation | _ \<Rightarrow> kr)"

definition handler_log ::
    "('n, 'b) watch_text \<Rightarrow> u32 \<Rightarrow> (enforce_error, action) result \<Rightarrow> log_call list" where
  "handler_log fmt pid r =
     (case r of
        Inl e \<Rightarrow> [warn_pid pid (''erro ao processar evento: '' @ enforce_error_message (show_io_error fmt) e)]
      | Inr _ \<Rightarrow> [])"

definition watch_handler ::
    "('re, 'e) regex_api \<Rightarrow> ('n, 'b) watch_text \<Rightarrow> 're policy \<Rightarrow> (nat \<Rightarrow> killer) \<Rightarrow>
     nat \<Rightarrow> event \<Rightarrow> kill_reason option \<Rightarrow> effect list \<times> kill_reason option" where
  "watch_handler api fmt pol kill i ev kr =
     (let (es, r) = enforce api pol (kill i) ev
      in (es @ logs (handler_log fmt (event_pid ev) r), on_result r kr))"

interpretation watch_events: event_handler "watch_handler api fmt pol kill" "kill_due api pol" "decision_entry api pol"
  for api fmt pol kill
proof
  fix i ev and s :: "kill_reason option"
  show "kills (fst (watch_handler api fmt pol kill i ev s)) = (if kill_due api pol ev then [event_pid ev] else [])"
    by (simp add: watch_handler_def split_beta Let_def enforce_kills)
  show "received_entry ev \<in> set (logged (fst (watch_handler api fmt pol kill i ev s)))"
    by (simp add: watch_handler_def split_beta Let_def enforce_received)
  show "\<exists>c \<in> set (logged (fst (watch_handler api fmt pol kill i ev s))). decision_entry api pol ev c"
    using enforce_decision [of api pol "kill i" ev] by (auto simp: watch_handler_def split_beta Let_def)
  show "\<not> opens_log (fst (watch_handler api fmt pol kill i ev s))"
    by (simp add: watch_handler_def split_beta Let_def enforce_keeps_log)
qed

datatype 'a round_end = Finish 'a | Restart

type_synonym ('n, 'b) round_result = "effect list \<times> (('n, 'b) watch_error, unit) result round_end"

text \<open>The \<open>match wait_res?\<close>: end of the supervision, or another round.\<close>

definition after_wait ::
    "('n, 'b) watch_text \<Rightarrow> u32 option \<Rightarrow> u32 \<Rightarrow> u32 \<Rightarrow> kill_reason option \<Rightarrow> ('n, wait_status) result \<Rightarrow>
     log_call list \<times> (('n, 'b) watch_error, unit) result round_end" where
  "after_wait fmt max_restarts restart_count pid reason wait_res =
     (let max = (case max_restarts of Some n \<Rightarrow> n | None \<Rightarrow> 0);
          count = (''('' @ show_nat (unat (restart_count + 1)) @ ''/'' @ show_nat (unat max) @ '')'')
      in case wait_res of
        Inl e \<Rightarrow> ([], Finish (Err (Errno e)))
      | Inr (Signaled sig) \<Rightarrow>
          if reason = Some PolicyViolation then
            ([fatal_watch
                (''agente encerrado por viola'' @ [CHR 0xC3, CHR 0xA7, CHR 0xC3, CHR 0xA3] @ ''o de pol'' @ [CHR 0xC3, CHR 0xAD] @ ''tica -- supervis'' @ [CHR 0xC3, CHR 0xA3] @ ''o interrompida, requer interven'' @ [CHR 0xC3, CHR 0xA7, CHR 0xC3, CHR 0xA3] @ ''o humana'')],
             Finish (Err PolicyViolationHalt))
          else if restart_count \<ge> max then
            ([warn_pid pid (''agente encerrado pelo sinal '' @ show_signal fmt sig @ '', supervis'' @ [CHR 0xC3, CHR 0xA3] @ ''o finalizada'')],
             Finish (Ok ()))
          else
            ([warn_pid pid (''agente encerrado pelo sinal '' @ show_signal fmt sig @ '', reiniciando '' @ count)], Restart)
      | Inr (Exited code) \<Rightarrow>
          if code = 0 then
            ([info_pid pid (''agente finalizou com sucesso (c'' @ [CHR 0xC3, CHR 0xB3] @ ''digo 0), encerrando supervis'' @ [CHR 0xC3, CHR 0xA3] @ ''o'')], Finish (Ok ()))
          else if restart_count \<ge> max then
            ([warn_pid pid (''agente encerrou com erro (c'' @ [CHR 0xC3, CHR 0xB3] @ ''digo '' @ show_int code @ ''), supervis'' @ [CHR 0xC3, CHR 0xA3] @ ''o finalizada'')],
             Finish (Ok ()))
          else
            ([warn_pid pid (''agente encerrou com c'' @ [CHR 0xC3, CHR 0xB3] @ ''digo '' @ show_int code @ '', reiniciando '' @ count)], Restart)
      | Inr OtherStatus \<Rightarrow> ([], Restart))"

text \<open>
  The branch of the parent after \<open>fork\<close>.  The monitor thread and the parent write at the same time; the
  effects of the handlers that returned before the end of the wait come first, the others after it.
\<close>

definition supervise_child ::
    "('re, 'e) regex_api \<Rightarrow> ('n, 'b) watch_text \<Rightarrow> 're policy \<Rightarrow> u32 option \<Rightarrow> u32 \<Rightarrow> u32 \<Rightarrow>
     ('n, 'b) attempt \<Rightarrow> ('n, 'b) round_result" where
  "supervise_child api fmt pol max_restarts restart_count pid a =
     (let started =
            logs_error (at_close_read a) (\<lambda>e. fatal_watch (''falha ao fechar read_fd no pai: '' @ show_errno fmt e)) @
            [info_pid pid (''agente iniciado sob supervis'' @ [CHR 0xC3, CHR 0xA3] @ ''o'')];
          (building, built) = monitor_new (at_monitor a) pid pol
      in case built of
        Inl e \<Rightarrow>
          (logs (started @ building @
           logs_error (at_close_abort a)
             (\<lambda>err_close. warn_pid pid (''falha ao fechar write_fd ap'' @ [CHR 0xC3, CHR 0xB3] @ ''s erro no monitor: '' @ show_errno fmt err_close))),
           Finish (Err (MonitorFailed e)))
      | Inr monitor \<Rightarrow>
     (case at_write a of
        Inl e \<Rightarrow>
          (logs (started @ building @ [fatal_watch (''falha ao sinalizar libera'' @ [CHR 0xC3, CHR 0xA7, CHR 0xC3, CHR 0xA3] @ ''o para o filho: '' @ show_errno fmt e)]),
           Finish (Err (Errno e)))
      | Inr _ \<Rightarrow>
          let released =
                logs_error (at_close_write a)
                  (\<lambda>e. fatal_watch (''falha ao fechar write_fd no pai ap'' @ [CHR 0xC3, CHR 0xB3] @ ''s libera'' @ [CHR 0xC3, CHR 0xA7, CHR 0xC3, CHR 0xA3] @ ''o: '' @ show_errno fmt e));
              (start_res, _, ds) = monitor_start (at_monitor a) (at_evict a) (at_rounds a) (mb_caches monitor);
              ((early, reason), late) = deliver_parts (watch_handler api fmt pol (at_kill a)) (at_seen a) ds None;
              thread_end =
                (if at_gone a then [live_entry pid] else []) @
                (case start_res of
                   StartReturned (Inl e) \<Rightarrow> [fatal_watch (''falha no monitor: '' @ show_monitor_error fmt e)]
                 | _ \<Rightarrow> []);
              (waited, ending) = after_wait fmt max_restarts restart_count pid reason (at_wait a)
          in (logs (started @ building @ released) @ early @ logs waited @ late @ logs thread_end, ending)))"

definition supervise_once ::
    "('re, 'e) regex_api \<Rightarrow> ('n, 'b) watch_text \<Rightarrow> 're policy \<Rightarrow> u32 option \<Rightarrow> u32 \<Rightarrow>
     ('n, 'b) attempt \<Rightarrow> ('n, 'b) round_result" where
  "supervise_once api fmt pol max_restarts restart_count a =
     (case at_pipe a of
        Inl e \<Rightarrow>
          (logs [fatal_watch (''falha ao criar pipe de sincroniza'' @ [CHR 0xC3, CHR 0xA7, CHR 0xC3, CHR 0xA3] @ ''o: '' @ show_errno fmt e)], Finish (Err (Errno e)))
      | Inr _ \<Rightarrow>
     (case at_fork a of
        Inl e \<Rightarrow> ([], Finish (Err (Errno e)))
      | Inr child \<Rightarrow> supervise_child api fmt pol max_restarts restart_count child a))"

text \<open>The result is \<open>None\<close> when the rounds given so far have not ended the supervision.\<close>

fun run ::
    "('re, 'e) regex_api \<Rightarrow> ('n, 'b) watch_text \<Rightarrow> 're policy \<Rightarrow> u32 option \<Rightarrow> u32 \<Rightarrow> ('n, 'b) attempt list \<Rightarrow>
     effect list \<times> (('n, 'b) watch_error, unit) result option" where
  "run api fmt pol max_restarts restart_count [] = ([], None)"
| "run api fmt pol max_restarts restart_count (a # as) =
     (case supervise_once api fmt pol max_restarts restart_count a of
        (es, Finish r) \<Rightarrow> (es, Some r)
      | (es, Restart) \<Rightarrow>
          let (rest, r) = run api fmt pol max_restarts (restart_count + 1) as in (es @ rest, r))"

section \<open>Facts\<close>

definition budget :: "u32 option \<Rightarrow> u32" where
  "budget max_restarts = (case max_restarts of Some n \<Rightarrow> n | None \<Rightarrow> 0)"

text \<open>What the handler of a round is given, and a kill for a violation that it has recorded in time.\<close>

definition handed :: "('n, 'b) attempt \<Rightarrow> delivery list" where
  "handed a = deliveries (at_monitor a) (at_evict a) (at_rounds a) no_caches"

definition killed_at :: "('re, 'e) regex_api \<Rightarrow> 're policy \<Rightarrow> ('n, 'b) attempt \<Rightarrow> nat \<Rightarrow> bool" where
  "killed_at api pol a j \<longleftrightarrow> j < length (handed a) \<and> kill_due api pol (snd (handed a ! j)) \<and>
     at_kill a j (event_pid (snd (handed a ! j))) = Inr ()"

definition recorded_kill :: "('re, 'e) regex_api \<Rightarrow> 're policy \<Rightarrow> ('n, 'b) attempt \<Rightarrow> bool" where
  "recorded_kill api pol a \<longleftrightarrow> (\<exists>j < at_seen a. killed_at api pol a j)"

text \<open>The agent of a round was started and released.\<close>

definition released :: "'re policy \<Rightarrow> ('n, 'b) attempt \<Rightarrow> bool" where
  "released pol a \<longleftrightarrow> is_ok (at_pipe a) \<and>
     (\<exists>child. at_fork a = Inr child \<and> is_ok (snd (monitor_new (at_monitor a) child pol))) \<and> is_ok (at_write a)"

lemma on_result_kill:
  "on_result (snd (enforce api pol kill ev)) kr = Some PolicyViolation \<longleftrightarrow>
     kill_due api pol ev \<and> kill (event_pid ev) = Inr () \<or> kr = Some PolicyViolation"
  by (auto simp: on_result_def enforce_result kill_due_def split: sum.split)

lemma handler_next:
  "snd (watch_handler api fmt pol kill i ev kr) = Some PolicyViolation \<longleftrightarrow>
     kill_due api pol ev \<and> kill i (event_pid ev) = Inr () \<or> kr = Some PolicyViolation"
  by (simp add: watch_handler_def split_beta Let_def on_result_kill)

lemma deliver_reason:
  "snd (deliver (watch_handler api fmt pol kill) i ds kr) = Some PolicyViolation \<longleftrightarrow>
     kr = Some PolicyViolation \<or>
     (\<exists>j < length ds. kill_due api pol (snd (ds ! j)) \<and> kill (i + j) (event_pid (snd (ds ! j))) = Inr ())"
proof (induction ds arbitrary: i kr)
  case (Cons d ds)
  show ?case
    by (cases d) (auto simp: split_beta Let_def Cons.IH handler_next Ex_less_Suc2)
qed simp

lemma reason_recorded:
  "snd (fst (deliver_parts (watch_handler api fmt pol (at_kill a)) (at_seen a) (handed a) None)) = Some PolicyViolation \<longleftrightarrow>
     recorded_kill api pol a"
  by (auto simp: deliver_parts_def deliver_reason split_beta Let_def recorded_kill_def killed_at_def)

lemma built_caches: "snd (monitor_new env pid pol) = Inr m \<Longrightarrow> mb_caches m = no_caches"
  by (erule monitor_new_steps) simp

lemma wait_cases:
  "snd (after_wait fmt mx n pid reason w) =
     (case w of
        Inl e \<Rightarrow> Finish (Err (Errno e))
      | Inr (Signaled sig) \<Rightarrow>
          if reason = Some PolicyViolation then Finish (Err PolicyViolationHalt)
          else if budget mx \<le> n then Finish (Ok ()) else Restart
      | Inr (Exited code) \<Rightarrow> if code = 0 \<or> budget mx \<le> n then Finish (Ok ()) else Restart
      | Inr OtherStatus \<Rightarrow> Restart)"
  by (simp add: after_wait_def Let_def budget_def split: sum.split wait_status.split)

definition wait_end :: "bool \<Rightarrow> u32 option \<Rightarrow> u32 \<Rightarrow> ('n, wait_status) result \<Rightarrow> (('n, 'b) watch_error, unit) result round_end" where
  "wait_end violation mx n w =
     (case w of
        Inl e \<Rightarrow> Finish (Err (Errno e))
      | Inr (Signaled sig) \<Rightarrow>
          if violation then Finish (Err PolicyViolationHalt)
          else if budget mx \<le> n then Finish (Ok ()) else Restart
      | Inr (Exited code) \<Rightarrow> if code = 0 \<or> budget mx \<le> n then Finish (Ok ()) else Restart
      | Inr OtherStatus \<Rightarrow> Restart)"

text \<open>A released round, in one equation for its effects and one for its end.\<close>

lemma supervise_released:
  assumes "released pol a"
  shows "snd (supervise_once api fmt pol mx n a) = wait_end (recorded_kill api pol a) mx n (at_wait a)"
    and "kills (fst (supervise_once api fmt pol mx n a)) =
      map event_pid (filter (kill_due api pol) (map snd (handed a)))"
proof -
  obtain child m where ok: "at_fork a = Inr child" "snd (monitor_new (at_monitor a) child pol) = Inr m"
    "is_ok (at_pipe a)" "is_ok (at_write a)"
    using assms by (auto simp: released_def dest!: is_ok_obtain)
  let ?h = "watch_handler api fmt pol (at_kill a)"
  obtain building where new: "monitor_new (at_monitor a) child pol = (building, Inr m)"
    using ok(2) by (metis prod.collapse)
  have started: "snd (snd (monitor_start (at_monitor a) (at_evict a) (at_rounds a) (mb_caches m))) = handed a"
    by (simp add: handed_def deliveries_def built_caches [OF ok(2)])
  show "snd (supervise_once api fmt pol mx n a) = wait_end (recorded_kill api pol a) mx n (at_wait a)"
    using ok new started
    by (auto simp: supervise_once_def supervise_child_def split_beta Let_def wait_cases wait_end_def
        reason_recorded split: sum.split)
  have "kills (fst (supervise_once api fmt pol mx n a)) =
      kills (fst (fst (deliver_parts ?h (at_seen a) (handed a) None)) @
             snd (deliver_parts ?h (at_seen a) (handed a) None))"
    using ok new started
    by (auto simp: supervise_once_def supervise_child_def split_beta Let_def split: sum.split)
  then show "kills (fst (supervise_once api fmt pol mx n a)) =
      map event_pid (filter (kill_due api pol) (map snd (handed a)))"
    by (simp add: deliver_parts_whole watch_events.deliver_kills)
qed

lemma supervise_audits:
  assumes "released pol a"
  shows "audited api pol (map snd (handed a)) (logged (fst (supervise_once api fmt pol mx n a)))"
proof -
  obtain child building m where ok: "at_fork a = Inr child" "monitor_new (at_monitor a) child pol = (building, Inr m)"
    "is_ok (at_pipe a)" "is_ok (at_write a)"
    using assms by (auto simp: released_def dest!: is_ok_obtain) (metis prod.collapse)
  define parts where "parts = deliver_parts (watch_handler api fmt pol (at_kill a)) (at_seen a) (handed a) None"
  have "mb_caches m = no_caches"
    using built_caches [of "at_monitor a" child pol m] ok(2) by simp
  then have started: "snd (snd (monitor_start (at_monitor a) (at_evict a) (at_rounds a) (mb_caches m))) = handed a"
    by (simp add: handed_def deliveries_def)
  have "audited api pol (map snd (handed a)) (logged (fst (fst parts) @ snd parts))"
    using watch_events.parts_audit [of _ "handed a" api fmt pol "at_kill a" "at_seen a" None]
    by (simp add: audited_def parts_def)
  moreover have "set (logged (fst (fst parts) @ snd parts)) \<subseteq> set (logged (fst (supervise_once api fmt pol mx n a)))"
    using ok started
    by (auto simp: supervise_once_def supervise_child_def split_beta Let_def parts_def split: sum.split)
  ultimately show ?thesis
    by (rule audited_mono)
qed

lemma supervise_refused:
  assumes "\<not> released pol a"
  shows "\<exists>e. snd (supervise_once api fmt pol mx n a) = Finish (Inl e) \<and> e \<notin> {PolicyViolationHalt, MaxRestartsExceeded}"
    and "kills (fst (supervise_once api fmt pol mx n a)) = []"
  using assms
  by (auto simp: released_def supervise_once_def supervise_child_def split_beta Let_def is_ok_def
      split: sum.splits)

lemma once_end:
  "snd (supervise_once api fmt pol mx n a) = wait_end (recorded_kill api pol a) mx n (at_wait a) \<and> released pol a \<or>
   (\<exists>e. snd (supervise_once api fmt pol mx n a) = Finish (Inl e) \<and> e \<notin> {PolicyViolationHalt, MaxRestartsExceeded}) \<and>
     \<not> released pol a"
  using supervise_released(1) [of pol a api fmt mx n] supervise_refused(1) [of pol a api fmt mx n] by blast

lemma run_Cons:
  "snd (run api fmt pol mx n (a # as)) =
     (case snd (supervise_once api fmt pol mx n a) of Finish r \<Rightarrow> Some r
      | Restart \<Rightarrow> snd (run api fmt pol mx (n + 1) as))"
  "fst (run api fmt pol mx n (a # as)) =
     fst (supervise_once api fmt pol mx n a) @
     (case snd (supervise_once api fmt pol mx n a) of Finish r \<Rightarrow> []
      | Restart \<Rightarrow> fst (run api fmt pol mx (n + 1) as))"
  by (simp_all add: Let_def split: prod.split round_end.split)

declare run.simps(2) [simp del]
declare run_Cons [simp]

lemma restart_budget:
  assumes "snd (supervise_once api fmt pol mx n a) = Restart" and "at_wait a \<noteq> Inr OtherStatus"
  shows "n < budget mx"
  using assms once_end [of api fmt pol mx n a]
  by (auto simp: wait_end_def not_le split: sum.splits wait_status.splits if_splits)

lemma run_bounded:
  assumes "list_all (\<lambda>a. at_wait a \<noteq> Inr OtherStatus) as" and "n \<le> budget mx"
    and "length as > unat (budget mx - n)"
  shows "\<exists>r. snd (run api fmt pol mx n as) = Some r \<and>
     snd (run api fmt pol mx n (take (unat (budget mx - n) + 1) as)) = Some r"
  using assms
proof (induction as arbitrary: n)
  case Nil
  then show ?case by simp
next
  case (Cons a as)
  show ?case
  proof (cases "snd (supervise_once api fmt pol mx n a)")
    case (Finish r)
    then show ?thesis by simp
  next
    case Restart
    then have lt: "n < budget mx"
      using restart_budget Cons.prems(1) by auto
    then have n1: "n + 1 \<le> budget mx" "unat (budget mx - n) = Suc (unat (budget mx - (n + 1)))"
      by (simp_all only: inc_le_bound unat_diff_inc)
    show ?thesis
      using Cons.IH [of "n + 1"] Cons.prems n1 Restart by auto
  qed
qed

text \<open>
  C25. Supervision ends: as long as \<open>waitpid\<close> reports an exit or a signal, the loop returns after at
  most \<open>max_restarts + 1\<close> rounds, so an agent is started at most that often (once when the option is
  absent).
\<close>

theorem restarts_bounded:
  assumes "list_all (\<lambda>a. at_wait a \<noteq> Inr OtherStatus) as"
    and "length as > unat (case max_restarts of Some n \<Rightarrow> n | None \<Rightarrow> 0)"
  shows "\<exists>r. snd (run api fmt pol max_restarts 0 as) = Some r \<and>
     snd (run api fmt pol max_restarts 0 (take (unat (case max_restarts of Some n \<Rightarrow> n | None \<Rightarrow> 0) + 1) as)) = Some r"
  using run_bounded [of as 0 max_restarts api fmt pol] assms by (simp add: budget_def)

lemma run_ends:
  "snd (run api fmt pol mx n as) = Some r \<Longrightarrow> \<exists>a \<in> set as. \<exists>k. snd (supervise_once api fmt pol mx k a) = Finish r"
  by (induction as arbitrary: n) (auto split: round_end.splits)

lemma finish_cases:
  "snd (supervise_once api fmt pol mx k a) = Finish r \<Longrightarrow>
   (r = Inl PolicyViolationHalt \<longrightarrow> recorded_kill api pol a) \<and> r \<noteq> Inl MaxRestartsExceeded \<and>
   (r = Inr () \<longrightarrow> at_wait a = Inr (Exited 0) \<or> budget mx \<le> k)"
  using once_end [of api fmt pol mx k a]
  by (auto simp: wait_end_def split: sum.splits wait_status.splits if_splits)

lemma kill_halts:
  assumes "released pol a" and "recorded_kill api pol a" and "at_wait a = Inr (Signaled sig)"
  shows "snd (run api fmt pol mx n (a # as)) = Some (Inl PolicyViolationHalt)"
  using supervise_released(1) [OF assms(1), of api fmt mx n] assms(2,3) by (simp add: wait_end_def)

text \<open>
  C26. A policy violation stops the supervision: when the enforcer has killed for a violation, the
  handler has recorded it and the agent ends by a signal, the loop returns \<open>PolicyViolationHalt\<close> in
  that round, whatever restarts are left; and it returns that error only after such a kill.
\<close>

theorem violation_halts:
  assumes "released pol a" and "recorded_kill api pol a" and "at_wait a = Inr (Signaled sig)"
  shows "snd (run api fmt pol max_restarts n (a # as)) = Some (Inl PolicyViolationHalt) \<and>
     (snd (run api fmt pol max_restarts n' bs) = Some (Inl PolicyViolationHalt) \<longrightarrow>
        (\<exists>b \<in> set bs. recorded_kill api pol b))"
  using kill_halts [OF assms] run_ends finish_cases by blast

text \<open>
  When the process killed for a violation was a child of the agent and the agent then exits with
  an error code of its own, the recorded reason is not consulted: the agent is started again while
  restarts are left.
\<close>

theorem violation_with_exit_code_restarts:
  assumes "released pol a" and "recorded_kill api pol a" and "at_wait a = Inr (Exited code)" "code \<noteq> 0"
    and "max_restarts = Some m" "n < m"
  shows "snd (run api fmt pol max_restarts n (a # as)) = snd (run api fmt pol max_restarts (n + 1) as)"
  using supervise_released(1) [OF assms(1), of api fmt max_restarts n] assms(3-)
  by (simp add: wait_end_def budget_def not_le [symmetric])

text \<open>
  C27. The kill happens inside \<open>enforce\<close> and is recorded after it has returned, in another thread than the
  wait: when \<open>waitpid\<close> reports the death of the agent before the reason is stored, the agent that was
  killed for a violation is started again while restarts are left.
\<close>

theorem unrecorded_kill_restarts:
  assumes "released pol a" and "killed_at api pol a j" "at_seen a \<le> j" "\<not> recorded_kill api pol a"
    and "at_wait a = Inr (Signaled sig)" "max_restarts = Some m" "n < m"
  shows "event_pid (snd (handed a ! j)) \<in> set (kills (fst (run api fmt pol max_restarts n (a # as)))) \<and>
     snd (run api fmt pol max_restarts n (a # as)) = snd (run api fmt pol max_restarts (n + 1) as)"
proof
  have "event_pid (snd (handed a ! j)) \<in> set (kills (fst (supervise_once api fmt pol max_restarts n a)))"
    using assms(2) by (auto simp: supervise_released(2) [OF assms(1)] killed_at_def)
  then show "event_pid (snd (handed a ! j)) \<in> set (kills (fst (run api fmt pol max_restarts n (a # as))))"
    by simp
  show "snd (run api fmt pol max_restarts n (a # as)) = snd (run api fmt pol max_restarts (n + 1) as)"
    using supervise_released(1) [OF assms(1), of api fmt max_restarts n] assms(4-)
    by (simp add: wait_end_def budget_def not_le [symmetric])
qed

text \<open>
  The end of the restart budget is not an error: \<open>run\<close> never returns \<open>MaxRestartsExceeded\<close>.
\<close>

theorem run_outcome:
  "snd (run api fmt pol max_restarts n as) \<noteq> Some (Inl MaxRestartsExceeded)"
  using run_ends finish_cases by blast

text \<open>Every process that a supervision kills is that of a delivered event for which a kill is due.\<close>

lemma once_kills:
  "p \<in> set (kills (fst (supervise_once api fmt pol mx n a))) \<Longrightarrow>
   released pol a \<and> (\<exists>ev \<in> snd ` set (handed a). event_pid ev = p \<and> kill_due api pol ev)"
  using supervise_released(2) [of pol a api fmt mx n] supervise_refused(2) [of pol a api fmt mx n]
  by (cases "released pol a") auto

lemma run_kills:
  "p \<in> set (kills (fst (run api fmt pol mx n as))) \<Longrightarrow>
   \<exists>a \<in> set as. released pol a \<and> (\<exists>ev \<in> snd ` set (handed a). event_pid ev = p \<and> kill_due api pol ev)"
proof (induction as arbitrary: n)
  case (Cons a as)
  then show ?case
    using once_kills [of p api fmt pol mx n a] by (auto split: round_end.splits)
qed simp

section \<open>Every round that was run\<close>

text \<open>The rounds up to the one that ends the supervision, and the events that their enforcers were given.\<close>

fun executed ::
    "('re, 'e) regex_api \<Rightarrow> ('n, 'b) watch_text \<Rightarrow> 're policy \<Rightarrow> u32 option \<Rightarrow> u32 \<Rightarrow> ('n, 'b) attempt list \<Rightarrow>
     ('n, 'b) attempt list" where
  "executed api fmt pol mx n [] = []"
| "executed api fmt pol mx n (a # as) =
     a # (case snd (supervise_once api fmt pol mx n a) of
            Finish _ \<Rightarrow> []
          | Restart \<Rightarrow> executed api fmt pol mx (n + 1) as)"

definition round_events :: "'re policy \<Rightarrow> ('n, 'b) attempt \<Rightarrow> event list" where
  "round_events pol a = (if released pol a then map snd (handed a) else [])"

lemma once_enforced:
  "kills (fst (supervise_once api fmt pol mx n a)) = map event_pid (filter (kill_due api pol) (round_events pol a))"
  "audited api pol (round_events pol a) (logged (fst (supervise_once api fmt pol mx n a)))"
  using supervise_released(2) [of pol a api fmt mx n] supervise_refused(2) [of pol a api fmt mx n]
    supervise_audits [of pol a api fmt mx n]
  by (cases "released pol a"; simp add: round_events_def; simp add: audited_def)+

lemma run_enforced:
  "kills (fst (run api fmt pol mx n as)) =
     map event_pid (filter (kill_due api pol) (concat (map (round_events pol) (executed api fmt pol mx n as)))) \<and>
   audited api pol (concat (map (round_events pol) (executed api fmt pol mx n as))) (logged (fst (run api fmt pol mx n as))) \<and>
   prefix (executed api fmt pol mx n as) as"
proof (induction as arbitrary: n)
  case (Cons a as)
  note once = once_enforced [where api = api and fmt = fmt and pol = pol and mx = mx and n = n and a = a]
  show ?case
    using Cons.IH [of "n + 1"] once
    by (cases "snd (supervise_once api fmt pol mx n a)") (simp_all add: audited_append)
qed simp

text \<open>
  C7. The supervision does its duty in every round that it runs: the processes that it kills are exactly
  those of the events for which the policy asks for it, round by round and in the order of the records,
  and every event is logged on arrival and with the decision that was taken.  An agent that was not
  released yields no event.  The rounds that run are the first of those offered.
\<close>

theorem watch_enforced:
  "kills (fst (run api fmt pol mx n as)) =
     map event_pid (filter (kill_due api pol) (concat (map (round_events pol) (executed api fmt pol mx n as)))) \<and>
   (\<forall>ev \<in> set (concat (map (round_events pol) (executed api fmt pol mx n as))).
      received_entry ev \<in> set (logged (fst (run api fmt pol mx n as))) \<and>
      (\<exists>c \<in> set (logged (fst (run api fmt pol mx n as))). decision_entry api pol ev c)) \<and>
   prefix (executed api fmt pol mx n as) as"
  using run_enforced [of api fmt pol mx n as] by (simp add: audited_def)

section \<open>Examples\<close>

text \<open>A record of the file hook for the empty path, which the example policy does not allow to be read.\<close>

definition stray_record :: bpf_event where
  "stray_record = \<lparr>ev_pid = 43, ev_type = EVENT_TYPE_READ, ev_resolved = 0, ev_target = replicate 256 0\<rparr>"

definition stray_event :: event where
  "stray_event = \<lparr>event_pid = 43, event_kind = Read, event_target = [], event_resolved = False\<rparr>"

definition example_round :: "u8 list list \<Rightarrow> round" where
  "example_round items = \<lparr>round_closed = False, round_poll = PollReady True, round_items = items\<rparr>"

definition example_attempt :: "wait_status \<Rightarrow> u8 list list \<Rightarrow> nat \<Rightarrow> (unit, unit) attempt" where
  "example_attempt w items seen =
     \<lparr>at_pipe = Inr (), at_fork = Inr 42, at_close_read = Inr (), at_monitor = example_env,
      at_close_abort = Inr (), at_write = Inr (), at_close_write = Inr (), at_evict = (\<lambda>_. Inr {}),
      at_rounds = [example_round items], at_kill = (\<lambda>_ _. Inr ()), at_seen = seen, at_gone = True,
      at_wait = Inr w\<rparr>"

definition example_text :: "(unit, unit) watch_text" where
  "example_text =
     \<lparr>show_errno = (\<lambda>_. ''errno''), show_aya = (\<lambda>_. ''aya''), show_signal = (\<lambda>_. ''SIGKILL''),
      show_io_error = (\<lambda>_. ''io''), errno_io = (\<lambda>_. IoError OtherKind ''errno'')\<rparr>"

lemma example_released: "released pol (example_attempt w items seen)"
  by (simp add: released_def example_attempt_def example_builds)

lemma example_events_map: "open_map example_env ''EVENTS'' = Inr ()"
  by (simp add: open_map_def example_env_def)

lemma stray_handled: "handle_item evict (encode_event stray_record) c = Returned (c, Some stray_event)"
proof -
  have "c_str_lossy (replicate 256 0) = []"
    by code_simp
  then show ?thesis
    by (simp add: handle_item_def decode_encode stray_record_def stray_event_def handle_event_def Let_def
        event_type_of_def EVENT_TYPE_READ_def EVENT_TYPE_NETWORK_def EVENT_TYPE_EXEC_def)
qed

lemma example_handed:
  "handed (example_attempt w [] seen) = []"
  "map snd (handed (example_attempt w [encode_event stray_record] seen)) = [stray_event]"
  by (simp_all add: handed_def deliveries_def monitor_start_def example_attempt_def example_events_map
      example_round_def stray_handled)

lemma stray_due: "kill_due mini_api (test_policy Enforce) stray_event"
  by code_simp

lemma stray_killed: "killed_at mini_api (test_policy Enforce) (example_attempt w [encode_event stray_record] seen) 0"
proof -
  have "length (handed (example_attempt w [encode_event stray_record] seen)) = 1"
    using arg_cong [OF example_handed(2) [of w seen], of length] by simp
  moreover from this have "snd (handed (example_attempt w [encode_event stray_record] seen) ! 0) = stray_event"
    using arg_cong [OF example_handed(2) [of w seen], of hd] by (cases "handed (example_attempt w [encode_event stray_record] seen)") simp_all
  ultimately show ?thesis
    by (simp add: killed_at_def stray_due) (simp add: example_attempt_def)
qed

lemma example_recorded:
  "recorded_kill mini_api (test_policy Enforce) (example_attempt w [encode_event stray_record] (Suc n))"
  "\<not> recorded_kill api pol (example_attempt w items 0)"
  using stray_killed [of w "Suc n"] by (auto simp: recorded_kill_def) (auto simp: example_attempt_def)

theorem restarts_bounded_witness:
  "\<exists>r. snd (run mini_api example_text (test_policy Enforce) (Some 1) 0 (replicate 5 (example_attempt (Exited 1) [] 0))) = Some r \<and>
     snd (run mini_api example_text (test_policy Enforce) (Some 1) 0 (replicate 2 (example_attempt (Exited 1) [] 0))) = Some r"
  using restarts_bounded [of "replicate 5 (example_attempt (Exited 1) [] 0)" "Some 1" mini_api example_text "test_policy Enforce"]
  by (simp add: example_attempt_def eval_nat_numeral del: run_Cons)

theorem violation_halts_witness:
  "snd (run mini_api example_text (test_policy Enforce) (Some 3) 0
     [example_attempt (Signaled 9) [encode_event stray_record] 1]) = Some (Inl PolicyViolationHalt)"
  by (rule violation_halts [THEN conjunct1, OF example_released])
    (simp_all add: example_recorded(1) [of _ 0, simplified], simp add: example_attempt_def)

theorem violation_with_exit_code_restarts_witness:
  "snd (run mini_api example_text (test_policy Enforce) (Some 3) 0
     [example_attempt (Exited 1) [encode_event stray_record] 1]) = None"
  by (subst violation_with_exit_code_restarts [OF example_released, where code = 1 and m = 3])
    (simp_all add: example_recorded(1) [of _ 0, simplified], simp add: example_attempt_def)

theorem unrecorded_kill_restarts_witness:
  "snd (run mini_api example_text (test_policy Enforce) (Some 3) 0
     [example_attempt (Signaled 9) [encode_event stray_record] 0, example_attempt (Exited 0) [] 0]) = Some (Inr ())"
proof -
  have "snd (run mini_api example_text (test_policy Enforce) (Some 3) 0
      [example_attempt (Signaled 9) [encode_event stray_record] 0, example_attempt (Exited 0) [] 0]) =
    snd (run mini_api example_text (test_policy Enforce) (Some 3) (0 + 1) [example_attempt (Exited 0) [] 0])"
    by (rule unrecorded_kill_restarts [THEN conjunct2, OF example_released stray_killed])
      (simp_all add: example_recorded(2), simp_all add: example_attempt_def)
  also have "\<dots> = Some (Inr ())"
    by (simp add: supervise_released(1) [OF example_released] wait_end_def example_recorded(2))
      (simp add: example_attempt_def)
  finally show ?thesis .
qed

theorem watch_enforced_witness:
  "\<exists>c \<in> set (logged (fst (run mini_api example_text (test_policy Enforce) (Some 3) 0
     [example_attempt (Signaled 9) [encode_event stray_record] 1]))).
     decision_entry mini_api (test_policy Enforce) stray_event c"
proof -
  let ?a = "example_attempt (Signaled 9) [encode_event stray_record] 1"
  have "stray_event \<in> set (concat (map (round_events (test_policy Enforce))
      (executed mini_api example_text (test_policy Enforce) (Some 3) 0 [?a])))"
    by (simp add: round_events_def example_released example_handed del: set_map)
  with watch_enforced [of mini_api example_text "test_policy Enforce" "Some 3" 0 "[?a]"]
  show ?thesis by blast
qed

end
