(* ===== verification/Watch_Pipe.thy ===== *)
theory Watch_Pipe
  imports Watch
begin

text \<open>
  The start-up protocol of \<open>watch.rs\<close>: after \<open>fork\<close> the child arms its parent-death signal, checks
  that its parent is still there and blocks on the pipe; the parent attaches the monitor and only
  then writes the release byte.  Either process may die at any moment.
\<close>

section \<open>State\<close>

datatype parent_pc =
    PForked          \<comment> \<open>before \<open>Monitor::new\<close>\<close>
  | PAttached        \<comment> \<open>the monitor is attached, nothing written\<close>
  | PReleased        \<comment> \<open>the byte is written\<close>
  | PSupervising     \<comment> \<open>\<open>write_fd\<close> closed, waiting for the child\<close>
  | PFailed          \<comment> \<open>\<open>run\<close> returns an error\<close>
  | PDead

datatype child_pc =
    CForked
  | CWriteClosed
  | CArmed           \<comment> \<open>\<open>PR_SET_PDEATHSIG\<close> is set\<close>
  | CChecked         \<comment> \<open>the parent was alive; blocked in \<open>read\<close>\<close>
  | CReleasedPc      \<comment> \<open>the byte was read\<close>
  | CRunning         \<comment> \<open>\<open>execvp\<close> done: the agent\<close>
  | CGone

record pipe_sys =
  parent :: parent_pc
  child :: child_pc
  parent_write :: bool
  child_write :: bool
  bytes :: nat
  attached :: bool
  death_signal :: bool      \<comment> \<open>what \<open>PR_SET_PDEATHSIG\<close> has left set in the child\<close>
  signalled :: bool         \<comment> \<open>the kernel has sent it: the parent died\<close>

definition forked :: pipe_sys where
  "forked = \<lparr>parent = PForked, child = CForked, parent_write = True, child_write = True, bytes = 0,
             attached = False, death_signal = False, signalled = False\<rparr>"

text \<open>
  The death of the parent: its descriptors and its monitor go, and an armed child is sent SIGTERM.
  Nothing else happens to the child: where the signal has its default effect the child dies
  (\<open>child_dies\<close> below), but an agent may catch or ignore it and then goes on.
\<close>

definition parent_dies :: "'a pipe_sys_scheme \<Rightarrow> 'a pipe_sys_scheme" where
  "parent_dies s =
     s\<lparr>parent := PDead, parent_write := False, attached := False,
       signalled := signalled s \<or> death_signal s \<and> child s \<noteq> CGone\<rparr>"

section \<open>Steps\<close>

inductive pipe_step :: "pipe_sys \<Rightarrow> pipe_sys \<Rightarrow> bool" where
  child_close: "child s = CForked \<Longrightarrow> pipe_step s (s\<lparr>child := CWriteClosed, child_write := False\<rparr>)"
| child_arm: "child s = CWriteClosed \<Longrightarrow> pipe_step s (s\<lparr>child := CArmed, death_signal := True\<rparr>)"
| child_check: "child s = CArmed \<Longrightarrow> parent s \<noteq> PDead \<Longrightarrow> pipe_step s (s\<lparr>child := CChecked\<rparr>)"
| child_orphan: "child s = CArmed \<Longrightarrow> parent s = PDead \<Longrightarrow> pipe_step s (s\<lparr>child := CGone\<rparr>)"
| child_read: "child s = CChecked \<Longrightarrow> bytes s > 0 \<Longrightarrow>
    pipe_step s (s\<lparr>child := CReleasedPc, bytes := bytes s - 1\<rparr>)"
| child_eof: "child s = CChecked \<Longrightarrow> bytes s = 0 \<Longrightarrow> \<not> parent_write s \<Longrightarrow> \<not> child_write s \<Longrightarrow>
    pipe_step s (s\<lparr>child := CGone\<rparr>)"
| child_exec: "child s = CReleasedPc \<Longrightarrow>
    pipe_step s (s\<lparr>child := CRunning, death_signal := death_signal s \<and> kept\<rparr>)"
| child_dies: "pipe_step s (s\<lparr>child := CGone, child_write := False\<rparr>)"
| parent_attach: "parent s = PForked \<Longrightarrow> pipe_step s (s\<lparr>parent := PAttached, attached := True\<rparr>)"
| parent_abort: "parent s = PForked \<Longrightarrow>
    pipe_step s (s\<lparr>parent := PFailed, parent_write := False, attached := False\<rparr>)"
| parent_release: "parent s = PAttached \<Longrightarrow> child s \<noteq> CGone \<Longrightarrow>
    pipe_step s (s\<lparr>parent := PReleased, bytes := bytes s + 1\<rparr>)"
| parent_write_fails: "parent s = PAttached \<Longrightarrow>
    pipe_step s (s\<lparr>parent := PFailed, parent_write := False, attached := False\<rparr>)"
| parent_close: "parent s = PReleased \<Longrightarrow> pipe_step s (s\<lparr>parent := PSupervising, parent_write := False\<rparr>)"
| parent_done: "parent s = PSupervising \<Longrightarrow> child s = CGone \<Longrightarrow>
    pipe_step s (s\<lparr>parent := PDead, attached := False\<rparr>)"
| parent_death: "pipe_step s (parent_dies s)"

inductive_cases pipe_stepE: "pipe_step s t"

section \<open>Invariants\<close>

definition watched :: "pipe_sys \<Rightarrow> bool" where
  "watched s \<longleftrightarrow>
     (child s \<in> {CReleasedPc, CRunning} \<longrightarrow> parent s \<in> {PReleased, PSupervising, PDead}) \<and>
     (parent s \<in> {PAttached, PReleased, PSupervising} \<longrightarrow> attached s) \<and>
     (bytes s > 0 \<longrightarrow> parent s \<in> {PReleased, PSupervising, PDead}) \<and>
     (child s \<in> {CArmed, CChecked, CReleasedPc} \<longrightarrow> death_signal s) \<and>
     (child s \<in> {CChecked, CReleasedPc} \<and> parent s = PDead \<longrightarrow> signalled s) \<and>
     (child s = CRunning \<and> parent s = PDead \<longrightarrow> signalled s \<or> \<not> death_signal s)"

definition unblocked :: "pipe_sys \<Rightarrow> bool" where
  "unblocked s \<longleftrightarrow>
     (parent s \<in> {PReleased, PSupervising} \<longrightarrow> child s \<in> {CReleasedPc, CRunning, CGone} \<or> bytes s > 0) \<and>
     (parent s \<in> {PFailed, PDead, PSupervising} \<longrightarrow> \<not> parent_write s) \<and>
     (child s \<notin> {CForked, CGone} \<longrightarrow> \<not> child_write s)"

lemma watched_step: "pipe_step s t \<Longrightarrow> watched s \<Longrightarrow> watched t"
  by (induction rule: pipe_step.induct) (auto simp: watched_def parent_dies_def)

lemma unblocked_step: "pipe_step s t \<Longrightarrow> unblocked s \<Longrightarrow> unblocked t"
  by (induction rule: pipe_step.induct) (auto simp: unblocked_def parent_dies_def)

interpretation protocol: step_system "\<lambda>s. s = forked" pipe_step "\<lambda>s. watched s \<and> unblocked s"
proof
  show "s = forked \<Longrightarrow> watched s \<and> unblocked s" for s
    by (simp add: forked_def watched_def unblocked_def)
  show "pipe_step s t \<Longrightarrow> watched s \<and> unblocked s \<Longrightarrow> watched t \<and> unblocked t" for s t
    by (simp add: watched_step unblocked_step)
qed

text \<open>
  In every reachable state in which the command is running, the supervisor is alive, has released the
  child and its monitor is attached, or it has died and the kernel has sent the child its signal,
  unless \<open>execvp\<close> has cleared it.  And the child cannot hang: once the supervisor has released it,
  failed or died, its \<open>read\<close> returns.
\<close>

lemma watched_agent:
  assumes "watched s \<and> unblocked s"
  shows "child s = CRunning \<Longrightarrow>
      (parent s \<in> {PReleased, PSupervising} \<and> attached s) \<or> (parent s = PDead \<and> (signalled s \<or> \<not> death_signal s))"
    and "child s = CChecked \<Longrightarrow> parent s \<notin> {PForked, PAttached} \<Longrightarrow>
      bytes s > 0 \<or> (\<not> parent_write s \<and> \<not> child_write s)"
  using assms by (cases "parent s"; auto simp: watched_def unblocked_def)+

end
