(* ===== verification/Watch_Child.thy ===== *)
theory Watch_Child
  imports Watch
begin

text \<open>
  The branch of the child in \<open>watch::run\<close>: what happens between \<open>fork\<close> and \<open>execvp\<close>.  The record
  \<open>child_env\<close> holds the answers of the system calls; the result is the list of fatal entries and the
  end of the branch, an exit status or the image of the agent with its arguments.
\<close>

section \<open>Definitions\<close>

definition set_parent_death_signal :: "int \<Rightarrow> io_error \<Rightarrow> (io_error, unit) result" where
  "set_parent_death_signal ret last_os_error = (if ret \<noteq> 0 then Err last_os_error else Ok ())"

definition check_parent_alive :: "int \<Rightarrow> int \<Rightarrow> bool" where
  "check_parent_alive current_ppid original_ppid = (current_ppid = original_ppid)"

text \<open>\<open>read\<close> blocks until a byte arrives, every writer is gone (0 bytes) or it fails.\<close>

definition await_parent_release :: "('n \<Rightarrow> io_error) \<Rightarrow> ('n, nat) result \<Rightarrow> (io_error, unit) result" where
  "await_parent_release to_io read_result =
     and_then (map_err to_io read_result) (\<lambda>n.
     if n = 0 then Err (IoError UnexpectedEof (''pipe fechado pelo pai sem libera'' @ [CHR 0xC3, CHR 0xA7, CHR 0xC3, CHR 0xA3] @ ''o'')) else Ok ())"

record 'n child_env =
  ce_close_write :: "('n, unit) result"
  ce_prctl :: int
  ce_os_error :: io_error
  ce_getppid :: int
  ce_read :: "('n, nat) result"
  ce_close_read :: "('n, unit) result"
  ce_exec :: "'n option"              \<comment> \<open>the error with which \<open>execvp\<close> returned, if it did\<close>

datatype child_end = ChildExit int | ChildRuns "u8 list list"

definition run_child ::
    "('n, 'm) watch_text \<Rightarrow> int \<Rightarrow> string list \<Rightarrow> 'n child_env \<Rightarrow> log_call list \<times> child_end" where
  "run_child fmt parent_pid_antes command env =
     (case ce_close_write env of
        Inl e \<Rightarrow> ([fatal_watch (''falha ao fechar write_fd no filho: '' @ show_errno fmt e)], ChildExit 127)
      | Inr _ \<Rightarrow>
     (case set_parent_death_signal (ce_prctl env) (ce_os_error env) of
        Inl e \<Rightarrow> ([fatal_watch (''falha ao configurar PR_SET_PDEATHSIG: '' @ show_io_error fmt e)], ChildExit 127)
      | Inr _ \<Rightarrow>
     if \<not> check_parent_alive (ce_getppid env) parent_pid_antes then
       ([fatal_watch (''pai morreu durante o fork, abortando inicializa'' @ [CHR 0xC3, CHR 0xA7, CHR 0xC3, CHR 0xA3] @ ''o (evita orfandade)'')], ChildExit 127)
     else
     (case await_parent_release (errno_io fmt) (ce_read env) of
        Inl e \<Rightarrow> ([fatal_watch (''pai abortou a inicializa'' @ [CHR 0xC3, CHR 0xA7, CHR 0xC3, CHR 0xA3] @ ''o do monitor: '' @ show_io_error fmt e)], ChildExit 127)
      | Inr _ \<Rightarrow>
     (case ce_close_read env of
        Inl e \<Rightarrow> ([fatal_watch (''falha ao fechar read_fd no filho: '' @ show_errno fmt e)], ChildExit 127)
      | Inr _ \<Rightarrow>
     (case parse_c_command command of
        Inl (idx, err) \<Rightarrow>
          ([fatal_watch (''o comando cont'' @ [CHR 0xC3, CHR 0xA9] @ ''m um caractere nulo inv'' @ [CHR 0xC3, CHR 0xA1] @ ''lido na posi'' @ [CHR 0xC3, CHR 0xA7, CHR 0xC3, CHR 0xA3] @ ''o '' @ show_nat idx @ '': '' @ err)],
           ChildExit 2)
      | Inr c_command \<Rightarrow>
     (case ce_exec env of
        None \<Rightarrow> ([], ChildRuns c_command)
      | Some e \<Rightarrow>
          ([fatal_watch
              (''falha ao executar '' @ [CHR 0x27] @ (case command of [] \<Rightarrow> [] | c # _ \<Rightarrow> c) @ [CHR 0x27] @ '': '' @ show_errno fmt e)],
           ChildExit 127)))))))"

section \<open>What the child does\<close>

text \<open>The gates in front of the command.\<close>

definition may_start :: "int \<Rightarrow> string list \<Rightarrow> 'n child_env \<Rightarrow> bool" where
  "may_start parent_pid command env \<longleftrightarrow>
     is_ok (ce_close_write env) \<and> ce_prctl env = 0 \<and> ce_getppid env = parent_pid \<and>
     (\<exists>n. ce_read env = Inr n \<and> n > 0) \<and> is_ok (ce_close_read env) \<and>
     command \<noteq> [] \<and> list_all (\<lambda>a. CHR 0x00 \<notin> set a) command"

lemma parse_ok:
  "parse_c_command args = Inr cs \<longleftrightarrow>
     args \<noteq> [] \<and> list_all (\<lambda>a. CHR 0x00 \<notin> set a) args \<and> cs = map (\<lambda>a. as_bytes a @ [0]) args"
  by (auto simp: parse_c_command_def c_strings_Inr)

lemma await_ok: "await_parent_release to_io r = Inr () \<longleftrightarrow> (\<exists>n. r = Inr n \<and> n > 0)"
  by (cases r) (auto simp: await_parent_release_def)

lemma parent_death_ok: "set_parent_death_signal r e = Inr () \<longleftrightarrow> r = 0"
  by (simp add: set_parent_death_signal_def)

text \<open>The child gives up: one fatal entry and a status of its own.\<close>

definition gives_up :: "log_call list \<times> child_end \<Rightarrow> bool" where
  "gives_up r \<longleftrightarrow>
     (\<exists>entry status. r = ([entry], ChildExit status) \<and> call_level entry = ''fatal'' \<and> status \<in> {2, 127})"

lemma gives_up_simps [simp]:
  "gives_up ([fatal_watch m], ChildExit n) \<longleftrightarrow> n \<in> {2, 127}" "\<not> gives_up ([], e)"
  by (simp_all add: gives_up_def plain_call_def)

lemma run_child_view:
  "if may_start parent command env \<and> ce_exec env = None
   then run_child fmt parent command env = ([], ChildRuns (map (\<lambda>a. as_bytes a @ [0]) command))
   else gives_up (run_child fmt parent command env)"
proof (cases "is_ok (ce_close_write env) \<and> ce_prctl env = 0 \<and> ce_getppid env = parent")
  case False
  then show ?thesis
    by (auto simp: may_start_def run_child_def set_parent_death_signal_def check_parent_alive_def split: sum.split)
next
  case True
  then obtain u where start: "ce_close_write env = Inr u" "ce_prctl env = 0" "ce_getppid env = parent"
    by (cases "ce_close_write env") auto
  show ?thesis
  proof (cases "await_parent_release (errno_io fmt) (ce_read env)")
    case (Inl e)
    then have "\<not> may_start parent command env"
      using await_ok [of "errno_io fmt" "ce_read env"] by (simp add: may_start_def)
    then show ?thesis
      using start Inl by (simp add: run_child_def set_parent_death_signal_def check_parent_alive_def)
  next
    case (Inr n)
    then have "may_start parent command env \<longleftrightarrow> is_ok (ce_close_read env) \<and> is_ok (parse_c_command command)"
      using start await_ok [of "errno_io fmt" "ce_read env"] parse_ok [of command]
      by (cases "parse_c_command command") (auto simp: may_start_def)
    then show ?thesis
      using start Inr parse_ok [of command "projr (parse_c_command command)"]
      by (cases "parse_c_command command")
        (auto simp: run_child_def set_parent_death_signal_def check_parent_alive_def
          split: sum.split option.split prod.split)
  qed
qed

text \<open>
  C28. The child becomes the agent exactly when every gate is open: its copy of the write end is closed,
  the parent-death signal is set, the parent is still the one that forked it, the release byte was
  read, and the command line is valid; the agent then gets the command line unchanged, as C strings.
  In every other case the child exits with status 127, or 2 for an invalid command line, after exactly
  one fatal entry.
\<close>

theorem child_starts_only_released:
  "(snd (run_child fmt parent command env) = ChildRuns argv \<longleftrightarrow>
      may_start parent command env \<and> ce_exec env = None \<and> argv = map (\<lambda>a. as_bytes a @ [0]) command) \<and>
   ((\<exists>l. run_child fmt parent command env = ([], l) \<and> l = ChildRuns (map (\<lambda>a. as_bytes a @ [0]) command)) \<or>
    (\<exists>entry status. run_child fmt parent command env = ([entry], ChildExit status) \<and>
       call_level entry = ''fatal'' \<and> status \<in> {2, 127}))"
proof (cases "may_start parent command env \<and> ce_exec env = None")
  case True
  then show ?thesis
    using run_child_view [of parent command env fmt] by auto
next
  case False
  then have "gives_up (run_child fmt parent command env)"
    using run_child_view [of parent command env fmt] by (simp split: if_splits)
  then show ?thesis
    using False by (auto simp: gives_up_def)
qed

end
