(* ===== verification/Watch_Round.thy ===== *)
theory Watch_Round
  imports Watch_Pipe Watch_Child
begin

text \<open>
  One round of \<open>watch::run\<close> with both of its processes: the protocol of \<open>Watch_Pipe\<close> in which every branch
  is the one that \<open>supervise_child\<close> and \<open>run_child\<close> take, given the answers of the system to the two
  processes.  An answer that depends on the other process (\<open>getppid\<close>, \<open>read\<close>, \<open>write\<close>, \<open>waitpid\<close>) is given
  only in a state in which it is true.
\<close>

section \<open>The two processes\<close>

record round_sys = pipe_sys +
  child_result :: "child_end option"    \<comment> \<open>how the branch of the child has ended\<close>

definition round_forked :: round_sys where
  "round_forked = pipe_sys.extend forked \<lparr>child_result = None\<rparr>"

text \<open>
  The next program point of the child, and its end where the branch is over.  \<open>setid\<close> says that the
  program of the command is set-user-ID, set-group-ID or has capabilities: \<open>execve\<close> then clears the
  parent-death signal.
\<close>

definition child_next ::
    "('n, 'b) watch_text \<Rightarrow> int \<Rightarrow> string list \<Rightarrow> 'n child_env \<Rightarrow> child_pc \<Rightarrow> child_pc \<times> child_end option" where
  "child_next fmt parent_pid_antes command env pc =
     (case pc of
        CForked \<Rightarrow>
          if is_ok (ce_close_write env) then (CWriteClosed, None) else (CGone, Some (ChildExit 127))
      | CWriteClosed \<Rightarrow>
          if is_ok (set_parent_death_signal (ce_prctl env) (ce_os_error env)) then (CArmed, None)
          else (CGone, Some (ChildExit 127))
      | CArmed \<Rightarrow>
          if check_parent_alive (ce_getppid env) parent_pid_antes then (CChecked, None)
          else (CGone, Some (ChildExit 127))
      | CChecked \<Rightarrow>
          if is_ok (await_parent_release (errno_io fmt) (ce_read env)) then (CReleasedPc, None)
          else (CGone, Some (ChildExit 127))
      | CReleasedPc \<Rightarrow>
          if \<not> is_ok (ce_close_read env) then (CGone, Some (ChildExit 127))
          else (case parse_c_command command of
                  Inl _ \<Rightarrow> (CGone, Some (ChildExit 2))
                | Inr c_command \<Rightarrow>
                    (case ce_exec env of
                       None \<Rightarrow> (CRunning, Some (ChildRuns c_command))
                     | Some _ \<Rightarrow> (CGone, Some (ChildExit 127))))
      | CRunning \<Rightarrow> (CRunning, None)
      | CGone \<Rightarrow> (CGone, None))"

definition child_moved ::
    "('n, 'b) watch_text \<Rightarrow> int \<Rightarrow> string list \<Rightarrow> bool \<Rightarrow> 'n child_env \<Rightarrow> round_sys \<Rightarrow> round_sys" where
  "child_moved fmt parent_pid_antes command setid env s =
     (let (pc, ended) = child_next fmt parent_pid_antes command env (child s)
      in s\<lparr>child := pc, child_write := child_write s \<and> child s \<noteq> CForked \<and> pc \<noteq> CGone, child_result := ended,
           bytes := (if pc = CReleasedPc then bytes s - 1 else bytes s),
           death_signal := (death_signal s \<or> pc = CArmed) \<and> \<not> (pc = CRunning \<and> setid)\<rparr>)"

text \<open>\<open>getppid\<close> tells whether the parent lives; \<open>read\<close> returns a byte that is there, or 0 when every writer is gone.\<close>

definition child_answered :: "int \<Rightarrow> 'n child_env \<Rightarrow> round_sys \<Rightarrow> bool" where
  "child_answered parent_pid_antes env s \<longleftrightarrow>
     (case child s of
        CArmed \<Rightarrow> check_parent_alive (ce_getppid env) parent_pid_antes \<longleftrightarrow> parent s \<noteq> PDead
      | CChecked \<Rightarrow>
          (case ce_read env of
             Inl _ \<Rightarrow> True
           | Inr n \<Rightarrow> if n > 0 then bytes s > 0 else bytes s = 0 \<and> \<not> parent_write s \<and> \<not> child_write s)
      | CRunning \<Rightarrow> False
      | CGone \<Rightarrow> False
      | _ \<Rightarrow> True)"

text \<open>The monitor of the round is built.\<close>

definition builds :: "'re policy \<Rightarrow> ('n, 'b) attempt \<Rightarrow> bool" where
  "builds pol a \<longleftrightarrow> (\<exists>pid. at_fork a = Inr pid \<and> is_ok (snd (monitor_new (at_monitor a) pid pol)))"

definition parent_next :: "'re policy \<Rightarrow> ('n, 'b) attempt \<Rightarrow> parent_pc \<Rightarrow> parent_pc" where
  "parent_next pol a pc =
     (case pc of
        PForked \<Rightarrow> if builds pol a then PAttached else PFailed
      | PAttached \<Rightarrow> if is_ok (at_write a) then PReleased else PFailed
      | PReleased \<Rightarrow> PSupervising
      | PSupervising \<Rightarrow> PDead
      | _ \<Rightarrow> pc)"

definition parent_moved :: "'re policy \<Rightarrow> ('n, 'b) attempt \<Rightarrow> round_sys \<Rightarrow> round_sys" where
  "parent_moved pol a s =
     (let pc = parent_next pol a (parent s)
      in s\<lparr>parent := pc, parent_write := parent_write s \<and> pc \<notin> {PFailed, PSupervising},
           attached := (attached s \<or> pc = PAttached) \<and> pc \<notin> {PFailed, PDead},
           bytes := (if pc = PReleased then bytes s + 1 else bytes s)\<rparr>)"

text \<open>The write succeeds only while a reader is there; \<open>waitpid\<close> returns when the child is gone.\<close>

definition parent_answered :: "('n, 'b) attempt \<Rightarrow> round_sys \<Rightarrow> bool" where
  "parent_answered a s \<longleftrightarrow>
     (case parent s of
        PAttached \<Rightarrow> is_ok (at_write a) \<longrightarrow> child s \<noteq> CGone
      | PSupervising \<Rightarrow> child s = CGone
      | PFailed \<Rightarrow> False
      | PDead \<Rightarrow> False
      | _ \<Rightarrow> True)"

inductive round_step ::
    "('n, 'b) watch_text \<Rightarrow> 're policy \<Rightarrow> int \<Rightarrow> string list \<Rightarrow> bool \<Rightarrow> 'n child_env \<Rightarrow> ('n, 'b) attempt \<Rightarrow>
     round_sys \<Rightarrow> round_sys \<Rightarrow> bool"
  for fmt pol parent_pid command setid env a where
  child_moves: "child_answered parent_pid env s \<Longrightarrow>
    round_step fmt pol parent_pid command setid env a s (child_moved fmt parent_pid command setid env s)"
| child_killed: "round_step fmt pol parent_pid command setid env a s (s\<lparr>child := CGone, child_write := False\<rparr>)"
| parent_moves: "parent_answered a s \<Longrightarrow>
    round_step fmt pol parent_pid command setid env a s (parent_moved pol a s)"
| parent_killed: "round_step fmt pol parent_pid command setid env a s (parent_dies s)"

section \<open>Refinement of the protocol\<close>

abbreviation pipe_of :: "round_sys \<Rightarrow> pipe_sys" where
  "pipe_of \<equiv> pipe_sys.truncate"

lemma pipe_of_simps [simp]:
  "parent (pipe_of s) = parent s" "child (pipe_of s) = child s" "bytes (pipe_of s) = bytes s"
  "parent_write (pipe_of s) = parent_write s" "child_write (pipe_of s) = child_write s"
  "attached (pipe_of s) = attached s" "death_signal (pipe_of s) = death_signal s"
  "signalled (pipe_of s) = signalled s"
  by (simp_all add: pipe_sys.truncate_def)

lemma round_forked_simps [simp]:
  "pipe_of round_forked = forked" "child_result round_forked = None" "child round_forked = CForked"
  "parent round_forked = PForked" "bytes round_forked = 0"
  by (simp_all add: round_forked_def forked_def pipe_sys.extend_def pipe_sys.truncate_def)

lemma read_ok: "is_ok (await_parent_release to_io r) \<longleftrightarrow> (\<exists>n > 0. r = Inr n)"
  using await_ok [of to_io r] by (auto simp: is_ok_def split: sum.splits)

text \<open>A step of the child is one of the protocol: the gate opens, or the child is gone.\<close>

lemma child_refines:
  assumes "child_answered ppid env s"
  shows "pipe_step (pipe_of s) (pipe_of (child_moved fmt ppid command setid env s))"
proof -
  let ?s = "pipe_of s"
  note moved = child_moved_def child_next_def Let_def pipe_sys.truncate_def
  have gone: "pipe_step ?s (?s\<lparr>child := CGone, child_write := False\<rparr>)"
    by (rule child_dies)
  show ?thesis
  proof (cases "child s")
    case CForked
    then show ?thesis
      using gone child_close [of ?s] by (cases "is_ok (ce_close_write env)") (auto simp: moved)
  next
    case CWriteClosed
    then show ?thesis
      using gone child_arm [of ?s]
      by (cases "is_ok (set_parent_death_signal (ce_prctl env) (ce_os_error env))") (auto simp: moved)
  next
    case CArmed
    then show ?thesis
      using gone child_check [of ?s] assms
      by (cases "check_parent_alive (ce_getppid env) ppid") (auto simp: moved child_answered_def)
  next
    case CChecked
    then show ?thesis
      using gone child_read [of ?s] assms
      by (cases "is_ok (await_parent_release (errno_io fmt) (ce_read env))")
        (auto simp: moved child_answered_def read_ok)
  next
    case CReleasedPc
    then show ?thesis
      using gone child_exec [of ?s "\<not> setid"] by (auto simp: moved split: sum.split option.split)
  qed (use assms in \<open>simp_all add: child_answered_def\<close>)
qed

lemma parent_refines:
  assumes "parent_answered a s"
  shows "pipe_step (pipe_of s) (pipe_of (parent_moved pol a s))"
proof -
  let ?s = "pipe_of s"
  note moved = parent_moved_def parent_next_def Let_def pipe_sys.truncate_def
  show ?thesis
  proof (cases "parent s")
    case PForked
    then show ?thesis
      using parent_attach [of ?s] parent_abort [of ?s] by (cases "builds pol a") (simp_all add: moved)
  next
    case PAttached
    then show ?thesis
      using parent_release [of ?s] parent_write_fails [of ?s] assms
      by (cases "is_ok (at_write a)") (simp_all add: moved parent_answered_def)
  next
    case PReleased
    then show ?thesis
      using parent_close [of ?s] by (simp add: moved)
  next
    case PSupervising
    then show ?thesis
      using parent_done [of ?s] assms by (simp add: moved parent_answered_def)
  qed (use assms in \<open>simp_all add: parent_answered_def\<close>)
qed

interpretation round: step_refinement "\<lambda>s. s = forked" pipe_step "\<lambda>s. watched s \<and> unblocked s"
    "\<lambda>s. s = round_forked" "round_step fmt pol ppid command setid env a" pipe_of
  for fmt pol ppid command setid env a
proof
  show "s = round_forked \<Longrightarrow> pipe_of s = forked" for s
    by simp
  show "round_step fmt pol ppid command setid env a s t \<Longrightarrow> pipe_step\<^sup>*\<^sup>* (pipe_of s) (pipe_of t)" for s t
  proof (induction rule: round_step.induct)
    case (child_moves s)
    then show ?case using child_refines by blast
  next
    case (child_killed s)
    then show ?case
      using child_dies [of "pipe_of s"] by (simp add: pipe_sys.truncate_def r_into_rtranclp)
  next
    case (parent_moves s)
    then show ?case using parent_refines by blast
  next
    case (parent_killed s)
    then show ?case
      using parent_death [of "pipe_of s"]
      by (simp add: parent_dies_def pipe_sys.truncate_def r_into_rtranclp)
  qed
qed

section \<open>What the branches have done\<close>

text \<open>The gates that are open at a program point of the child, and the answers behind one of the parent.\<close>

definition passed :: "int \<Rightarrow> 'n child_env \<Rightarrow> child_pc \<Rightarrow> bool" where
  "passed ppid env pc \<longleftrightarrow>
     (pc \<in> {CWriteClosed, CArmed, CChecked, CReleasedPc, CRunning} \<longrightarrow> is_ok (ce_close_write env)) \<and>
     (pc \<in> {CArmed, CChecked, CReleasedPc, CRunning} \<longrightarrow> ce_prctl env = 0) \<and>
     (pc \<in> {CChecked, CReleasedPc, CRunning} \<longrightarrow> ce_getppid env = ppid) \<and>
     (pc \<in> {CReleasedPc, CRunning} \<longrightarrow> (\<exists>n > 0. ce_read env = Inr n))"

definition carried_out ::
    "('n, 'b) watch_text \<Rightarrow> 're policy \<Rightarrow> int \<Rightarrow> string list \<Rightarrow> bool \<Rightarrow> 'n child_env \<Rightarrow> ('n, 'b) attempt \<Rightarrow>
     round_sys \<Rightarrow> bool" where
  "carried_out fmt pol ppid command setid env a s \<longleftrightarrow>
     passed ppid env (child s) \<and>
     (child s = CRunning \<longrightarrow> (\<exists>argv. child_result s = Some (ChildRuns argv))) \<and>
     (\<forall>r. child_result s = Some r \<longrightarrow> r = snd (run_child fmt ppid command env)) \<and>
     (parent s \<in> {PAttached, PReleased, PSupervising} \<longrightarrow> builds pol a) \<and>
     (parent s \<in> {PReleased, PSupervising} \<longrightarrow> is_ok (at_write a)) \<and>
     (bytes s > 0 \<or> child s \<in> {CReleasedPc, CRunning} \<longrightarrow> builds pol a \<and> is_ok (at_write a)) \<and>
     (child s \<in> {CArmed, CChecked, CReleasedPc, CRunning} \<longrightarrow> death_signal s \<or> child s = CRunning \<and> setid)"

lemma child_next_result:
  assumes "passed ppid env pc" and "child_next fmt ppid command env pc = (pc', Some r)"
  shows "r = snd (run_child fmt ppid command env)"
  using assms
  by (auto simp: child_next_def passed_def run_child_def is_ok_def check_parent_alive_def set_parent_death_signal_def
        await_parent_release_def
      split: child_pc.splits if_splits sum.splits option.splits prod.splits)

lemma child_next_passed:
  assumes "passed ppid env pc"
  shows "passed ppid env (fst (child_next fmt ppid command env pc))"
  using assms
  by (auto simp: child_next_def passed_def read_ok check_parent_alive_def set_parent_death_signal_def
      split: child_pc.splits if_splits sum.splits option.splits)

lemma child_next_running:
  "child_next fmt ppid command env pc = (CRunning, e) \<Longrightarrow> pc \<noteq> CRunning \<Longrightarrow> \<exists>argv. e = Some (ChildRuns argv)"
  by (auto simp: child_next_def split: child_pc.splits if_splits sum.splits option.splits)

lemma child_next_released:
  "child_next fmt ppid command env pc = (CReleasedPc, e) \<Longrightarrow> pc = CChecked \<and> (\<exists>n > 0. ce_read env = Inr n)"
  "child_next fmt ppid command env pc = (CRunning, e) \<Longrightarrow> pc \<in> {CReleasedPc, CRunning}"
  "child_next fmt ppid command env pc = (CChecked, e) \<Longrightarrow> pc = CArmed"
  by (auto simp: child_next_def read_ok split: child_pc.splits if_splits sum.splits option.splits)

lemma child_carries_out:
  assumes "child_answered ppid env s" and "carried_out fmt pol ppid command setid env a s"
  shows "carried_out fmt pol ppid command setid env a (child_moved fmt ppid command setid env s)"
proof -
  obtain pc e where step: "child_next fmt ppid command env (child s) = (pc, e)"
    by fastforce
  have idle: "child s \<noteq> CRunning"
    using assms(1) by (auto simp: child_answered_def)
  have "bytes s > 0" if "pc = CReleasedPc"
    using that step child_next_released(1) [of fmt ppid command env "child s" e] assms(1)
    by (auto simp: child_answered_def)
  moreover have "child s = CReleasedPc" if "pc = CRunning"
    using that step child_next_released(2) [of fmt ppid command env "child s" e] idle by simp
  moreover have "child s = CArmed" if "pc = CChecked"
    using that step child_next_released(3) [of fmt ppid command env "child s" e] by simp
  moreover have "child s = CChecked" if "pc = CReleasedPc"
    using that step child_next_released(1) [of fmt ppid command env "child s" e] by simp
  ultimately show ?thesis
    using assms(2) step idle child_next_passed [of ppid env "child s" fmt command]
      child_next_result [of ppid env "child s" fmt command pc] child_next_running [of fmt ppid command env "child s" e]
    by (auto simp: carried_out_def child_moved_def)
qed

lemma parent_carries_out:
  assumes "parent_answered a s" and "carried_out fmt pol ppid command setid env a s"
  shows "carried_out fmt pol ppid command setid env a (parent_moved pol a s)"
  using assms
  by (cases "parent s") (auto simp: carried_out_def parent_moved_def parent_next_def parent_answered_def Let_def)

interpretation branches: step_system "\<lambda>s. s = round_forked" "round_step fmt pol ppid command setid env a"
    "carried_out fmt pol ppid command setid env a" for fmt pol ppid command setid env a
proof
  show "s = round_forked \<Longrightarrow> carried_out fmt pol ppid command setid env a s" for s
    by (simp add: carried_out_def passed_def)
  show "round_step fmt pol ppid command setid env a s t \<Longrightarrow> carried_out fmt pol ppid command setid env a s \<Longrightarrow>
      carried_out fmt pol ppid command setid env a t" for s t
  proof (induction rule: round_step.induct)
    case (child_killed s)
    then show ?case by (simp add: carried_out_def passed_def)
  next
    case (parent_killed s)
    then show ?case by (simp add: carried_out_def parent_dies_def passed_def)
  qed (simp_all add: child_carries_out parent_carries_out)
qed

lemma released_round:
  "is_ok (at_pipe a) \<Longrightarrow> builds pol a \<Longrightarrow> is_ok (at_write a) \<Longrightarrow> released pol a"
  by (simp add: released_def builds_def)

text \<open>
  C9. The agent is started and kept under supervision as far as a signal can do it, in any interleaving
  of the two processes of a round, with the death of either at any moment.  The command runs only in a
  round in which \<open>supervise_child\<close> has built the monitor and written the release byte, and the process is
  the image that \<open>run_child\<close> starts, the command line unchanged.  While it runs, the supervisor is alive
  and its monitor attached, or the supervisor has died and the kernel has sent the agent the SIGTERM that
  \<open>set_parent_death_signal\<close> asked for, except for a set-user-ID program, for which \<open>execve\<close> has cleared
  it.  What the agent does with the signal is its own affair: it may ignore it and go on
  (\<open>agent_outlives_supervisor\<close>).  However the branch of the child ends, it is the end \<open>run_child\<close> gives for these answers.
  And the child cannot hang: once the supervisor has released it, failed or died, its \<open>read\<close> returns.
\<close>

theorem agent_supervised_or_signalled:
  assumes "is_ok (at_pipe a)" and "(round_step fmt pol ppid command setid env a)\<^sup>*\<^sup>* round_forked s"
  shows "(child s = CRunning \<longrightarrow> released pol a \<and>
       child_result s = Some (ChildRuns (map (\<lambda>arg. as_bytes arg @ [0]) command)) \<and>
       (parent s \<in> {PReleased, PSupervising} \<and> attached s \<or> parent s = PDead \<and> (signalled s \<or> setid))) \<and>
     (\<forall>r. child_result s = Some r \<longrightarrow> snd (run_child fmt ppid command env) = r) \<and>
     (child s = CChecked \<and> parent s \<notin> {PForked, PAttached} \<longrightarrow>
        bytes s > 0 \<or> (\<not> parent_write s \<and> \<not> child_write s))"
proof -
  note protocol = round.refined_inv [OF refl assms(2)]
  note branch = branches.reachable_inv [OF refl assms(2)]
  have image: "argv = map (\<lambda>arg. as_bytes arg @ [0]) command" if "ChildRuns argv = snd (run_child fmt ppid command env)" for argv
    using that run_child_view [of ppid command env fmt] by (auto simp: gives_up_def split: if_splits)
  have "released pol a" "child_result s = Some (ChildRuns (map (\<lambda>arg. as_bytes arg @ [0]) command))"
    "death_signal s \<or> setid" if "child s = CRunning"
    using that branch released_round [OF assms(1), of pol]
    by (auto simp: carried_out_def dest: image)
  moreover have "snd (run_child fmt ppid command env) = r" if "child_result s = Some r" for r
    using that branch by (simp add: carried_out_def)
  ultimately show ?thesis
    using watched_agent [OF protocol] by simp blast
qed

section \<open>An example\<close>

definition example_child :: "unit child_env" where
  "example_child =
     \<lparr>ce_close_write = Inr (), ce_prctl = 0, ce_os_error = IoError OtherKind ''errno'', ce_getppid = 7,
      ce_read = Inr 1, ce_close_read = Inr (), ce_exec = None\<rparr>"

definition agent_started :: "bool \<Rightarrow> round_sys" where
  "agent_started setid =
     \<lparr>parent = PReleased, child = CRunning, parent_write = True, child_write = False, bytes = 0, attached = True,
      death_signal = (\<not> setid), signalled = False,
      child_result = Some (ChildRuns [as_bytes ''agent'' @ [0]])\<rparr>"

lemma example_moves:
  fixes pol :: "'re policy" and a :: "(unit, unit) attempt"
  assumes "builds pol a" and "is_ok (at_write a)"
  shows "(round_step example_text pol 7 [''agent''] setid example_child a)\<^sup>*\<^sup>* round_forked (agent_started setid)"
    (is "?step\<^sup>*\<^sup>* _ _")
proof -
  let ?at = "\<lambda>p c w b att d r. \<lparr>parent = p, child = c, parent_write = True, child_write = w, bytes = b,
    attached = att, death_signal = d, signalled = False, child_result = r\<rparr>"
  note moves = parent_answered_def parent_moved_def parent_next_def child_answered_def child_moved_def child_next_def
    example_child_def set_parent_death_signal_def check_parent_alive_def read_ok Let_def
  have start: "round_forked = ?at PForked CForked True 0 False False None"
    by (simp add: round_forked_def forked_def pipe_sys.extend_def)
  have parse: "parse_c_command [''agent''] = Inr [as_bytes ''agent'' @ [0]]"
    by (simp add: parse_ok)
  have "?step round_forked (?at PAttached CForked True 0 True False None)"
    using parent_moves [of a round_forked example_text pol 7 "[''agent'']" setid example_child] assms
    unfolding start by (simp add: moves)
  moreover have "?step (?at PAttached CForked True 0 True False None) (?at PReleased CForked True 1 True False None)"
    using parent_moves [of a "?at PAttached CForked True 0 True False None" example_text pol 7 "[''agent'']" setid
      example_child] assms
    by (simp add: moves)
  moreover have child: "?step s (child_moved example_text 7 [''agent''] setid example_child s)"
    if "child_answered 7 example_child s" for s
    using that by (rule child_moves)
  moreover have "?step (?at PReleased CForked True 1 True False None) (?at PReleased CWriteClosed False 1 True False None)"
    using child [of "?at PReleased CForked True 1 True False None"] by (simp add: moves)
  moreover have "?step (?at PReleased CWriteClosed False 1 True False None) (?at PReleased CArmed False 1 True True None)"
    using child [of "?at PReleased CWriteClosed False 1 True False None"] by (simp add: moves)
  moreover have "?step (?at PReleased CArmed False 1 True True None) (?at PReleased CChecked False 1 True True None)"
    using child [of "?at PReleased CArmed False 1 True True None"] by (simp add: moves)
  moreover have "?step (?at PReleased CChecked False 1 True True None) (?at PReleased CReleasedPc False 0 True True None)"
    using child [of "?at PReleased CChecked False 1 True True None"] by (simp add: moves)
  moreover have "?step (?at PReleased CReleasedPc False 0 True True None) (agent_started setid)"
    using child [of "?at PReleased CReleasedPc False 0 True True None"] by (simp add: moves parse agent_started_def)
  ultimately show ?thesis
    by (meson converse_rtranclp_into_rtranclp rtranclp.rtrancl_refl)
qed

lemma example_round:
  "builds (test_policy Enforce) (example_attempt (Exited 0) [] 0)" "is_ok (at_write (example_attempt (Exited 0) [] 0))"
  "is_ok (at_pipe (example_attempt (Exited 0) [] 0))"
  by (simp_all add: builds_def example_attempt_def example_builds)

theorem agent_supervised_or_signalled_witness:
  "\<exists>s. (round_step example_text (test_policy Enforce) 7 [''agent''] False example_child
         (example_attempt (Exited 0) [] 0))\<^sup>*\<^sup>* round_forked s \<and>
       child s = CRunning \<and> attached s \<and> released (test_policy Enforce) (example_attempt (Exited 0) [] 0)"
proof (rule exI, rule conjI [OF example_moves [OF example_round(1,2)]])
  show "child (agent_started False) = CRunning \<and> attached (agent_started False) \<and>
      released (test_policy Enforce) (example_attempt (Exited 0) [] 0)"
    using agent_supervised_or_signalled [OF example_round(3) example_moves [OF example_round(1,2)], of False]
    by (simp add: agent_started_def)
qed

text \<open>
  \<open>watch.rs\<close> says of the parent-death signal that killing SyscallCage never leaves the agent running
  without supervision.  It does: the supervisor dies, its monitor goes with it, and an agent that ignores
  SIGTERM, or that was never sent one because it is set-user-ID, is still running.
\<close>

theorem agent_outlives_supervisor:
  "\<exists>s. (round_step example_text (test_policy Enforce) 7 [''agent''] setid example_child
         (example_attempt (Exited 0) [] 0))\<^sup>*\<^sup>* round_forked s \<and>
       child s = CRunning \<and> parent s = PDead \<and> \<not> attached s \<and> signalled s = (\<not> setid)"
proof (rule exI, rule conjI)
  show "(round_step example_text (test_policy Enforce) 7 [''agent''] setid example_child
      (example_attempt (Exited 0) [] 0))\<^sup>*\<^sup>* round_forked (parent_dies (agent_started setid))"
    by (rule rtranclp.rtrancl_into_rtrancl [OF example_moves [OF example_round(1,2)] parent_killed])
qed (simp add: parent_dies_def agent_started_def)

end
