(* ===== verification/Discovery.thy ===== *)
theory Discovery
  imports Rust_Str
begin

text \<open>
  \<open>policy/discovery.rs\<close>: the search for \<open>.syscallcage.yaml\<close> from the working directory up to the root
  of the project, and the checks on a file found that way.  An absolute path is the list of its
  components; the file system, the user ids and \<open>SUDO_UID\<close> are arguments.
\<close>

section \<open>Definitions\<close>

type_synonym path = "string list"

record metadata =
  md_is_file :: bool
  md_mode :: u32
  md_uid :: u32

record file_system =
  fs_exists :: "path \<Rightarrow> bool"
  fs_symlink_metadata :: "path \<Rightarrow> (io_error, metadata) result"

record user_ids =
  ui_euid :: u32
  ui_sudo_uid :: "string option"      \<comment> \<open>the environment variable \<open>SUDO_UID\<close>\<close>

datatype insecure_reason = NotRegular | WorldWritable | WrongOwner u32 u32 "u32 option"

definition debug_opt :: "u32 option \<Rightarrow> string" where
  "debug_opt n = (case n of None \<Rightarrow> ''None'' | Some k \<Rightarrow> (''Some('' @ show_nat (unat k) @ '')''))"

definition reason_text :: "insecure_reason \<Rightarrow> string" where
  "reason_text r =
     (case r of
        NotRegular \<Rightarrow> (''n'' @ [CHR 0xC3, CHR 0xA3] @ ''o '' @ [CHR 0xC3, CHR 0xA9] @ '' um arquivo regular (pode ser um symlink malicioso)'')
      | WorldWritable \<Rightarrow> (''o arquivo '' @ [CHR 0xC3, CHR 0xA9] @ '' grav'' @ [CHR 0xC3, CHR 0xA1] @ ''vel por outros usu'' @ [CHR 0xC3, CHR 0xA1] @ ''rios (permiss'' @ [CHR 0xC3, CHR 0xA3] @ ''o o+w)'')
      | WrongOwner uid euid sudo_uid \<Rightarrow>
          (''dono do arquivo (uid: '' @ show_nat (unat uid) @ '') n'' @ [CHR 0xC3, CHR 0xA3] @ ''o '' @ [CHR 0xC3, CHR 0xA9] @ '' root nem o usu'' @ [CHR 0xC3, CHR 0xA1] @ ''rio atual (uid: '' @ show_nat (unat euid) @ '', sudo_uid: '' @ debug_opt sudo_uid @ '')''))"

definition display_path :: "path \<Rightarrow> string" where
  "display_path p = ''/'' @ join_with ''/'' p"

datatype discovery_error =
    NotFound
  | DiscoveryIo io_error
  | InsecurePolicy path insecure_reason

definition discovery_error_message :: "(io_error \<Rightarrow> string) \<Rightarrow> discovery_error \<Rightarrow> string" where
  "discovery_error_message show_io e =
     (case e of
        NotFound \<Rightarrow> (''arquivo de pol'' @ [CHR 0xC3, CHR 0xAD] @ ''tica n'' @ [CHR 0xC3, CHR 0xA3] @ ''o encontrado'')
      | DiscoveryIo io \<Rightarrow> (''erro de I/O ao procurar pol'' @ [CHR 0xC3, CHR 0xAD] @ ''tica: '' @ show_io io)
      | InsecurePolicy path reason \<Rightarrow>
          (''pol'' @ [CHR 0xC3, CHR 0xAD] @ ''tica insegura recusada ('' @ display_path path @ ''): '' @ reason_text reason))"

definition validate_discovered_policy ::
    "file_system \<Rightarrow> user_ids \<Rightarrow> path \<Rightarrow> (discovery_error, unit) result" where
  "validate_discovered_policy fs ids p =
     and_then (map_err DiscoveryIo (fs_symlink_metadata fs p)) (\<lambda>meta.
     if \<not> md_is_file meta then Err (InsecurePolicy p NotRegular)
     else if (md_mode meta AND 2) \<noteq> 0 then Err (InsecurePolicy p WorldWritable)
     else
       let uid = md_uid meta;
           sudo_uid = Option.bind (ui_sudo_uid ids) parse_u32
       in if uid \<noteq> ui_euid ids \<and> uid \<noteq> 0 \<and> Some uid \<noteq> sudo_uid 
          then Err (InsecurePolicy p (WrongOwner uid (ui_euid ids) sudo_uid))
          else Ok ())"

definition policy_name :: string where
  "policy_name = ''.syscallcage.yaml''"

text \<open>The loop; \<open>pop\<close> of the root fails.\<close>

function discover_policy ::
    "file_system \<Rightarrow> user_ids \<Rightarrow> path \<Rightarrow> (discovery_error, path option) result" where
  "discover_policy fs ids current =
     (let candidate = current @ [policy_name] in
      if fs_exists fs candidate
      then and_then (validate_discovered_policy fs ids candidate) (\<lambda>_. Ok (Some candidate))
      else if fs_exists fs (current @ [''.git'']) then Ok None
      else if current = [] then Ok None
      else discover_policy fs ids (butlast current))"
  by pat_completeness auto
termination
  by (relation "measure (\<lambda>(fs, ids, current). length current)") auto

declare discover_policy.simps [simp del]

lemma validate_Ok:
  "validate_discovered_policy fs ids p = Inr () \<longleftrightarrow>
     (\<exists>meta. fs_symlink_metadata fs p = Inr meta \<and> md_is_file meta \<and> (md_mode meta AND 2) = 0 \<and>
        (md_uid meta = ui_euid ids \<or> md_uid meta = 0 \<or>
         (\<exists>s. ui_sudo_uid ids = Some s \<and> parse_u32 s = Some (md_uid meta))))"
  by (cases "fs_symlink_metadata fs p"; cases "ui_sudo_uid ids")
     (auto simp: validate_discovered_policy_def Let_def)

section \<open>The search\<close>

text \<open>The directories that may be searched: upwards from the start, up to and including the first
  that holds \<open>.git\<close>.\<close>

function search_dirs :: "(path \<Rightarrow> bool) \<Rightarrow> path \<Rightarrow> path list" where
  "search_dirs git p = p # (if git p \<or> p = [] then [] else search_dirs git (butlast p))"
  by pat_completeness auto
termination
  by (relation "measure (\<lambda>(git, p). length p)") auto

declare search_dirs.simps [simp del]

lemma search_dirs_prefix: "d \<in> set (search_dirs git p) \<Longrightarrow> prefix d p"
proof (induction git p rule: search_dirs.induct)
  case (1 git p)
  then show ?case
    by (subst (asm) search_dirs.simps)
       (auto split: if_splits intro: prefix_order.order_trans simp: prefixeq_butlast)
qed

lemma search_dirs_git:
  "d \<in> set (search_dirs git p) \<Longrightarrow> prefix g p \<Longrightarrow> git g \<Longrightarrow> prefix g d"
proof (induction git p rule: search_dirs.induct)
  case (1 git p)
  show ?case
  proof (cases "d = p")
    case True
    with "1.prems" show ?thesis by simp
  next
    case False
    with "1.prems"(1) have up: "\<not> git p" "p \<noteq> []" "d \<in> set (search_dirs git (butlast p))"
      by (subst (asm) search_dirs.simps, simp split: if_splits)+
    then have "prefix g (butlast p)"
      using "1.prems"(2,3) by (metis append_butlast_last_id prefix_snoc)
    then show ?thesis
      using "1.IH" up "1.prems"(3) by blast
  qed
qed

lemma discover_find:
  "discover_policy fs ids p =
     (case find (\<lambda>d. fs_exists fs (d @ [policy_name])) (search_dirs (\<lambda>d. fs_exists fs (d @ [''.git''])) p) of
        None \<Rightarrow> Inr None
      | Some d \<Rightarrow> and_then (validate_discovered_policy fs ids (d @ [policy_name]))
                  (\<lambda>_. Inr (Some (d @ [policy_name]))))"
proof (induction fs ids p rule: discover_policy.induct)
  case (1 fs ids p)
  show ?case
    by (subst discover_policy.simps, subst search_dirs.simps) (use 1 in \<open>auto simp: Let_def\<close>)
qed

text \<open>
  Discovery finds the policy file nearest to the start among the directories from the start up
  to the first one that holds \<open>.git\<close>; that file is then checked, and a file that fails the check is an
  error: the search does not go on past it.
\<close>

theorem discover_nearest:
  "discover_policy fs ids start =
     (case find (\<lambda>d. fs_exists fs (d @ [policy_name])) (search_dirs (\<lambda>d. fs_exists fs (d @ [''.git''])) start) of
        None \<Rightarrow> Inr None
      | Some d \<Rightarrow>
          (case validate_discovered_policy fs ids (d @ [policy_name]) of
             Inl e \<Rightarrow> Inl e
           | Inr _ \<Rightarrow> Inr (Some (d @ [policy_name]))))"
  by (simp add: discover_find and_then_def split: option.split)

text \<open>
  C34. A discovered policy is trustworthy: it lies in the start directory or an ancestor of it, not
  above a directory with \<open>.git\<close>, and it is a regular file that others cannot write and whose owner is
  the user, root or the user who called \<open>sudo\<close>.
\<close>

theorem discovered_policy_trusted:
  assumes "discover_policy fs ids start = Inr (Some p)"
  shows "\<exists>d meta. p = d @ [policy_name] \<and> prefix d start \<and>
     (\<forall>g. prefix g start \<and> fs_exists fs (g @ [''.git'']) \<longrightarrow> prefix g d) \<and>
     fs_symlink_metadata fs p = Inr meta \<and> md_is_file meta \<and> (md_mode meta AND 2) = 0 \<and>
     (md_uid meta = ui_euid ids \<or> md_uid meta = 0 \<or>
      (\<exists>s. ui_sudo_uid ids = Some s \<and> parse_u32 s = Some (md_uid meta)))"
proof -
  let ?git = "\<lambda>d. fs_exists fs (d @ [''.git''])"
  from assms obtain d where
    d: "find (\<lambda>d. fs_exists fs (d @ [policy_name])) (search_dirs ?git start) = Some d"
      "validate_discovered_policy fs ids (d @ [policy_name]) = Inr ()" "p = d @ [policy_name]"
  proof (cases "find (\<lambda>d. fs_exists fs (d @ [policy_name])) (search_dirs ?git start)")
    case None
    with assms show ?thesis by (simp add: discover_find)
  next
    case (Some d)
    with assms have "and_then (validate_discovered_policy fs ids (d @ [policy_name]))
        (\<lambda>_. Inr (Some (d @ [policy_name]))) = Inr (Some p)"
      by (simp add: discover_find)
    then have "validate_discovered_policy fs ids (d @ [policy_name]) = Inr ()" "p = d @ [policy_name]"
      by (auto simp: and_then_Inr)
    with Some that show ?thesis by blast
  qed
  have "d \<in> set (search_dirs ?git start)"
    using find_SomeD [OF d(1)] by simp
  then have "prefix d start" "\<forall>g. prefix g start \<and> ?git g \<longrightarrow> prefix g d"
    using search_dirs_prefix search_dirs_git [of d ?git start] by auto
  then show ?thesis
    using d(2,3) unfolding validate_Ok by blast
qed

definition example_fs :: file_system where
  "example_fs =
     \<lparr>fs_exists = (\<lambda>p. p = [''home'', ''u'', ''proj'', policy_name] \<or> p = [''home'', ''u'', ''proj'', ''.git'']),
      fs_symlink_metadata = (\<lambda>p. Inr \<lparr>md_is_file = True, md_mode = 33188, md_uid = 1000\<rparr>)\<rparr>"

theorem discovered_policy_trusted_witness:
  "\<exists>d. discover_policy example_fs \<lparr>ui_euid = 0, ui_sudo_uid = Some ''1000''\<rparr> [''home'', ''u'', ''proj'', ''src''] =
       Inr (Some (d @ [policy_name])) \<and> prefix [''home'', ''u'', ''proj''] d"
proof -
  let ?ids = "\<lparr>ui_euid = 0, ui_sudo_uid = Some ''1000''\<rparr>"
  have "show_nat (unat (1000::u32)) = ''1000''"
    by code_simp
  then have "parse_u32 ''1000'' = Some 1000"
    using parse_u32_show [of 1000] by simp
  then have ok: "validate_discovered_policy example_fs ?ids p = Inr ()" for p
    by (simp add: validate_Ok example_fs_def)
  have found: "discover_policy example_fs ?ids [''home'', ''u'', ''proj'', ''src''] =
      Inr (Some [''home'', ''u'', ''proj'', policy_name])"
  proof -
    have "discover_policy example_fs ?ids [''home'', ''u'', ''proj'', ''src''] =
        discover_policy example_fs ?ids [''home'', ''u'', ''proj'']"
      by (subst discover_policy.simps) (simp add: example_fs_def policy_name_def)
    also have "\<dots> = Inr (Some [''home'', ''u'', ''proj'', policy_name])"
      by (subst discover_policy.simps) (simp add: ok Let_def, simp add: example_fs_def policy_name_def)
    finally show ?thesis .
  qed
  have git: "prefix [''home'', ''u'', ''proj''] [''home'', ''u'', ''proj'', ''src'']"
    "fs_exists example_fs ([''home'', ''u'', ''proj''] @ [''.git''])"
    by (simp_all add: example_fs_def)
  from discovered_policy_trusted [OF found] git found show ?thesis
    by metis
qed

end
