(* ===== verification/Paths.thy ===== *)
theory Paths
  imports Rust_Str "HOL-Library.List_Lexorder" "HOL-Library.Char_ord"
begin

text \<open>
  \<open>std::path\<close> as the policy generator uses it: the components of a path, their order, the parent of a
  path (a slice of its text) and the text built by pushing components.
\<close>

section \<open>Components\<close>

datatype component = RootDir | CurDir | ParentDir | Normal string

text \<open>The derived order of \<open>std::path::Component\<close>: by variant, then by the bytes of the name.\<close>

fun comp_rank :: "component \<Rightarrow> nat" where
  "comp_rank RootDir = 0"
| "comp_rank CurDir = 1"
| "comp_rank ParentDir = 2"
| "comp_rank (Normal s) = 3"

fun comp_name :: "component \<Rightarrow> string" where
  "comp_name (Normal s) = s"
| "comp_name c = []"

instantiation component :: linorder
begin

definition less_eq_component :: "component \<Rightarrow> component \<Rightarrow> bool" where
  "less_eq_component c d \<longleftrightarrow>
     comp_rank c < comp_rank d \<or> (comp_rank c = comp_rank d \<and> comp_name c \<le> comp_name d)"

definition less_component :: "component \<Rightarrow> component \<Rightarrow> bool" where
  "less_component c d \<longleftrightarrow> (c \<le> d \<and> \<not> d \<le> (c :: component))"

instance
proof
  fix c d e :: component
  show "c < d \<longleftrightarrow> c \<le> d \<and> \<not> d \<le> c"
    by (simp add: less_component_def)
  show "c \<le> c"
    by (simp add: less_eq_component_def)
  show "c \<le> d \<Longrightarrow> d \<le> e \<Longrightarrow> c \<le> e"
    by (auto simp: less_eq_component_def)
  show "c \<le> d \<Longrightarrow> d \<le> c \<Longrightarrow> c = d"
    by (cases c; cases d) (auto simp: less_eq_component_def)
  show "c \<le> d \<or> d \<le> c"
    by (auto simp: less_eq_component_def)
qed

end

definition component_of :: "string \<Rightarrow> component" where
  "component_of s = (if s = ''..'' then ParentDir else Normal s)"

text \<open>Empty pieces and dots in the body are no components; a leading dot of a relative path is one.\<close>

definition body_component :: "string \<Rightarrow> component list" where
  "body_component s = (if s = [] \<or> s = ''.'' then [] else [component_of s])"

definition components :: "string \<Rightarrow> component list" where
  "components p =
     (case split_on CHR ''/'' p of
        [] \<Rightarrow> []
      | s # ss \<Rightarrow>
          (if s = [] then (if ss = [] then [] else [RootDir])
           else if s = ''.'' then [CurDir] else [component_of s])
          @ concat (map body_component ss))"

definition comp_str :: "component \<Rightarrow> string" where
  "comp_str c = (case c of RootDir \<Rightarrow> ''/'' | CurDir \<Rightarrow> ''.'' | ParentDir \<Rightarrow> ''..'' | Normal s \<Rightarrow> s)"

text \<open>\<open>PathBuf::push\<close>: an absolute part replaces the buffer; otherwise a separator is put in when needed.\<close>

definition push :: "string \<Rightarrow> string \<Rightarrow> string" where
  "push buf part =
     (if str_starts_with part ''/'' then part
      else if buf = [] \<or> str_ends_with buf ''/'' then buf @ part
      else buf @ ''/'' @ part)"

definition push_all :: "component list \<Rightarrow> string" where
  "push_all cs = foldl (\<lambda>buf c. push buf (comp_str c)) [] cs"

text \<open>
  \<open>Path::parent\<close>: the text without its last component and without the separators and dots before it;
  the root and the empty path have none.
\<close>

definition ignorable :: "string \<Rightarrow> bool" where
  "ignorable s \<longleftrightarrow> s = [] \<or> s = ''.''"

definition trim_tail :: "string list \<Rightarrow> string list" where
  "trim_tail ss = rev (dropWhile ignorable (rev ss))"

definition parent_path :: "string \<Rightarrow> string option" where
  "parent_path p =
     (case split_on CHR ''/'' p of
        [] \<Rightarrow> None
      | s # ss \<Rightarrow>
          let body = trim_tail ss in
          if body = [] then (if s = [] then None else Some [])
          else
            let rest = trim_tail (butlast body) in
            if s = [] then Some (''/'' @ join_with ''/'' rest)
            else Some (join_with ''/'' (s # rest)))"

section \<open>Clean absolute paths\<close>

text \<open>\<open>abs_path ns\<close> is the path \<open>/n1/n2/...\<close> of the names \<open>ns\<close>.\<close>

definition name_ok :: "string \<Rightarrow> bool" where
  "name_ok s \<longleftrightarrow> s \<noteq> [] \<and> s \<noteq> ''.'' \<and> s \<noteq> ''..'' \<and> CHR ''/'' \<notin> set s"

definition abs_path :: "string list \<Rightarrow> string" where
  "abs_path ns = ''/'' @ join_with ''/'' ns"

abbreviation names_ok :: "string list \<Rightarrow> bool" where
  "names_ok ns \<equiv> list_all name_ok ns"

lemma join_with_snoc: "ns \<noteq> [] \<Longrightarrow> join_with sep (ns @ [n]) = join_with sep ns @ sep @ n"
  by (induction sep ns rule: join_with.induct) auto

lemma join_with_append:
  "ns \<noteq> [] \<Longrightarrow> ms \<noteq> [] \<Longrightarrow> join_with sep (ns @ ms) = join_with sep ns @ sep @ join_with sep ms"
  by (induction sep ns rule: join_with.induct) (auto simp: neq_Nil_conv)

lemma abs_path_Nil [simp]: "abs_path [] = ''/''"
  by (simp add: abs_path_def)

lemma abs_path_snoc: "abs_path (ns @ [n]) = (if ns = [] then ''/'' @ n else abs_path ns @ ''/'' @ n)"
  by (simp add: abs_path_def join_with_snoc)

lemma abs_path_append:
  "ns \<noteq> [] \<Longrightarrow> ms \<noteq> [] \<Longrightarrow> abs_path (ns @ ms) = abs_path ns @ ''/'' @ join_with ''/'' ms"
  by (simp add: abs_path_def join_with_append)

lemma abs_path_not_Nil [simp]: "abs_path ns \<noteq> []"
  by (simp add: abs_path_def)

lemma join_names_Nil: "names_ok ns \<Longrightarrow> join_with ''/'' ns = [] \<longleftrightarrow> ns = []"
  by (cases "(''/'', ns)" rule: join_with.cases) (auto simp: name_ok_def)

lemma abs_path_root: "names_ok ns \<Longrightarrow> abs_path ns = ''/'' \<longleftrightarrow> ns = []"
  by (simp add: abs_path_def join_names_Nil)

lemma names_ok_split: "names_ok ns \<Longrightarrow> \<forall>n \<in> set ns. CHR ''/'' \<notin> set n"
  by (auto simp: list_all_iff name_ok_def)

lemma split_abs:
  assumes "names_ok ns"
  shows "split_on CHR ''/'' (abs_path ns) = [] # (if ns = [] then [[]] else ns)"
proof (cases "ns = []")
  case False
  with split_on_join [OF this names_ok_split [OF assms]] show ?thesis
    by (simp add: abs_path_def)
qed simp

lemma body_components_ok: "names_ok ns \<Longrightarrow> concat (map body_component ns) = map Normal ns"
  by (induction ns) (auto simp: body_component_def component_of_def name_ok_def)

lemma components_abs: "names_ok ns \<Longrightarrow> components (abs_path ns) = RootDir # map Normal ns"
  by (simp add: components_def split_abs body_components_ok) (simp add: body_component_def)

lemma trim_tail_ok: "names_ok ns \<Longrightarrow> trim_tail ns = ns"
  by (cases ns rule: rev_cases) (auto simp: trim_tail_def ignorable_def name_ok_def)

lemma parent_abs: "names_ok (ns @ [n]) \<Longrightarrow> parent_path (abs_path (ns @ [n])) = Some (abs_path ns)"
  using split_abs [of "ns @ [n]"] trim_tail_ok [of "ns @ [n]"] trim_tail_ok [of ns]
  by (simp add: parent_path_def Let_def abs_path_def)

lemma parent_abs_butlast:
  "names_ok ns \<Longrightarrow> ns \<noteq> [] \<Longrightarrow> parent_path (abs_path ns) = Some (abs_path (butlast ns))"
  by (cases ns rule: rev_cases) (simp_all add: parent_abs)

lemma name_ok_no_slash: "name_ok n \<Longrightarrow> \<not> prefix ''/'' n"
  by (auto simp: name_ok_def prefix_def)

lemma abs_path_ends: "names_ok ns \<Longrightarrow> suffix ''/'' (abs_path ns) \<longleftrightarrow> ns = []"
proof (cases ns rule: rev_cases)
  case (snoc ms m)
  moreover assume "names_ok ns"
  ultimately have m: "m \<noteq> []" "CHR ''/'' \<notin> set m"
    by (auto simp: name_ok_def)
  then have "last m \<noteq> CHR ''/''"
    using last_in_set by metis
  moreover have "last (abs_path ns) = last m"
    using snoc m by (simp add: abs_path_snoc)
  ultimately show ?thesis
    using snoc by (auto simp: suffix_def)
qed simp

lemma push_all_snoc: "push_all (cs @ [c]) = push (push_all cs) (comp_str c)"
  by (simp add: push_all_def)

lemma push_all_abs: "names_ok ns \<Longrightarrow> push_all (RootDir # map Normal ns) = abs_path ns"
proof (induction ns rule: rev_induct)
  case Nil
  then show ?case by (simp add: push_all_def push_def comp_str_def)
next
  case (snoc n ns)
  then have ih: "push_all (RootDir # map Normal ns) = abs_path ns"
    by simp
  have "push_all (RootDir # map Normal (ns @ [n])) = push (abs_path ns) n"
    using push_all_snoc [of "RootDir # map Normal ns" "Normal n"] ih by (simp add: comp_str_def)
  also have "\<dots> = abs_path (ns @ [n])"
    using snoc.prems name_ok_no_slash [of n] abs_path_ends [of ns]
    by (simp add: push_def abs_path_snoc)
  finally show ?case .
qed

lemma inj_Normal: "inj Normal"
  by (simp add: inj_def)

lemmas map_Normal_inject = inj_map_eq_map [OF inj_Normal]

lemma abs_path_inject: "names_ok ns \<Longrightarrow> names_ok ms \<Longrightarrow> abs_path ns = abs_path ms \<longleftrightarrow> ns = ms"
  using components_abs [of ns] components_abs [of ms] map_Normal_inject [of ns ms] by force

lemma names_ok_take: "names_ok ns \<Longrightarrow> names_ok (take n ns)"
  by (meson list_all_iff in_set_takeD)

lemma names_ok_prefix: "prefix ms ns \<Longrightarrow> names_ok ns \<Longrightarrow> names_ok ms"
  by (auto simp: prefix_def)

lemma names_ok_butlast: "names_ok ns \<Longrightarrow> names_ok (butlast ns)"
  by (meson list_all_iff in_set_butlastD)

text \<open>A strict prefix of the names is a directory above the path.\<close>

lemma dir_above:
  assumes "strict_prefix ms ns" and "ms \<noteq> []"
  shows "prefix (abs_path ms @ ''/'') (abs_path ns)"
proof -
  from assms(1) obtain z zs where "ns = ms @ z # zs"
    by (auto elim: strict_prefixE')
  with assms(2) show ?thesis
    by (simp add: abs_path_append)
qed

end
