(* ===== verification/Generator.thy ===== *)
theory Generator
  imports Paths Policy Logging
begin

text \<open>
  \<open>policy_generator.rs\<close>: a policy is drawn from the log of a session.  Observed paths are grouped
  and replaced by the directories that hold them; domains become the allow list; the mandatory
  denials are always written.  Parameters are the JSON reader, the YAML writer, the Unicode
  lower-casing of \<open>str\<close>, the file system, the clock and the iteration order of the \<open>HashMap\<close> of groups.
\<close>

section \<open>The generated policy\<close>

record generated_filesystem =
  gf_allow_read :: "string list"
  gf_allow_write :: "string list"
  gf_deny_always :: "string list"

record generated_network =
  gn_allow_domains :: "string list"
  gn_deny_all_else :: bool

record generated_syscalls =
  gs_deny :: "string list"

record generated_policy =
  g_mode :: string
  g_filesystem :: generated_filesystem
  g_network :: generated_network
  g_syscalls :: generated_syscalls

record log_line_fields =
  ll_event_type :: "string option"
  ll_target :: "string option"
  ll_action :: "string option"

text \<open>
  The derived \<open>Deserialize\<close>: an absent field is \<open>None\<close>, a field that is not a text is an error, the other
  fields of the object are ignored.
\<close>

definition text_field :: "json_object \<Rightarrow> string \<Rightarrow> string option option" where
  "text_field obj name =
     (case map_of obj name of
        None \<Rightarrow> Some None
      | Some (JText s) \<Rightarrow> Some (Some s)
      | Some (JNumber n) \<Rightarrow> None)"

definition log_line_of :: "json_object \<Rightarrow> log_line_fields option" where
  "log_line_of obj =
     (case (text_field obj ''event_type'', text_field obj ''target'', text_field obj ''action'') of
        (Some et, Some target, Some act) \<Rightarrow> Some \<lparr>ll_event_type = et, ll_target = target, ll_action = act\<rparr>
      | _ \<Rightarrow> None)"

lemma log_line_of_entry:
  "log_line_of (entry_fields e) =
     Some \<lparr>ll_event_type = le_event_type e, ll_target = le_target e, ll_action = le_action e\<rparr>"
  by (simp add: log_line_of_def text_field_def entry_fields_def present_def split: option.split)

definition mandatory_deny_always :: "string list" where
  "mandatory_deny_always = [''**/.env'', ''**/.ssh/**'', ''**/id_rsa*'', ''**/*.pem'']"

definition mandatory_deny_syscalls :: "string list" where
  "mandatory_deny_syscalls = [''execve:/bin/sh'', ''execve:/bin/bash'', ''ptrace'']"

section \<open>Generalising paths\<close>

definition is_sensitive_path_str :: "(string \<Rightarrow> string) \<Rightarrow> string \<Rightarrow> bool" where
  "is_sensitive_path_str lowercase path =
     (let lower = lowercase path in
      str_contains lower ''.env'' \<or> str_contains lower ''.ssh'' \<or>
      str_contains lower ''id_rsa'' \<or> str_ends_with lower ''.pem'')"

text \<open>\<open>Vec::dedup\<close> on paths, whose equality is that of their components.\<close>

fun dedup_by :: "('a \<Rightarrow> 'b) \<Rightarrow> 'a list \<Rightarrow> 'a list" where
  "dedup_by f [] = []"
| "dedup_by f [x] = [x]"
| "dedup_by f (x # y # xs) =
     (if f x = f y then dedup_by f (x # xs) else x # dedup_by f (y # xs))"

definition normalized_paths :: "string list \<Rightarrow> string list" where
  "normalized_paths paths = dedup_by components (sort_key components paths)"

definition cluster_key :: "string \<Rightarrow> string" where
  "cluster_key path =
     (case components path of
        [] \<Rightarrow> push_all []
      | [c1] \<Rightarrow> push_all [c1]
      | [c1, c2] \<Rightarrow> push_all [c1, c2]
      | [c1, c2, c3] \<Rightarrow> push_all [c1, c2]
      | c1 # c2 # c3 # c4 # cs \<Rightarrow> push_all [c1, c2, c3])"

type_synonym path_groups = "(string \<times> string list) list"

fun add_to_group :: "string \<Rightarrow> string \<Rightarrow> path_groups \<Rightarrow> path_groups" where
  "add_to_group key path [] = [(key, [path])]"
| "add_to_group key path ((k, ps) # gs) =
     (if components k = components key then (k, ps @ [path]) # gs
      else (k, ps) # add_to_group key path gs)"

definition group_paths :: "string list \<Rightarrow> path_groups" where
  "group_paths paths = fold (\<lambda>path. add_to_group (cluster_key path) path) paths []"

text \<open>The zip of the components of two paths, up to the first difference.\<close>

fun common_components :: "component list \<Rightarrow> component list \<Rightarrow> component list" where
  "common_components (c1 # cs1) (c2 # cs2) = (if c1 = c2 then c1 # common_components cs1 cs2 else [])"
| "common_components cs1 cs2 = []"

definition common_ancestor :: "string list \<Rightarrow> string" where
  "common_ancestor ps =
     foldl (\<lambda>common other. push_all (common_components (components common) (components other)))
       (hd ps) (tl ps)"

definition parent_glob :: "string \<Rightarrow> string" where
  "parent_glob parent_str = (if parent_str = ''/'' then ''/**'' else parent_str @ ''/**'')"

text \<open>The globs of one group: one iteration of the loop over the groups.\<close>

definition group_globs :: "string list \<Rightarrow> string list" where
  "group_globs ps =
     (case ps of
        [] \<Rightarrow> []
      | [p] \<Rightarrow> (case parent_path p of Some parent \<Rightarrow> [parent_glob parent] | None \<Rightarrow> [''/**''])
      | _ \<Rightarrow>
          let common = common_ancestor ps in
          if common = [] \<or> common = ''/'' then
            concat (map (\<lambda>p. case parent_path p of Some parent \<Rightarrow> [parent_glob parent] | None \<Rightarrow> []) ps)
          else if list_ex (\<lambda>p. components p = components common) ps then
            (case parent_path common of
               Some parent \<Rightarrow> [parent @ ''/**'']
             | None \<Rightarrow> [common @ ''/**''])
          else [common @ ''/**''])"

definition generalize_paths :: "(path_groups \<Rightarrow> path_groups) \<Rightarrow> string list \<Rightarrow> string list" where
  "generalize_paths iter paths =
     (if paths = [] then []
      else
        let groups = group_paths (normalized_paths paths);
            globs = concat (map (\<lambda>(key, ps). group_globs ps) (iter groups))
        in remdups_adj (sort globs))"

section \<open>Reading the log\<close>

record gen_state =
  raw_reads :: "string list"
  raw_writes :: "string list"
  raw_domains :: "string list"
  raw_syscalls :: "string list"
  event_count :: nat
  gen_log :: "log_call list"

text \<open>
  \<open>reader.lines()\<close> as the function of its items: the i-th call of \<open>next\<close> gives a line, an error of the read,
  or \<open>None\<close> at the end of the file.  An error does not end the iteration.
\<close>

type_synonym line_reader = "nat \<Rightarrow> (io_error, string) result option"

definition lines_of :: "(io_error, string) result list \<Rightarrow> line_reader" where
  "lines_of ls i = (if i < length ls then Some (ls ! i) else None)"

text \<open>What the generator takes from its surroundings.\<close>

record ('j, 'y) gen_env =
  open_file :: "string \<Rightarrow> (io_error, line_reader) result"
  lowercase :: "string \<Rightarrow> string"
  read_json :: "string \<Rightarrow> ('j, log_line_fields) result"
  to_yaml :: "generated_policy \<Rightarrow> ('y, string) result"
  write_file :: "string \<Rightarrow> string \<Rightarrow> (io_error, unit) result"
  ge_show_io :: "io_error \<Rightarrow> string"
  ge_show_json :: "'j \<Rightarrow> string"
  ge_show_yaml :: "'y \<Rightarrow> string"
  ge_debug_path :: "string \<Rightarrow> string"
  header_time :: string                                      \<comment> \<open>\<open>get_timestamp\<close> for the header\<close>
  map_order :: "path_groups \<Rightarrow> path_groups"

abbreviation gen_call :: "string \<Rightarrow> string \<Rightarrow> log_call" where
  "gen_call level message \<equiv> plain_call level ''policy_generator'' None message"

definition gen_warn :: "string \<Rightarrow> gen_state \<Rightarrow> gen_state" where
  "gen_warn message st = st\<lparr>gen_log := gen_log st @ [gen_call ''warn'' message]\<rparr>"

text \<open>The match on the event type of a line that has both a type and a target.\<close>

definition record_event :: "('j, 'y) gen_env \<Rightarrow> string \<Rightarrow> string \<Rightarrow> gen_state \<Rightarrow> gen_state" where
  "record_event env et target st =
     (let kind = lowercase env et in
      if kind = ''read'' then
        (if \<not> is_sensitive_path_str (lowercase env) target then st\<lparr>raw_reads := raw_reads st @ [target]\<rparr> else st)
      else if kind = ''write'' then
        (if \<not> is_sensitive_path_str (lowercase env) target then st\<lparr>raw_writes := raw_writes st @ [target]\<rparr> else st)
      else if kind = ''network'' then st\<lparr>raw_domains := raw_domains st @ [target]\<rparr>
      else if kind = ''syscall'' then st\<lparr>raw_syscalls := raw_syscalls st @ [target]\<rparr>
      else st)"

definition read_log_line ::
    "('j, 'y) gen_env \<Rightarrow> nat \<times> (io_error, string) result \<Rightarrow> gen_state \<Rightarrow> gen_state" where
  "read_log_line env numbered st =
     (case numbered of (line_num, line_res) \<Rightarrow>
      (case line_res of
         Inl e \<Rightarrow>
           gen_warn
             (''erro ao ler linha '' @ show_nat (line_num + 1) @ '' do log: '' @ ge_show_io env e) st
       | Inr line \<Rightarrow>
           let trimmed = str_trim line in
           if trimmed = [] then st
           else
             (case read_json env trimmed of
                Inl e \<Rightarrow>
                  gen_warn
                    (''linha '' @ show_nat (line_num + 1) @ '' malformada no log: '' @ ge_show_json env e) st
              | Inr val \<Rightarrow>
                  let st = st\<lparr>event_count := event_count st + 1\<rparr> in
                  (case (ll_event_type val, ll_target val) of
                     (Some et, Some target) \<Rightarrow> record_event env et target st
                   | _ \<Rightarrow> st))))"

definition empty_gen_state :: gen_state where
  "empty_gen_state =
     \<lparr>raw_reads = [], raw_writes = [], raw_domains = [], raw_syscalls = [], event_count = 0, gen_log = []\<rparr>"

text \<open>The loop over the lines, which ends with the reader only; \<open>None\<close> is a loop that goes on for ever.\<close>

partial_function (option) read_lines ::
    "('j, 'y) gen_env \<Rightarrow> line_reader \<Rightarrow> nat \<Rightarrow> gen_state \<Rightarrow> gen_state option" where
  "read_lines env items i st =
     (case items i of
        None \<Rightarrow> Some st
      | Some line_res \<Rightarrow> read_lines env items (i + 1) (read_log_line env (i, line_res) st))"

declare read_lines.simps [code]

definition read_log :: "('j, 'y) gen_env \<Rightarrow> (io_error, string) result list \<Rightarrow> gen_state" where
  "read_log env ls = fold (read_log_line env) (enumerate 0 ls) empty_gen_state"

lemma read_lines_fold:
  assumes "items n = None"
  shows "i \<le> n \<Longrightarrow> \<forall>j. i \<le> j \<and> j < n \<longrightarrow> items j = Some (f j) \<Longrightarrow>
    read_lines env items i st = Some (fold (\<lambda>j. read_log_line env (j, f j)) [i..<n] st)"
proof (induction "n - i" arbitrary: i st)
  case 0
  then show ?case
    using assms by (simp add: read_lines.simps)
next
  case (Suc d)
  then have "i < n" "items i = Some (f i)"
    by auto
  moreover from this Suc have "read_lines env items (Suc i) (read_log_line env (i, f i) st) =
      Some (fold (\<lambda>j. read_log_line env (j, f j)) [Suc i..<n] (read_log_line env (i, f i) st))"
    by (intro Suc.hyps(1)) auto
  ultimately show ?case
    by (simp add: read_lines.simps [of env items i] upt_conv_Cons)
qed

lemma enumerate_upt: "enumerate 0 ls = map (\<lambda>j. (j, ls ! j)) [0..<length ls]"
  by (rule nth_equalityI) (simp_all add: nth_enumerate_eq)

lemma read_lines_list: "read_lines env (lines_of ls) 0 empty_gen_state = Some (read_log env ls)"
  using read_lines_fold [of "lines_of ls" "length ls" 0 "\<lambda>j. ls ! j" env empty_gen_state]
  by (simp add: lines_of_def read_log_def enumerate_upt fold_map o_def)

lemma read_lines_returned:
  assumes "read_lines env items i st = Some st'"
  shows "\<exists>k. items k = None"
proof -
  have "(\<lambda>env items i st st'. \<exists>k. items k = None) env items i st st'"
    by (rule read_lines.raw_induct [OF _ assms]) (auto split: option.splits)
  then show ?thesis .
qed

lemma read_lines_ends: "read_lines env items 0 st \<noteq> None \<longleftrightarrow> (\<exists>k. items k = None)"
proof
  assume "\<exists>k. items k = None"
  then obtain n where "items n = None" "\<forall>j. 0 \<le> j \<and> j < n \<longrightarrow> items j = Some (the (items j))"
    using exists_least_iff [of "\<lambda>k. items k = None"] by auto
  then show "read_lines env items 0 st \<noteq> None"
    using read_lines_fold [of items n 0 "\<lambda>j. the (items j)" env st] by simp
qed (use read_lines_returned in blast)

section \<open>The policy\<close>

definition risky_syscall :: "string \<Rightarrow> bool" where
  "risky_syscall sys = list_ex (\<lambda>m. str_contains sys m \<or> str_contains m sys) mandatory_deny_syscalls"

definition build_policy :: "('j, 'y) gen_env \<Rightarrow> gen_state \<Rightarrow> generated_policy" where
  "build_policy env st =
     \<lparr>g_mode = ''enforce'',
      g_filesystem =
        \<lparr>gf_allow_read = generalize_paths (map_order env) (raw_reads st),
         gf_allow_write = generalize_paths (map_order env) (raw_writes st),
         gf_deny_always = mandatory_deny_always\<rparr>,
      g_network =
        \<lparr>gn_allow_domains = remdups_adj (sort (raw_domains st)), gn_deny_all_else = True\<rparr>,
      g_syscalls =
        \<lparr>gs_deny =
           remdups_adj (sort (mandatory_deny_syscalls @ filter risky_syscall (raw_syscalls st)))\<rparr>\<rparr>"

text \<open>The comment at the head of the file; accented letters are written as their UTF-8 bytes.\<close>

definition policy_header :: "string \<Rightarrow> nat \<Rightarrow> string \<Rightarrow> string" where
  "policy_header log_filename count timestamp =
     ''# Pol'' @ [CHR 0xC3, CHR 0xAD] @ ''tica gerada automaticamente por `syscallcage generate-policy`'' @
     newline @ ''# a partir de: '' @ log_filename @ '' ('' @ show_nat count @ '' eventos analisados)'' @
     newline @ ''# Gerado em: '' @ timestamp @
     newline @ ''#'' @
     newline @ ''# REVISE ANTES DE USAR EM PRODU'' @ [CHR 0xC3, CHR 0x87, CHR 0xC3, CHR 0x83] @
       ''O. Isto reflete o que foi OBSERVADO'' @
     newline @ ''# numa sess'' @ [CHR 0xC3, CHR 0xA3] @ ''o, n'' @ [CHR 0xC3, CHR 0xA3] @
       ''o uma auditoria de seguran'' @ [CHR 0xC3, CHR 0xA7] @ ''a. Confirme que os paths e'' @
     newline @ ''# dom'' @ [CHR 0xC3, CHR 0xAD] @ ''nios abaixo fazem sentido para o seu caso de uso antes de rodar'' @
     newline @ ''# em modo enforce.'' @ newline @ newline"

datatype 'y gen_error = GenIo io_error | GenYaml 'y

definition gen_error_message :: "('j, 'y) gen_env \<Rightarrow> 'y gen_error \<Rightarrow> string" where
  "gen_error_message env e = (case e of GenIo io \<Rightarrow> ge_show_io env io | GenYaml y \<Rightarrow> ge_show_yaml env y)"

text \<open>\<open>Path::file_name\<close>: the last component, if it is a name.\<close>

definition file_name :: "string \<Rightarrow> string option" where
  "file_name p =
     (case rev (components p) of Normal s # cs \<Rightarrow> Some s | _ \<Rightarrow> None)"

definition log_filename :: "string \<Rightarrow> string" where
  "log_filename from_log =
     (case file_name from_log of Some f \<Rightarrow> from_utf8_lossy (as_bytes f) | None \<Rightarrow> ''sessao.jsonl'')"

text \<open>The result comes with the entries that were logged and the text given to the file system.\<close>

type_synonym 'y generated = "log_call list \<times> string option \<times> ('y gen_error, unit) result"

definition write_policy :: "('j, 'y) gen_env \<Rightarrow> string \<Rightarrow> string \<Rightarrow> gen_state \<Rightarrow> 'y generated" where
  "write_policy env from_log output st =
     (case to_yaml env (build_policy env st) of
        Inl e \<Rightarrow> (gen_log st, None, Err (GenYaml e))
      | Inr yaml_content \<Rightarrow>
          let header = policy_header (log_filename from_log) (event_count st) (header_time env);
              final_content = header @ yaml_content
          in (case write_file env output final_content of
                Inl e \<Rightarrow> (gen_log st, Some final_content, Err (GenIo e))
              | Inr _ \<Rightarrow>
                  (gen_log st @
                   [gen_call ''info''
                      (''Pol'' @ [CHR 0xC3, CHR 0xAD] @
                       ''tica gerada com sucesso e salva em '' @ ge_debug_path env output)],
                   Some final_content, Ok ())))"

definition run_generator :: "('j, 'y) gen_env \<Rightarrow> string \<Rightarrow> string \<Rightarrow> 'y generated option" where
  "run_generator env from_log output =
     (case open_file env from_log of
        Inl e \<Rightarrow> Some ([], None, Err (GenIo e))
      | Inr items \<Rightarrow> map_option (write_policy env from_log output) (read_lines env items 0 empty_gen_state))"

end
