(* ===== verification/Cli.thy ===== *)
theory Cli
  imports Discovery Watch Generator
begin

text \<open>
  \<open>main.rs\<close>: the choice of the policy file, the commands and the report of \<open>doctor\<close>.  A command calls the
  models of the other components; only the system, the libraries and the timing are in its
  environment.  Its value is the trace of its effects, what it prints and its exit status.
\<close>

section \<open>Choice of the policy\<close>

datatype policy_source = Given string | Discovered path

abbreviation main_info :: "string \<Rightarrow> log_call" where
  "main_info \<equiv> info_call ''main''"

abbreviation main_fatal :: "string \<Rightarrow> log_call" where
  "main_fatal \<equiv> fatal_call ''main''"

definition resolve_policy ::
    "(io_error \<Rightarrow> string) \<Rightarrow> file_system \<Rightarrow> user_ids \<Rightarrow> path \<Rightarrow> string option \<Rightarrow>
     (int, policy_source) logged_result" where
  "resolve_policy show_io fs ids cwd policy_arg =
     (let search =
            (case discover_policy fs ids cwd of
               Inr (Some p) \<Rightarrow>
                 saying [main_info (''usando pol'' @ [CHR 0xC3, CHR 0xAD] @ ''tica descoberta automaticamente em '' @ display_path p)] (Discovered p)
             | Inr None \<Rightarrow>
                 ([main_fatal (''nenhuma pol'' @ [CHR 0xC3, CHR 0xAD] @ ''tica encontrada e --policy n'' @ [CHR 0xC3, CHR 0xA3] @ ''o foi fornecido'')], Err 1)
             | Inl e \<Rightarrow>
                 ([main_fatal (''erro ao descobrir pol'' @ [CHR 0xC3, CHR 0xAD] @ ''tica: '' @ discovery_error_message show_io e)], Err 1))
      in (case policy_arg of
            Some p \<Rightarrow> if p \<noteq> [] then saying [] (Given p) else search
          | None \<Rightarrow> search))"

section \<open>The environment and the result\<close>

datatype select_branch = SigintFirst | SigtermFirst | TaskFirst

text \<open>
  What the system and the libraries answer.  The monitor task runs beside the main one: \<open>mn_rounds\<close> are
  the rounds of its event loop, \<open>mn_kill\<close> the answers of \<open>kill\<close> to its deliveries, \<open>mn_seen\<close> the number of
  them handled when \<open>select!\<close> completes, \<open>mn_select\<close> the branch that does, \<open>mn_gone\<close> whether the liveness
  thread found the target gone and \<open>mn_flags\<close> the shared flags when the task has ended.
\<close>

record ('y, 'e, 'n, 'b) main_env =
  mn_yaml :: "string \<Rightarrow> ('y, raw_policy) result"
  mn_read_file :: "string \<Rightarrow> (io_error, u8 list) result"
  mn_show_yaml :: "'y \<Rightarrow> string"
  mn_show_regex :: "'e \<Rightarrow> string"
  mn_text :: "('n, 'b) watch_text"
  mn_debug_path :: "string \<Rightarrow> string"
  mn_open_log :: "string \<Rightarrow> (io_error, string list) result"   \<comment> \<open>the present lines of the file\<close>
  mn_monitor :: "'b monitor_env"
  mn_evict :: eviction
  mn_rounds :: "round list"
  mn_kill :: "nat \<Rightarrow> killer"
  mn_seen :: nat
  mn_gone :: bool
  mn_join_error :: string
  mn_sigint :: "(io_error, unit) result"
  mn_sigterm :: "(io_error, unit) result"
  mn_select :: select_branch
  mn_flags :: monitor_flags
  mn_attempts :: "('n, 'b) attempt list"                        \<comment> \<open>the rounds of \<open>watch::run\<close>\<close>

abbreviation mn_show_io :: "('y, 'e, 'n, 'b) main_env \<Rightarrow> io_error \<Rightarrow> string" where
  "mn_show_io env \<equiv> show_io_error (mn_text env)"

datatype subcommand =
    GeneratePolicy string string
  | Doctor
  | WatchCommand "string option" "u32 option" "string list"

record args =
  arg_pid :: "u32 option"
  arg_policy :: "string option"
  arg_log_file :: "string option"
  arg_dry_run :: bool
  arg_command :: "subcommand option"

text \<open>The status is \<open>None\<close> while the rounds given so far have not ended the process.\<close>

record 're main_result =
  mr_trace :: "effect list"
  mr_printed :: "string list"
  mr_status :: "int option"
  mr_policy :: "'re policy option"           \<comment> \<open>the policy of the enforcer, once there is one\<close>

definition exit_with :: "effect list \<Rightarrow> int \<Rightarrow> 're policy option \<Rightarrow> 're main_result" where
  "exit_with es status pol = \<lparr>mr_trace = es, mr_printed = [], mr_status = Some status, mr_policy = pol\<rparr>"

definition after_effects :: "effect list \<Rightarrow> 're main_result \<Rightarrow> 're main_result" where
  "after_effects es r = r\<lparr>mr_trace := es @ mr_trace r\<rparr>"

section \<open>The monitor command\<close>

text \<open>\<open>Policy::load\<close> on the chosen path, its error as \<open>main\<close> prints it.\<close>

definition source_path :: "policy_source \<Rightarrow> string" where
  "source_path src = (case src of Given p \<Rightarrow> p | Discovered p \<Rightarrow> display_path p)"

definition load_policy ::
    "('re, 'e) regex_api \<Rightarrow> ('y, 'e, 'n, 'b) main_env \<Rightarrow> policy_source \<Rightarrow> (string, 're policy) result" where
  "load_policy api env src =
     map_err (policy_error_message (mn_show_io env) (mn_show_yaml env) (mn_show_regex env))
       (load api (mn_yaml env) (mn_read_file env) (source_path src))"

definition effective_policy :: "bool \<Rightarrow> 're policy \<Rightarrow> 're policy" where
  "effective_policy dry_run pol = (if dry_run then force_dry_run pol else pol)"

definition dry_run_log :: "bool \<Rightarrow> log_call list" where
  "dry_run_log dry_run =
     (if dry_run then [main_info (''modo dry-run ativado: viola'' @ [CHR 0xC3, CHR 0xA7, CHR 0xC3, CHR 0xB5] @ ''es ser'' @ [CHR 0xC3, CHR 0xA3] @ ''o apenas auditadas'')] else [])"

definition debug_event_type :: "event_type \<Rightarrow> string" where
  "debug_event_type t =
     (case t of Read \<Rightarrow> ''Read'' | Write \<Rightarrow> ''Write'' | Network \<Rightarrow> ''Network'' | Syscall \<Rightarrow> ''Syscall'')"

text \<open>The handler: an error of the enforcer is logged with the event.\<close>

definition main_handler_log ::
    "(io_error \<Rightarrow> string) \<Rightarrow> event \<Rightarrow> (enforce_error, action) result \<Rightarrow> log_call list" where
  "main_handler_log show_io ev r =
     (case r of
        Inr _ \<Rightarrow> []
      | Inl e \<Rightarrow>
          [\<lparr>call_level = ''warn'', call_component = ''main'',
            call_message = (''erro ao processar evento: '' @ enforce_error_message show_io e),
            call_pid = Some (event_pid ev), call_event_type = Some (debug_event_type (event_kind ev)),
            call_target = Some (event_target ev), call_action = None\<rparr>])"

definition main_handler ::
    "('re, 'e) regex_api \<Rightarrow> (io_error \<Rightarrow> string) \<Rightarrow> 're policy \<Rightarrow> (nat \<Rightarrow> killer) \<Rightarrow>
     nat \<Rightarrow> event \<Rightarrow> unit \<Rightarrow> effect list \<times> unit" where
  "main_handler api show_io pol kill i ev u =
     (let (es, r) = enforce api pol (kill i) ev in (es @ logs (main_handler_log show_io ev r), u))"

interpretation main_events: event_handler "main_handler api show_io pol kill" "kill_due api pol" "decision_entry api pol"
  for api show_io pol kill
proof
  fix i ev and s :: unit
  show "kills (fst (main_handler api show_io pol kill i ev s)) = (if kill_due api pol ev then [event_pid ev] else [])"
    by (simp add: main_handler_def split_beta Let_def enforce_kills)
  show "received_entry ev \<in> set (logged (fst (main_handler api show_io pol kill i ev s)))"
    by (simp add: main_handler_def split_beta Let_def enforce_received)
  show "\<exists>c \<in> set (logged (fst (main_handler api show_io pol kill i ev s))). decision_entry api pol ev c"
    using enforce_decision [of api pol "kill i" ev] by (auto simp: main_handler_def split_beta Let_def)
  show "\<not> opens_log (fst (main_handler api show_io pol kill i ev s))"
    by (simp add: main_handler_def split_beta Let_def enforce_keeps_log)
qed

text \<open>
  The \<open>select!\<close> and what follows it.  \<open>start_res\<close> is the end of the monitor task and \<open>late\<close> what its
  handler still does; the task is awaited in every branch.
\<close>

definition after_select ::
    "('y, 'e, 'n, 'b) main_env \<Rightarrow> u32 \<Rightarrow> 'b start_end \<Rightarrow> effect list \<Rightarrow> effect list \<times> int option" where
  "after_select env pid start_res late =
     (let say = (\<lambda>m. plain_call ''info'' ''main'' (Some pid) m);
          late = late @ logs (if mn_gone env then [live_entry pid] else []);
          ended = say ''syscallcage encerrado'';
          signal = (\<lambda>name.
            (case start_res of
               StartRunning \<Rightarrow> (logs [say ''sinal de encerramento recebido, desligando''] @ late, None)
             | StartPanicked \<Rightarrow>
                 (logs [say ''sinal de encerramento recebido, desligando''] @ late @
                  logs [main_info (''aviso: erro ao aguardar encerramento do monitor sob '' @ name @ '': '' @ mn_join_error env),
                        ended], Some 0)
             | StartReturned _ \<Rightarrow>
                 (logs [say ''sinal de encerramento recebido, desligando''] @ late @ logs [ended], Some 0)));
          task = (\<lambda>monitor_err.
            if exited_because_target_died (close_monitor (mn_flags env)) then
              (late @ logs [say ''processo monitorado encerrou, syscallcage finalizado normalmente''], Some 0)
            else
              let msg = (''monitor encerrou inesperadamente, syscallcage n'' @ [CHR 0xC3, CHR 0xA3] @ ''o est'' @ [CHR 0xC3, CHR 0xA1] @ '' mais protegendo o PID'');
                  msg = (case monitor_err of None \<Rightarrow> msg | Some e \<Rightarrow> (msg @ '': '' @ e))
              in (late @ logs [main_fatal msg], Some 1))
      in case mn_select env of
        SigintFirst \<Rightarrow> signal ''SIGINT''
      | SigtermFirst \<Rightarrow> signal ''SIGTERM''
      | TaskFirst \<Rightarrow>
          (case start_res of
             StartRunning \<Rightarrow> (late, None)
           | StartPanicked \<Rightarrow> task (Some (''io erro: '' @ mn_join_error env))
           | StartReturned (Inl e) \<Rightarrow> task (Some (show_monitor_error (mn_text env) e))
           | StartReturned (Inr _) \<Rightarrow> task None))"

text \<open>From \<open>Monitor::new\<close> to the end of \<open>main\<close>.\<close>

definition main_supervise ::
    "('re, 'e) regex_api \<Rightarrow> ('y, 'e, 'n, 'b) main_env \<Rightarrow> u32 \<Rightarrow> 're policy \<Rightarrow> 're main_result" where
  "main_supervise api env pid pol =
     (case monitor_new (mn_monitor env) pid pol of
        (building, Inl e) \<Rightarrow>
          exit_with (logs (building @
            [main_fatal (''falha ao inicializar monitor: '' @ show_monitor_error (mn_text env) e)])) 1 None
      | (building, Inr monitor) \<Rightarrow>
          let (start_res, _, ds) = monitor_start (mn_monitor env) (mn_evict env) (mn_rounds env) (mb_caches monitor);
              ((early, _), late) =
                deliver_parts (main_handler api (mn_show_io env) pol (mn_kill env)) (mn_seen env) ds ();
              es = logs (building @ [plain_call ''info'' ''main'' (Some pid) ''syscallcage iniciado'']) @ early in
     (case mn_sigint env of
        Inl e \<Rightarrow> exit_with (es @ logs [main_fatal (''falha ao registrar SIGINT: '' @ mn_show_io env e)]) 1 (Some pol)
      | Inr _ \<Rightarrow>
     (case mn_sigterm env of
        Inl e \<Rightarrow> exit_with (es @ logs [main_fatal (''falha ao registrar SIGTERM: '' @ mn_show_io env e)]) 1 (Some pol)
      | Inr _ \<Rightarrow>
          let (rest, status) = after_select env pid start_res late
          in \<lparr>mr_trace = es @ rest, mr_printed = [], mr_status = status, mr_policy = Some pol\<rparr>)))"

definition main_monitor ::
    "file_system \<Rightarrow> user_ids \<Rightarrow> path \<Rightarrow> ('re, 'e) regex_api \<Rightarrow> ('y, 'e, 'n, 'b) main_env \<Rightarrow> args \<Rightarrow> 're main_result" where
  "main_monitor fs ids cwd api env a =
     (case (case arg_pid a of Some p \<Rightarrow> if p \<noteq> 0 then Some p else None | None \<Rightarrow> None) of
        None \<Rightarrow>
          exit_with (logs [main_fatal
            (''flag --pid '' @ [CHR 0xC3, CHR 0xA9] @ '' obrigat'' @ [CHR 0xC3, CHR 0xB3] @ ''ria e deve ser diferente de zero quando executando em modo monitor'')]) 1 None
      | Some pid \<Rightarrow>
     (case resolve_policy (mn_show_io env) fs ids cwd (arg_policy a) of
        (found, Inl code) \<Rightarrow> exit_with (logs found) code None
      | (found, Inr src) \<Rightarrow>
     (case (case arg_log_file a of
              None \<Rightarrow> Ok []
            | Some f \<Rightarrow>
                map_err (\<lambda>e. (''falha ao inicializar arquivo de log '' @ mn_debug_path env f @ '': '' @ mn_show_io env e))
                  (and_then (mn_open_log env f) (\<lambda>ls. Ok [OpenLog ls]))) of
        Inl m \<Rightarrow> exit_with (logs (found @ [main_fatal m])) 1 None
      | Inr mirror \<Rightarrow>
     (case load_policy api env src of
        Inl e \<Rightarrow> exit_with (logs found @ mirror @ logs [main_fatal (''falha ao carregar pol'' @ [CHR 0xC3, CHR 0xAD] @ ''tica: '' @ e)]) 1 None
      | Inr loaded \<Rightarrow>
          after_effects (logs found @ mirror @ logs (dry_run_log (arg_dry_run a)))
            (main_supervise api env pid (effective_policy (arg_dry_run a) loaded))))))"

section \<open>The watch command\<close>

definition main_watch ::
    "file_system \<Rightarrow> user_ids \<Rightarrow> path \<Rightarrow> ('re, 'e) regex_api \<Rightarrow> ('y, 'e, 'n, 'b) main_env \<Rightarrow>
     bool \<Rightarrow> string option \<Rightarrow> u32 option \<Rightarrow> 're main_result" where
  "main_watch fs ids cwd api env dry_run policy_arg max_restarts =
     (case resolve_policy (mn_show_io env) fs ids cwd policy_arg of
        (found, Inl code) \<Rightarrow> exit_with (logs found) code None
      | (found, Inr src) \<Rightarrow>
     (case load_policy api env src of
        Inl e \<Rightarrow> exit_with (logs (found @ [main_fatal (''falha ao carregar pol'' @ [CHR 0xC3, CHR 0xAD] @ ''tica: '' @ e)])) 1 None
      | Inr loaded \<Rightarrow>
          let pol = effective_policy dry_run loaded;
              (watched, res) = run api (mn_text env) pol max_restarts 0 (mn_attempts env);
              es = logs (found @ dry_run_log dry_run) @ watched in
          (case res of
             Some (Inl e) \<Rightarrow>
               exit_with (es @ logs [main_fatal (''supervis'' @ [CHR 0xC3, CHR 0xA3] @ ''o watch encerrada: '' @ watch_error_message (mn_text env) e)])
                 1 (Some pol)
           | Some (Inr _) \<Rightarrow> exit_with es 0 (Some pol)
           | None \<Rightarrow> \<lparr>mr_trace = es, mr_printed = [], mr_status = None, mr_policy = Some pol\<rparr>)))"

section \<open>Facts on the two commands\<close>

definition has_fatal :: "effect list \<Rightarrow> bool" where
  "has_fatal es \<longleftrightarrow> (\<exists>c \<in> set (logged es). call_level c = ''fatal'')"

lemma has_fatal_simps [simp]:
  "\<not> has_fatal []" "has_fatal (es @ es') \<longleftrightarrow> has_fatal es \<or> has_fatal es'"
  "has_fatal (logs (cs @ cs')) \<longleftrightarrow> has_fatal (logs cs) \<or> has_fatal (logs cs')"
  "has_fatal (LogEffect c # es) \<longleftrightarrow> call_level c = ''fatal'' \<or> has_fatal es"
  "has_fatal (OpenLog ls # es) \<longleftrightarrow> has_fatal es" "has_fatal (KillCall p # es) \<longleftrightarrow> has_fatal es"
  "call_level (plain_call lv q cm m) = lv"
  by (auto simp: has_fatal_def plain_call_def)

lemma after_effects_simps [simp]:
  "mr_trace (after_effects es r) = es @ mr_trace r" "mr_printed (after_effects es r) = mr_printed r"
  "mr_status (after_effects es r) = mr_status r" "mr_policy (after_effects es r) = mr_policy r"
  by (simp_all add: after_effects_def)

lemma exit_with_simps [simp]:
  "mr_trace (exit_with es status pol) = es" "mr_printed (exit_with es status pol) = []"
  "mr_status (exit_with es status pol) = Some status" "mr_policy (exit_with es status pol) = pol"
  by (simp_all add: exit_with_def)

lemma resolve_status: "snd (resolve_policy show_io fs ids cwd arg) \<noteq> Inl 0"
  by (auto simp: resolve_policy_def Let_def split: option.splits sum.splits)

lemma resolve_logs:
  "resolve_policy show_io fs ids cwd arg = (found, Inl code) \<Longrightarrow> code = 1 \<and> has_fatal (logs found)"
  by (auto simp: resolve_policy_def saying_def Let_def split: option.splits sum.splits if_splits)

text \<open>The events of the session of the monitor command.\<close>

definition session :: "('y, 'e, 'n, 'b) main_env \<Rightarrow> event list" where
  "session env = map snd (deliveries (mn_monitor env) (mn_evict env) (mn_rounds env) no_caches)"

text \<open>How the task can end well: a signal after which it returned, or the death of the target.\<close>

definition ends_well :: "('y, 'e, 'n, 'b) main_env \<Rightarrow> bool" where
  "ends_well env \<longleftrightarrow> mn_select env \<noteq> TaskFirst \<or> exited_because_target_died (close_monitor (mn_flags env))"

lemma after_select_facts:
  fixes env :: "('y, 'e, 'n, 'b) main_env" and pid start_res late
  defines "r \<equiv> after_select env pid start_res late"
  shows "kills (fst r) = kills late" "opens_log (fst r) \<longleftrightarrow> opens_log late" "set (logged late) \<subseteq> set (logged (fst r))"
    "snd r = (if start_res = StartRunning then None else if ends_well env then Some 0 else Some 1)"
    "snd r = Some 1 \<Longrightarrow> has_fatal (fst r)"
  unfolding r_def
  by (auto simp: after_select_def ends_well_def Let_def split: select_branch.splits start_end.splits sum.splits if_splits)

text \<open>The supervision, once the monitor has been built: the effects of the handler and the rest.\<close>

lemma main_supervise_cases:
  fixes api :: "('re, 'e) regex_api" and env :: "('y, 'e, 'n, 'b) main_env" and pid pol
  defines "r \<equiv> main_supervise api env pid pol"
  shows "mr_printed r = [] \<and> \<not> opens_log (mr_trace r) \<and>
    (is_ok (snd (monitor_new (mn_monitor env) pid pol)) \<longrightarrow> mr_policy r = Some pol \<and>
       (\<exists>n. kills (mr_trace r) = map event_pid (filter (kill_due api pol) (take n (session env))) \<and>
         (if is_ok (mn_sigint env) \<and> is_ok (mn_sigterm env)
          then n = length (session env) \<and> audited api pol (session env) (logged (mr_trace r)) \<and>
            (mr_status r = None \<or> mr_status r = Some 0 \<and> ends_well env \<or> mr_status r = Some 1 \<and> has_fatal (mr_trace r))
          else mr_status r = Some 1 \<and> has_fatal (mr_trace r)))) \<and>
    (\<not> is_ok (snd (monitor_new (mn_monitor env) pid pol)) \<longrightarrow>
       mr_policy r = None \<and> mr_status r = Some 1 \<and> has_fatal (mr_trace r) \<and> kills (mr_trace r) = [])"
proof (cases "snd (monitor_new (mn_monitor env) pid pol)")
  case (Inl e)
  then obtain building where "monitor_new (mn_monitor env) pid pol = (building, Inl e)"
    by (metis prod.collapse)
  then show ?thesis
    by (simp add: r_def main_supervise_def)
next
  case (Inr m)
  let ?h = "main_handler api (mn_show_io env) pol (mn_kill env)"
  obtain building where new: "monitor_new (mn_monitor env) pid pol = (building, Inr m)"
    using Inr by (metis prod.collapse)
  obtain start_res c ds where start:
    "monitor_start (mn_monitor env) (mn_evict env) (mn_rounds env) no_caches = (start_res, c, ds)"
    using prod_cases3 by blast
  then have session: "session env = map snd ds"
    by (simp add: session_def deliveries_def)
  obtain early late u where parts: "deliver_parts ?h (mn_seen env) ds () = ((early, u), late)"
    by (metis surj_pair)
  have early: "kills early = map event_pid (filter (kill_due api pol) (take (mn_seen env) (session env)))"
    and late: "kills late = map event_pid (filter (kill_due api pol) (drop (mn_seen env) (session env)))"
    and opens: "\<not> opens_log early" "\<not> opens_log late"
    using main_events.parts_kills [of api "mn_show_io env" pol "mn_kill env" "mn_seen env" ds "()"]
      main_events.parts_keep_log [of api "mn_show_io env" pol "mn_kill env" "mn_seen env" ds "()"]
    by (simp_all add: parts session take_map drop_map)
  have both: "kills early @ kills late = map event_pid (filter (kill_due api pol) (session env))"
    unfolding early late by (simp flip: map_append filter_append)
  have received: "audited api pol (session env) (logged (early @ late))"
    using main_events.parts_audit [of _ ds api "mn_show_io env" pol "mn_kill env" "mn_seen env" "()"]
    by (simp add: session audited_def parts)
  obtain rest status where sel: "after_select env pid start_res late = (rest, status)"
    by fastforce
  have rest: "kills rest = kills late" "\<not> opens_log rest" "set (logged late) \<subseteq> set (logged rest)"
    "status = None \<or> status = Some 0 \<and> ends_well env \<or> status = Some 1 \<and> has_fatal rest"
    using after_select_facts [where env = env and pid = pid and start_res = start_res and late = late] opens by (auto simp: sel split: if_splits)
  define es where "es = logs (building @ [plain_call ''info'' ''main'' (Some pid) ''syscallcage iniciado'']) @ early"
  have es: "kills es = kills early" "\<not> opens_log es" "logged early = drop (length building + 1) (logged es)"
    by (simp_all add: es_def opens)
  show ?thesis
  proof (cases "is_ok (mn_sigint env) \<and> is_ok (mn_sigterm env)")
    case False
    then obtain m where "r = exit_with (es @ logs [main_fatal m]) 1 (Some pol)"
      unfolding r_def main_supervise_def new using start parts built_caches [OF Inr]
      by (cases "mn_sigint env"; cases "mn_sigterm env") (auto simp: es_def Let_def)
    then show ?thesis
      using es early Inr False by auto
  next
    case True
    then have r: "r = \<lparr>mr_trace = es @ rest, mr_printed = [], mr_status = status, mr_policy = Some pol\<rparr>"
      unfolding r_def main_supervise_def new using start parts built_caches [OF Inr] sel
      by (cases "mn_sigint env"; cases "mn_sigterm env") (auto simp: es_def Let_def)
    have "kills (mr_trace r) = map event_pid (filter (kill_due api pol) (take (length (session env)) (session env)))"
      using both by (simp add: r es rest)
    moreover have "audited api pol (session env) (logged (mr_trace r))"
      by (rule audited_mono [OF received])
        (use rest(3) set_drop_subset [of "length building + 1" "logged es"] in \<open>auto simp: r es(3)\<close>)
    ultimately show ?thesis
      using True rest(2,4) es(2) Inr by (auto simp: r intro!: exI [of _ "length (session env)"])
  qed
qed

lemma supervise_kills:
  assumes "is_ok (snd (monitor_new (mn_monitor env) pid pol))" "is_ok (mn_sigint env)" "is_ok (mn_sigterm env)"
  shows "kills (mr_trace (main_supervise api env pid pol)) = map event_pid (filter (kill_due api pol) (session env))"
  using main_supervise_cases [of api env pid pol] assms by auto

text \<open>The monitor command stops early with a fatal entry or comes to the supervision.\<close>

lemma main_monitor_view:
  fixes api :: "('re, 'e) regex_api" and env :: "('y, 'e, 'n, 'b) main_env" and fs ids cwd a
  defines "r \<equiv> main_monitor fs ids cwd api env a"
  shows "mr_policy r = None \<and> mr_status r = Some 1 \<and> has_fatal (mr_trace r) \<and> kills (mr_trace r) = [] \<or>
    (\<exists>pid src loaded found mirror. arg_pid a = Some pid \<and> pid \<noteq> 0 \<and>
       resolve_policy (mn_show_io env) fs ids cwd (arg_policy a) = (found, Inr src) \<and>
       load_policy api env src = Inr loaded \<and>
       (case arg_log_file a of None \<Rightarrow> mirror = []
        | Some f \<Rightarrow> \<exists>ls. mn_open_log env f = Inr ls \<and> mirror = [OpenLog ls]) \<and>
       r = after_effects (logs found @ mirror @ logs (dry_run_log (arg_dry_run a)))
             (main_supervise api env pid (effective_policy (arg_dry_run a) loaded)))"
proof (cases "arg_pid a = None \<or> arg_pid a = Some 0")
  case True
  then show ?thesis
    by (auto simp: r_def main_monitor_def)
next
  case False
  then obtain pid where pid: "arg_pid a = Some pid" "pid \<noteq> 0"
    by auto
  obtain found res where src: "resolve_policy (mn_show_io env) fs ids cwd (arg_policy a) = (found, res)"
    by fastforce
  show ?thesis
  proof (cases res)
    case (Inl code)
    then show ?thesis
      using pid src resolve_logs [of "mn_show_io env" fs ids cwd "arg_policy a" found code]
      by (simp add: r_def main_monitor_def)
  next
    case (Inr p)
    then show ?thesis
      using pid src
      by (auto simp: r_def main_monitor_def and_then_def map_err_def opens_log_def split: option.splits sum.splits)
  qed
qed

text \<open>
  C36. The monitor command succeeds (status 0) only after it has really supervised: it had a non-zero
  PID, a policy that was named or passed the checks of the discovery, it loaded it, built the
  monitor, logged every event of the session, and ended by a signal or because the target is dead,
  whatever the interleaving of the liveness thread.  A monitor that stops by itself gives status 1.
\<close>

theorem main_monitor_success:
  assumes "mr_status (main_monitor fs ids cwd api env a) = Some 0" and "flag_step\<^sup>*\<^sup>* new_flags (mn_flags env)"
  shows "\<exists>pid src loaded m. arg_pid a = Some pid \<and> pid \<noteq> 0 \<and>
     snd (resolve_policy (mn_show_io env) fs ids cwd (arg_policy a)) = Inr src \<and>
     load_policy api env src = Inr loaded \<and>
     snd (monitor_new (mn_monitor env) pid (effective_policy (arg_dry_run a) loaded)) = Inr m \<and>
     audited api (effective_policy (arg_dry_run a) loaded) (session env)
       (logged (mr_trace (main_monitor fs ids cwd api env a))) \<and>
     (mn_select env = TaskFirst \<longrightarrow> target_dead (mn_flags env))"
proof -
  obtain pid src loaded found mirror where view: "arg_pid a = Some pid" "pid \<noteq> 0"
    "snd (resolve_policy (mn_show_io env) fs ids cwd (arg_policy a)) = Inr src" "load_policy api env src = Inr loaded"
    and r: "main_monitor fs ids cwd api env a =
      after_effects (logs found @ mirror @ logs (dry_run_log (arg_dry_run a)))
        (main_supervise api env pid (effective_policy (arg_dry_run a) loaded))"
    using main_monitor_view [of fs ids cwd api env a] assms(1) by auto
  have status: "mr_status (main_supervise api env pid (effective_policy (arg_dry_run a) loaded)) = Some 0"
    using assms(1) by (simp add: r)
  have built: "is_ok (snd (monitor_new (mn_monitor env) pid (effective_policy (arg_dry_run a) loaded)))"
    "audited api (effective_policy (arg_dry_run a) loaded) (session env)
       (logged (mr_trace (main_monitor fs ids cwd api env a)))" "ends_well env"
    using main_supervise_cases [of api env pid "effective_policy (arg_dry_run a) loaded"] status
    by (auto simp: r intro: audited_mono split: if_splits)
  have "target_dead (mn_flags env)" if "mn_select env = TaskFirst"
    using built(3) that flags.reachable_inv [OF refl assms(2)]
    by (auto simp: ends_well_def exited_because_target_died_def close_monitor_def flags_inv_def split: if_splits)
  with view built(1,2) show ?thesis
    by (blast dest: is_ok_obtain)
qed

end
