(* ===== verification/Doctor.thy ===== *)
theory Doctor
  imports Cli
begin

text \<open>
  The \<open>doctor\<close> command of \<open>main.rs\<close>: the checks of the environment, their report and its exit status.
\<close>

datatype check_status = CheckOk | CheckWarn | CheckError

record doctor_check =
  dc_status :: check_status
  dc_line :: string
  dc_detail :: "string option"

record doctor_report =
  dr_checks :: "doctor_check list"
  dr_is_root :: bool
  dr_has_fatal_error :: bool

definition check :: "check_status \<Rightarrow> string \<Rightarrow> doctor_check" where
  "check s l = \<lparr>dc_status = s, dc_line = l, dc_detail = None\<rparr>"

definition privilege_check :: "bool \<Rightarrow> doctor_check" where
  "privilege_check is_root =
     (if is_root then check CheckOk (''Rodando como root '' @ [CHR 0xE2, CHR 0x80, CHR 0x94] @ '' pronto para anexar eBPF.'')
      else check CheckWarn (''N'' @ [CHR 0xC3, CHR 0xA3] @ ''o est'' @ [CHR 0xC3, CHR 0xA1] @ '' rodando como root. Use '' @ [CHR 0x27] @ ''sudo'' @ [CHR 0x27] @ '' ao executar o SyscallCage de verdade.''))"

text \<open>\<open>doctor_check_ebpf\<close>: \<open>sha256\<close> is the digest function, \<open>verifier_result\<close> that of the trial load.\<close>

definition hex_digit :: "nat \<Rightarrow> char" where
  "hex_digit d = (if d < 10 then char_of (48 + d) else char_of (87 + d))"

definition hex_byte :: "u8 \<Rightarrow> string" where
  "hex_byte b = [hex_digit (unat b div 16), hex_digit (unat b mod 16)]"

definition doctor_check_ebpf ::
    "(u8 list \<Rightarrow> u8 list) \<Rightarrow> u8 list \<Rightarrow> ('v, unit) result \<Rightarrow>
     (io_error, nat \<times> string \<times> ('v, unit) result) result" where
  "doctor_check_ebpf sha256 object verifier_result =
     (let hash = concat (map hex_byte (sha256 object));
          short_hash = take 8 hash
      in Ok (length object, short_hash, verifier_result))"

record 'v doctor_env =
  do_version :: string
  do_osrelease :: "(io_error, string) result"
  do_lsm_file :: "(io_error, string) result"
  do_ebpf :: "(io_error, nat \<times> string \<times> ('v, unit) result) result"
  do_show_io :: "io_error \<Rightarrow> string"
  do_debug :: "'v \<Rightarrow> string"

definition collect_doctor_report_with :: "'v doctor_env \<Rightarrow> bool \<Rightarrow> doctor_report" where
  "collect_doctor_report_with env is_root =
     (let kernel = (case do_osrelease env of Inr s \<Rightarrow> str_trim s | Inl _ \<Rightarrow> ''desconhecido'');
          checks =
            [check CheckOk (''Bin'' @ [CHR 0xC3, CHR 0xA1] @ ''rio instalado: v'' @ do_version env),
             check CheckOk (''Kernel detectado: '' @ kernel),
             if bpf_lsm_available (do_lsm_file env)
             then check CheckOk (''BPF LSM dispon'' @ [CHR 0xC3, CHR 0xAD] @ ''vel '' @ [CHR 0xE2, CHR 0x80, CHR 0x94] @ '' modo s'' @ [CHR 0xC3, CHR 0xAD] @ ''ncrono (recomendado) ser'' @ [CHR 0xC3, CHR 0xA1] @ '' usado.'')
             else
               \<lparr>dc_status = CheckWarn,
                dc_line = (''BPF LSM indispon'' @ [CHR 0xC3, CHR 0xAD] @ ''vel '' @ [CHR 0xE2, CHR 0x80, CHR 0x94] @ '' modo reativo (fallback) ser'' @ [CHR 0xC3, CHR 0xA1] @ '' usado.''),
                dc_detail =
                  Some (''Isso ainda funciona, mas o bloqueio acontece ap'' @ [CHR 0xC3, CHR 0xB3] @ ''s a viola'' @ [CHR 0xC3, CHR 0xA7, CHR 0xC3, CHR 0xA3] @ ''o, n'' @ [CHR 0xC3, CHR 0xA3] @ ''o antes.'')\<rparr>];
          (ebpf_checks, has_fatal_error) =
            (case do_ebpf env of
               Inr (obj_size, hash, verifier_res) \<Rightarrow>
                 let object = check CheckOk (''Objeto eBPF embutido: '' @ show_nat obj_size @ '' bytes, sha256 '' @ hash)
                 in (case verifier_res of
                       Inr _ \<Rightarrow>
                         ([object,
                           check CheckOk ''Verifier do kernel aceitou o carregamento de teste dos programas LSM''],
                          False)
                     | Inl e \<Rightarrow>
                         if \<not> is_root then
                           ([object,
                             check CheckWarn
                               (''N'' @ [CHR 0xC3, CHR 0xA3] @ ''o foi poss'' @ [CHR 0xC3, CHR 0xAD] @ ''vel testar o verifier do eBPF sem privil'' @ [CHR 0xC3, CHR 0xA9] @ ''gios de root (EPERM).'')],
                            False)
                         else
                           ([object,
                             check CheckError (''Verifier do kernel rejeitou os programas LSM: '' @ do_debug env e)],
                            True))
             | Inl e \<Rightarrow>
                 ([check CheckError (''Erro ao verificar objeto eBPF embutido: '' @ do_show_io env e)], True))
      in \<lparr>dr_checks = checks @ ebpf_checks @ [privilege_check is_root],
          dr_is_root = is_root, dr_has_fatal_error = has_fatal_error\<rparr>)"

definition collect_doctor_report :: "u32 \<Rightarrow> 'v doctor_env \<Rightarrow> doctor_report" where
  "collect_doctor_report euid env = collect_doctor_report_with env (euid = 0)"

text \<open>The lines of a check, as printed, and the exit status of \<open>run_doctor\<close>.\<close>

definition check_prefix :: "check_status \<Rightarrow> string" where
  "check_prefix s = (case s of CheckOk \<Rightarrow> [CHR 0xE2, CHR 0x9C, CHR 0x93] | CheckWarn \<Rightarrow> ''!'' | CheckError \<Rightarrow> [CHR 0xE2, CHR 0x9C, CHR 0x97])"

definition check_lines :: "doctor_check \<Rightarrow> string list" where
  "check_lines c =
     (check_prefix (dc_status c) @ '' '' @ dc_line c) #
     (case dc_detail c of Some detail \<Rightarrow> [''  '' @ detail] | None \<Rightarrow> [])"

definition run_doctor :: "doctor_report \<Rightarrow> 're main_result" where
  "run_doctor report =
     (let printed = (''SyscallCage '' @ [CHR 0xE2, CHR 0x80, CHR 0x94] @ '' diagn'' @ [CHR 0xC3, CHR 0xB3] @ ''stico do ambiente'' @ [CHR 0x0A]) # concat (map check_lines (dr_checks report))
      in if dr_has_fatal_error report
         then \<lparr>mr_trace = [], mr_printed = printed, mr_status = Some 1, mr_policy = None\<rparr>
         else
           \<lparr>mr_trace = [],
            mr_printed = printed @ [([CHR 0x0A] @ ''Se todos os itens acima est'' @ [CHR 0xC3, CHR 0xA3] @ ''o '' @ [CHR 0xE2, CHR 0x9C, CHR 0x93] @ '', voc'' @ [CHR 0xC3, CHR 0xAA] @ '' est'' @ [CHR 0xC3, CHR 0xA1] @ '' pronto para usar.'')],
            mr_status = Some 0, mr_policy = None\<rparr>)"

text \<open>
  The status of \<open>doctor\<close> agrees with its report: it fails exactly when some check is an error,
  which is when the embedded object cannot be read or when root is refused by the verifier.  Lack of
  privilege alone is never fatal.
\<close>

theorem doctor_fatal:
  "(mr_status (run_doctor (collect_doctor_report_with env is_root)) = Some 1 \<longleftrightarrow>
      (\<exists>c \<in> set (dr_checks (collect_doctor_report_with env is_root)). dc_status c = CheckError)) \<and>
   (mr_status (run_doctor (collect_doctor_report_with env is_root)) = Some 1 \<longleftrightarrow>
      (case do_ebpf env of Inl _ \<Rightarrow> True | Inr (obj_size, hash, verifier) \<Rightarrow> is_root \<and> \<not> is_ok verifier))"
  by (auto simp: run_doctor_def collect_doctor_report_with_def Let_def check_def privilege_check_def
      split: sum.split prod.split)

text \<open>An environment in which the verifier refuses the programs.\<close>

definition example_doctor :: "unit doctor_env" where
  "example_doctor =
     \<lparr>do_version = ''0.1.0'', do_osrelease = Inr ''6.8'', do_lsm_file = Inr ''bpf'',
      do_ebpf = doctor_check_ebpf (\<lambda>_. replicate 32 0) [0x7F] (Inl ()), do_show_io = (\<lambda>_. ''io''),
      do_debug = (\<lambda>_. ''EINVAL'')\<rparr>"

end
