(* ===== verification/Generator_Facts.thy ===== *)
theory Generator_Facts
  imports Generator Policy_Facts Sync_Compiler "HOL-Library.Multiset"
begin

text \<open>
  What the policy generator guarantees: which globs it draws from the observed paths, that they
  cover the paths and reach no further than their directories, and how the generated policy decides
  once it is loaded.
\<close>

section \<open>Grouping\<close>

lemma dedup_by_subset: "set (dedup_by f xs) \<subseteq> set xs"
  by (induction f xs rule: dedup_by.induct) auto

lemma dedup_by_image: "f ` set (dedup_by f xs) = f ` set xs"
  by (induction f xs rule: dedup_by.induct) auto

lemma normalized_subset: "set (normalized_paths paths) \<subseteq> set paths"
  using dedup_by_subset [of components "sort_key components paths"]
  by (simp add: normalized_paths_def)

lemma normalized_image: "components ` set (normalized_paths paths) = components ` set paths"
  by (simp add: normalized_paths_def dedup_by_image)

definition groups_ok :: "path_groups \<Rightarrow> bool" where
  "groups_ok gs \<longleftrightarrow>
     list_all (\<lambda>(k, ps). ps \<noteq> [] \<and> list_all (\<lambda>p. components (cluster_key p) = components k) ps) gs"

abbreviation grouped :: "path_groups \<Rightarrow> string set" where
  "grouped gs \<equiv> (\<Union>g \<in> set gs. set (snd g))"

lemma add_to_group_ok:
  "groups_ok gs \<Longrightarrow> components (cluster_key p) = components key \<Longrightarrow> groups_ok (add_to_group key p gs)"
  by (induction key p gs rule: add_to_group.induct) (auto simp: groups_ok_def)

lemma add_to_group_members: "grouped (add_to_group key p gs) = insert p (grouped gs)"
  by (induction key p gs rule: add_to_group.induct) auto

lemma fold_groups:
  "groups_ok gs \<Longrightarrow>
   groups_ok (fold (\<lambda>p. add_to_group (cluster_key p) p) ps gs) \<and>
   grouped (fold (\<lambda>p. add_to_group (cluster_key p) p) ps gs) = set ps \<union> grouped gs"
  by (induction ps arbitrary: gs) (auto simp: add_to_group_ok add_to_group_members)

lemma group_paths_ok: "groups_ok (group_paths ps)"
  and group_paths_members: "grouped (group_paths ps) = set ps"
  using fold_groups [of "[]" ps] by (simp_all add: group_paths_def groups_ok_def)

definition set_preserving :: "(path_groups \<Rightarrow> path_groups) \<Rightarrow> bool" where
  "set_preserving iter \<longleftrightarrow> (\<forall>gs. mset (iter gs) = mset gs)"

lemma set_preserving_set: "set_preserving iter \<Longrightarrow> set (iter gs) = set gs"
  by (metis set_preserving_def set_mset_mset)

lemma set_generalize:
  assumes "set_preserving iter"
  shows "set (generalize_paths iter paths) =
     (\<Union>g \<in> set (group_paths (normalized_paths paths)). set (group_globs (snd g)))"
proof (cases "paths = []")
  case True
  then show ?thesis
    by (simp add: generalize_paths_def normalized_paths_def group_paths_def)
next
  case False
  then show ?thesis
    using set_preserving_set [OF assms]
    by (auto simp: generalize_paths_def Let_def split_beta)
qed

section \<open>Clean paths\<close>

text \<open>
  A name without separators, wildcards, backslashes and line feeds; a clean path is an absolute path
  of at least two such names, without dots and repeated separators.
\<close>

definition clean_name :: "string \<Rightarrow> bool" where
  "clean_name s \<longleftrightarrow> name_ok s \<and> valid_str s \<and>
     list_all (\<lambda>c. c \<notin> {CHR ''*'', CHR ''?'', CHR 0x5C, CHR 0x0A}) s"

definition path_names :: "string \<Rightarrow> string list" where
  "path_names p = tl (split_on CHR ''/'' p)"

definition clean_path :: "string \<Rightarrow> bool" where
  "clean_path p \<longleftrightarrow>
     str_starts_with p ''/'' \<and> list_all clean_name (path_names p) \<and> 2 \<le> length (path_names p)"

lemma clean_names_ok: "list_all clean_name ns \<Longrightarrow> names_ok ns"
  by (auto simp: list_all_iff clean_name_def)

lemma clean_path_abs: "clean_path p \<Longrightarrow> p = abs_path (path_names p)"
proof -
  assume p: "clean_path p"
  then obtain t where t: "p = CHR ''/'' # t"
    by (auto simp: clean_path_def prefix_def)
  then have "path_names p = split_on CHR ''/'' t"
    by (simp add: path_names_def)
  then show ?thesis
    using t by (simp add: abs_path_def join_split_on)
qed

lemma clean_path_names:
  assumes "clean_path p"
  shows "names_ok (path_names p)" and "path_names p \<noteq> []" and "2 \<le> length (path_names p)"
  using assms clean_names_ok by (auto simp: clean_path_def)

lemma clean_components: "clean_path p \<Longrightarrow> components p = RootDir # map Normal (path_names p)"
  using components_abs [OF clean_path_names(1)] clean_path_abs by metis

lemma clean_inject: "clean_path p \<Longrightarrow> clean_path q \<Longrightarrow> components p = components q \<longleftrightarrow> p = q"
  using clean_path_abs clean_components map_Normal_inject by (metis list.inject)

lemma clean_normalized:
  assumes "\<forall>p \<in> set paths. clean_path p"
  shows "set (normalized_paths paths) = set paths"
proof
  show "set (normalized_paths paths) \<subseteq> set paths"
    by (rule normalized_subset)
  show "set paths \<subseteq> set (normalized_paths paths)"
  proof
    fix p assume p: "p \<in> set paths"
    then obtain q where "q \<in> set (normalized_paths paths)" "components q = components p"
      using normalized_image [of paths] by (metis imageE imageI)
    moreover from this have "q \<in> set paths"
      using normalized_subset by blast
    ultimately show "p \<in> set (normalized_paths paths)"
      using assms p clean_inject by metis
  qed
qed

lemma cluster_key_clean:
  assumes "clean_path p"
  shows "\<exists>cs. components (cluster_key p) = RootDir # Normal (hd (path_names p)) # cs"
proof -
  note c = clean_components [OF assms]
  consider (two) a b where "path_names p = [a, b]" | (more) a b d ds where "path_names p = a # b # d # ds"
    using clean_path_names(3) [OF assms]
    by (metis Suc_le_length_iff numeral_2_eq_2 length_0_conv list.exhaust)
  then show ?thesis
  proof cases
    case two
    then have "cluster_key p = abs_path [a]" "names_ok [a]"
      using c clean_path_names(1) [OF assms] push_all_abs [of "[a]"] by (simp_all add: cluster_key_def)
    then show ?thesis
      using components_abs [of "[a]"] two by simp
  next
    case more
    then have "cluster_key p = abs_path [a, b]" "names_ok [a, b]"
      using c clean_path_names(1) [OF assms] push_all_abs [of "[a, b]"] by (simp_all add: cluster_key_def)
    then show ?thesis
      using components_abs [of "[a, b]"] more by simp
  qed
qed

section \<open>The directory of a group\<close>

abbreviation common_names :: "string list list \<Rightarrow> string list" where
  "common_names nss \<equiv> foldl longest_common_prefix (hd nss) (tl nss)"

definition group_dir :: "string list list \<Rightarrow> string list" where
  "group_dir nss = (let m = common_names nss in if m \<in> set nss then butlast m else m)"

lemma common_components_names:
  "common_components (RootDir # map Normal a) (RootDir # map Normal b) =
     RootDir # map Normal (longest_common_prefix a b)"
  by (simp, induction a b rule: longest_common_prefix.induct) auto

lemma lcp_prefix1: "prefix (longest_common_prefix a b) a"
  and lcp_prefix2: "prefix (longest_common_prefix a b) b"
  by (simp_all add: longest_common_prefix_prefix1 longest_common_prefix_prefix2)

lemma foldl_lcp_prefix: "\<forall>x \<in> insert n (set nss). prefix (foldl longest_common_prefix n nss) x"
proof (induction nss arbitrary: n)
  case (Cons m nss)
  have "prefix (foldl longest_common_prefix (longest_common_prefix n m) nss) (longest_common_prefix n m)"
    using Cons [of "longest_common_prefix n m"] by simp
  then show ?case
    using Cons [of "longest_common_prefix n m"] lcp_prefix1 lcp_prefix2 prefix_order.trans
    by (metis foldl_Cons insert_iff list.simps(15))
qed simp

lemma lcp_hd: "n \<noteq> [] \<Longrightarrow> m \<noteq> [] \<Longrightarrow> hd m = hd n \<Longrightarrow>
    longest_common_prefix n m \<noteq> [] \<and> hd (longest_common_prefix n m) = hd n"
  by (auto simp: neq_Nil_conv)

lemma foldl_lcp_hd:
  "n \<noteq> [] \<Longrightarrow> list_all (\<lambda>x. x \<noteq> [] \<and> hd x = hd n) nss \<Longrightarrow> foldl longest_common_prefix n nss \<noteq> []"
  by (induction nss arbitrary: n) (simp_all add: lcp_hd)

lemma common_ancestor_abs:
  "names_ok n \<Longrightarrow> list_all names_ok nss \<Longrightarrow>
   common_ancestor (map abs_path (n # nss)) = abs_path (foldl longest_common_prefix n nss)"
proof (induction nss arbitrary: n)
  case (Cons m nss)
  have ok: "names_ok (longest_common_prefix n m)"
    using names_ok_prefix [OF lcp_prefix1] Cons.prems(1) .
  then have "push_all (common_components (components (abs_path n)) (components (abs_path m))) =
      abs_path (longest_common_prefix n m)"
    using Cons.prems push_all_abs [OF ok]
    by (simp add: components_abs common_components_names del: common_components.simps)
  with Cons.IH [OF ok] Cons.prems(2) show ?case
    by (simp add: common_ancestor_def)
qed (simp add: common_ancestor_def)

text \<open>The directory lies above every path of the group and is not the root.\<close>

lemma group_dir_above:
  assumes "nss \<noteq> []" and "list_all (\<lambda>x. 2 \<le> length x \<and> hd x = hd (hd nss)) nss"
  shows "group_dir nss \<noteq> [] \<and> (\<forall>ns \<in> set nss. strict_prefix (group_dir nss) ns)"
proof -
  obtain n ms where nss: "nss = n # ms"
    using assms(1) by (cases nss) auto
  define m where "m = foldl longest_common_prefix n ms"
  have pre: "\<forall>ns \<in> set nss. prefix m ns"
    using foldl_lcp_prefix [of n ms] by (simp add: nss m_def)
  have ne: "m \<noteq> []"
    unfolding m_def using assms(2) by (intro foldl_lcp_hd) (auto simp: nss list_all_iff)
  show ?thesis
  proof (cases "m \<in> set nss")
    case True
    then have "2 \<le> length m"
      using assms(2) by (auto simp: list_all_iff)
    then have "butlast m \<noteq> []"
      by (cases m rule: rev_cases) auto
    moreover have "strict_prefix (butlast m) m"
      using ne by (metis append_butlast_last_id strict_prefixI' append_Cons append_Nil)
    ultimately show ?thesis
      using True pre prefix_order.less_le_trans by (auto simp: group_dir_def Let_def nss m_def [symmetric])
  next
    case False
    then show ?thesis
      using pre ne by (auto simp: group_dir_def Let_def nss m_def [symmetric] strict_prefix_def)
  qed
qed

lemma list_ex_abs:
  "list_all names_ok nss \<Longrightarrow> names_ok m \<Longrightarrow>
   list_ex (\<lambda>p. components p = components (abs_path m)) (map abs_path nss) \<longleftrightarrow> m \<in> set nss"
  by (induction nss) (auto simp: components_abs map_Normal_inject)

lemma group_globs_names:
  assumes ne: "nss \<noteq> []" and ok: "list_all names_ok nss"
    and hd: "list_all (\<lambda>x. 2 \<le> length x \<and> hd x = hd (hd nss)) nss"
  shows "group_globs (map abs_path nss) = [abs_path (group_dir nss) @ ''/**'']"
proof -
  obtain n ms where nss: "nss = n # ms"
    using ne by (cases nss) auto
  define m where "m = foldl longest_common_prefix n ms"
  have "n \<noteq> []" and "list_all (\<lambda>x. x \<noteq> [] \<and> hd x = hd n) ms"
    using hd by (auto simp: nss list_all_iff)
  then have m: "m \<noteq> []" "names_ok m"
    using foldl_lcp_hd [of n ms] foldl_lcp_prefix [of n ms] names_ok_prefix [of m n] ok
    by (simp_all add: nss m_def)
  have dir: "group_dir nss \<noteq> []" "names_ok (group_dir nss)"
    using group_dir_above [OF ne hd] names_ok_prefix [of "group_dir nss" n] ok
    by (auto simp: nss strict_prefix_def)
  have group: "group_dir nss = (if m \<in> set nss then butlast m else m)"
    by (simp add: group_dir_def Let_def nss m_def)
  show ?thesis
  proof (cases ms)
    case Nil
    then have "n = m"
      by (simp add: m_def)
    then show ?thesis
      using m dir group abs_path_root [of "butlast m"]
      by (simp add: nss Nil group_globs_def parent_abs_butlast parent_glob_def)
  next
    case (Cons k ks)
    have anc: "common_ancestor (map abs_path nss) = abs_path m"
      using common_ancestor_abs [of n ms] ok by (simp add: nss m_def)
    have many: "group_globs (map abs_path nss) =
        (if list_ex (\<lambda>p. components p = components (abs_path m)) (map abs_path nss) then
           (case parent_path (abs_path m) of
              Some parent \<Rightarrow> [parent @ ''/**''] | None \<Rightarrow> [abs_path m @ ''/**''])
         else [abs_path m @ ''/**''])"
      using anc m abs_path_root [of m] by (simp add: group_globs_def Let_def nss Cons)
    show ?thesis
      unfolding many list_ex_abs [OF ok m(2)] group using m by (simp add: parent_abs_butlast)
  qed
qed

text \<open>The same for a group of clean paths.\<close>

lemma clean_group:
  assumes "(k, ps) \<in> set (group_paths (normalized_paths paths))" and "\<forall>p \<in> set paths. clean_path p"
  shows "\<exists>d. group_globs ps = [abs_path d @ ''/**''] \<and> d \<noteq> [] \<and> ps \<noteq> [] \<and> set ps \<subseteq> set paths \<and>
     (\<forall>p \<in> set ps. strict_prefix d (path_names p))"
proof -
  have group: "ps \<noteq> []" "\<forall>p \<in> set ps. components (cluster_key p) = components k"
    using group_paths_ok [of "normalized_paths paths"] assms(1) by (auto simp: groups_ok_def list_all_iff)
  have sub: "set ps \<subseteq> set paths"
    using group_paths_members [of "normalized_paths paths"] assms(1) normalized_subset by fastforce
  with assms(2) have clean: "\<forall>p \<in> set ps. clean_path p"
    by blast
  let ?nss = "map path_names ps"
  have "map abs_path ?nss = ps"
    using clean clean_path_abs by (simp add: map_idI)
  moreover have "list_all names_ok ?nss"
    using clean clean_path_names(1) by (fastforce simp: list.pred_set)
  moreover have "list_all (\<lambda>x. 2 \<le> length x \<and> hd x = hd (hd ?nss)) ?nss"
  proof -
    have same: "hd (path_names p) = hd (path_names q)" if p: "p \<in> set ps" and q: "q \<in> set ps" for p q
    proof -
      obtain cs where "components (cluster_key p) = RootDir # Normal (hd (path_names p)) # cs"
        using cluster_key_clean clean p by blast
      moreover obtain ds where "components (cluster_key q) = RootDir # Normal (hd (path_names q)) # ds"
        using cluster_key_clean clean q by blast
      moreover have "components (cluster_key p) = components (cluster_key q)"
        using group(2) p q by simp
      ultimately show ?thesis by simp
    qed
    have first: "hd ?nss = path_names (hd ps)" "hd ps \<in> set ps"
      using group(1) by (simp_all add: hd_map)
    have "2 \<le> length (path_names p) \<and> hd (path_names p) = hd (path_names (hd ps))"
      if "p \<in> set ps" for p
      using that same [OF that] clean clean_path_names(3) first(2) by blast
    then show ?thesis
      unfolding list_all_iff first(1) set_map by blast
  qed
  moreover have "?nss \<noteq> []"
    using group(1) by simp
  ultimately have "group_globs ps = [abs_path (group_dir ?nss) @ ''/**'']"
    and above: "group_dir ?nss \<noteq> []" "\<forall>ns \<in> set ?nss. strict_prefix (group_dir ?nss) ns"
    using group_globs_names [of ?nss] group_dir_above [of ?nss] by simp_all
  moreover have "\<forall>p \<in> set ps. strict_prefix (group_dir ?nss) (path_names p)"
    using above(2) by simp
  ultimately show ?thesis
    using group(1) sub by blast
qed

section \<open>Coverage and reach\<close>

definition free_of_wildcards :: "string \<Rightarrow> bool" where
  "free_of_wildcards s \<longleftrightarrow> list_all (\<lambda>c. c \<notin> {CHR ''*'', CHR ''?'', CHR 0x5C, CHR 0x0A}) s"

lemma free_plain: "free_of_wildcards s \<Longrightarrow> plain s \<and> newline \<notin> set (chars s)"
  by (force simp: free_of_wildcards_def plain_def list_all_iff backslash_def dest: chars_subset)

lemma clean_text:
  "list_all clean_name ns \<Longrightarrow> valid_str (abs_path ns) \<and> free_of_wildcards (abs_path ns)"
proof (induction ns rule: rev_induct)
  case Nil
  show ?case by (simp add: free_of_wildcards_def valid_str_ascii)
next
  case (snoc n ns)
  have "valid_str (''/'' @ n)" and "free_of_wildcards (''/'' @ n)"
    using snoc.prems valid_str_append [of "''/''" n]
    by (auto simp: clean_name_def free_of_wildcards_def valid_str_ascii)
  moreover have "valid_str (abs_path ns)" and "free_of_wildcards (abs_path ns)"
    using snoc by auto
  ultimately show ?case
    using valid_str_append [of "abs_path ns" "''/'' @ n"]
    by (auto simp: abs_path_snoc free_of_wildcards_def)
qed

lemma clean_path_text: "clean_path p \<Longrightarrow> valid_str p \<and> free_of_wildcards p"
  using clean_text [of "path_names p"] clean_path_abs [of p] by (auto simp: clean_path_def)

lemma clean_dir_covers:
  assumes "clean_path p" and "strict_prefix d (path_names p)" and "d \<noteq> []"
  shows "glob_covers (abs_path d @ ''/**'') p"
proof -
  have "list_all clean_name d"
    using assms(1,2) by (auto simp: clean_path_def strict_prefix_def prefix_def dest: sym)
  then have "plain (abs_path d)" and "str_ok (abs_path d)"
    using clean_text free_plain valid_str_ok by blast+
  moreover have "newline \<notin> set (chars p)"
    using clean_path_text [OF assms(1)] free_plain by blast
  ultimately show ?thesis
    using dir_above [OF assms(2,3)] clean_path_abs [OF assms(1)] by (simp add: glob_covers_dir)
qed

lemma generalize_covers_all:
  assumes "set_preserving iter" and "\<forall>p \<in> set paths. clean_path p" and "p \<in> set paths"
  shows "\<exists>g \<in> set (generalize_paths iter paths). glob_covers g p"
proof -
  have "p \<in> grouped (group_paths (normalized_paths paths))"
    using assms(2,3) by (simp add: group_paths_members clean_normalized)
  then obtain k ps where g: "(k, ps) \<in> set (group_paths (normalized_paths paths))" "p \<in> set ps"
    by fastforce
  with clean_group [OF g(1) assms(2)] obtain d where
    "group_globs ps = [abs_path d @ ''/**'']" "d \<noteq> []" "strict_prefix d (path_names p)"
    by blast
  with g show ?thesis
    using clean_dir_covers assms(2,3) by (force simp: set_generalize [OF assms(1)])
qed

text \<open>
  The generalised allow list covers the session: when the observed paths are absolute, without
  dots, wildcards or line feeds, and lie at least two levels deep, every one of them is covered by
  one of the globs drawn from them, whatever the iteration order of the groups.
\<close>

theorem generalize_covers:
  assumes "set_preserving iter" and "\<forall>p \<in> set paths. clean_path p" and "p \<in> set paths"
  shows "\<exists>g \<in> set (generalize_paths iter paths). glob_covers g p"
  using assms by (rule generalize_covers_all)

lemma clean_normalize_names: "clean_path p \<longleftrightarrow>
    (case p of c # t \<Rightarrow> c = CHR ''/'' \<and> list_all clean_name (split_on CHR ''/'' t) \<and>
       2 \<le> length (split_on CHR ''/'' t) | [] \<Rightarrow> False)"
  by (cases p) (auto simp: clean_path_def path_names_def)

lemma generalize_covers_witness:
  "\<exists>g \<in> set (generalize_paths id [''/home/user/a.rs'', ''/tmp/b'']). glob_covers g ''/tmp/b''"
proof (rule generalize_covers)
  show "\<forall>p \<in> set [''/home/user/a.rs'', ''/tmp/b'']. clean_path p"
    by (simp add: clean_normalize_names clean_name_def name_ok_def valid_str_ascii)
qed (simp_all add: set_preserving_def)

text \<open>
  C29. For a session of clean paths (absolute, at least two levels deep, without dots, wildcards,
  backslashes and line feeds) the generalised allow list reaches no further than the directories of the
  session: every glob is \<open>d/**\<close> for a directory \<open>d\<close> other than the root that lies strictly above an
  observed path.  The condition is needed: one path directly under the root yields \<open>/**\<close>
  (\<open>top_level_path_opens_root\<close> in \<open>Generator_Session\<close>).
\<close>

theorem generalize_reach:
  assumes "set_preserving iter" and "\<forall>p \<in> set paths. clean_path p"
    and "g \<in> set (generalize_paths iter paths)"
  shows "\<exists>d. g = abs_path d @ ''/**'' \<and> d \<noteq> [] \<and> (\<exists>p \<in> set paths. strict_prefix d (path_names p))"
proof -
  obtain k ps where g: "(k, ps) \<in> set (group_paths (normalized_paths paths))" "g \<in> set (group_globs ps)"
    using assms(3) by (auto simp: set_generalize [OF assms(1)])
  from clean_group [OF g(1) assms(2)] obtain d where
    d: "group_globs ps = [abs_path d @ ''/**'']" "d \<noteq> []" "ps \<noteq> []" "set ps \<subseteq> set paths"
       "\<forall>p \<in> set ps. strict_prefix d (path_names p)"
    by blast
  moreover have "hd ps \<in> set ps"
    using d(3) by simp
  ultimately have "hd ps \<in> set paths" and "strict_prefix d (path_names (hd ps))"
    by auto
  moreover have "g = abs_path d @ ''/**''"
    using g(2) d(1) by simp
  ultimately show ?thesis
    using d(2) by blast
qed

text \<open>
  C30. The iteration order of the hash map of groups does not show in the result.
\<close>

theorem generalize_order_irrelevant:
  assumes "set_preserving iter"
  shows "generalize_paths iter paths = generalize_paths id paths"
proof -
  let ?g = "\<lambda>(key, ps). group_globs ps"
  have "mset (concat (map ?g (iter gs))) = mset (concat (map ?g gs))" for gs
  proof -
    have "mset (iter gs) = mset gs"
      using assms by (simp add: set_preserving_def)
    then have "image_mset (mset \<circ> ?g) (mset (iter gs)) = image_mset (mset \<circ> ?g) (mset gs)"
      by (rule arg_cong)
    then show ?thesis
      by (simp only: mset_concat mset_map map_map flip: sum_mset_sum_list)
  qed
  then have "sort (concat (map ?g (iter gs))) = sort (concat (map ?g gs))" for gs
    by (intro properties_for_sort) simp_all
  then show ?thesis
    by (simp add: generalize_paths_def Let_def)
qed

end
