(* ===== verification/Generator_Session.thy ===== *)
theory Generator_Session
  imports Generator_Facts
begin

text \<open>
  The policy that \<open>run_generator\<close> writes, seen from the session it was drawn from: once loaded, it
  lets the observed accesses through; it cannot be loaded when the session touched no file, and it
  can never be compiled for the synchronous mode.
\<close>

section \<open>The events of a log\<close>

text \<open>The type, in lower case, and the target of the event on a line, if the line holds one.\<close>

definition line_event ::
    "('j, 'y) gen_env \<Rightarrow> (io_error, string) result \<Rightarrow> (string \<times> string) option" where
  "line_event env line_res =
     (case line_res of
        Inl e \<Rightarrow> None
      | Inr line \<Rightarrow>
          if str_trim line = [] then None
          else (case read_json env (str_trim line) of
                  Inl e \<Rightarrow> None
                | Inr val \<Rightarrow>
                    (case (ll_event_type val, ll_target val) of
                       (Some et, Some target) \<Rightarrow> Some (lowercase env et, target)
                     | _ \<Rightarrow> None)))"

definition log_events :: "('j, 'y) gen_env \<Rightarrow> (io_error, string) result list \<Rightarrow> (string \<times> string) list" where
  "log_events env ls = List.map_filter (line_event env) ls"

definition targets :: "string \<Rightarrow> (string \<times> string) list \<Rightarrow> string list" where
  "targets kind es = map snd (filter (\<lambda>e. fst e = kind) es)"

abbreviation observed_paths :: "('j, 'y) gen_env \<Rightarrow> string \<Rightarrow> (io_error, string) result list \<Rightarrow> string list" where
  "observed_paths env kind ls \<equiv>
     filter (\<lambda>p. \<not> is_sensitive_path_str (lowercase env) p) (targets kind (log_events env ls))"

lemma targets_simps [simp]:
  "targets k [] = []"
  "targets k (e # es) = (if fst e = k then snd e # targets k es else targets k es)"
  by (simp_all add: targets_def)

text \<open>What a line adds to the four lists.\<close>

definition adds :: "('j, 'y) gen_env \<Rightarrow> (string \<times> string) list \<Rightarrow> gen_state \<Rightarrow> gen_state \<Rightarrow> bool" where
  "adds env es st st' \<longleftrightarrow>
     raw_reads st' = raw_reads st @
       filter (\<lambda>p. \<not> is_sensitive_path_str (lowercase env) p) (targets ''read'' es) \<and>
     raw_writes st' = raw_writes st @
       filter (\<lambda>p. \<not> is_sensitive_path_str (lowercase env) p) (targets ''write'' es) \<and>
     raw_domains st' = raw_domains st @ targets ''network'' es \<and>
     raw_syscalls st' = raw_syscalls st @ targets ''syscall'' es"

lemma record_event_adds: "adds env [(lowercase env et, t)] st (record_event env et t st)"
  by (simp add: adds_def record_event_def Let_def)

lemma gen_warn_adds: "adds env [] st (gen_warn m st)"
  by (simp add: adds_def gen_warn_def)

lemma read_log_line_adds:
  "adds env (log_events env [snd x]) st (read_log_line env x st)"
proof -
  obtain n r where x: "x = (n, r)"
    by (cases x)
  have count: "adds env es st st' = adds env es (st\<lparr>event_count := c\<rparr>) st'" for es st' c
    by (simp add: adds_def)
  show ?thesis
  proof (cases "line_event env r")
    case None
    then have "log_events env [snd x] = []"
      by (simp add: x log_events_def List.map_filter_def)
    moreover have "adds env [] st (read_log_line env x st)"
      using None gen_warn_adds [of env st]
      by (auto simp: x read_log_line_def line_event_def Let_def adds_def split: sum.splits option.splits if_splits)
    ultimately show ?thesis by simp
  next
    case (Some e)
    then have "log_events env [snd x] = [e]"
      by (simp add: x log_events_def List.map_filter_def)
    moreover have "adds env [e] st (read_log_line env x st)"
      using Some record_event_adds [of env _ _ "st\<lparr>event_count := event_count st + 1\<rparr>"]
      by (auto simp: x read_log_line_def line_event_def Let_def simp flip: count
          split: sum.splits option.splits if_splits)
    ultimately show ?thesis by simp
  qed
qed

lemma adds_trans: "adds env es a b \<Longrightarrow> adds env fs b c \<Longrightarrow> adds env (es @ fs) a c"
  by (induction es) (auto simp: adds_def targets_def)

lemma fold_lines_adds:
  "adds env (log_events env (map snd xs)) st (fold (read_log_line env) xs st)"
proof (induction xs arbitrary: st)
  case Nil
  then show ?case by (simp add: adds_def log_events_def List.map_filter_def)
next
  case (Cons x xs)
  have "log_events env (map snd (x # xs)) = log_events env [snd x] @ log_events env (map snd xs)"
    by (simp add: log_events_def List.map_filter_def)
  then show ?case
    using adds_trans [OF read_log_line_adds Cons.IH] by simp
qed

lemma read_log_lists:
  "raw_reads (read_log env ls) = observed_paths env ''read'' ls"
  "raw_writes (read_log env ls) = observed_paths env ''write'' ls"
  "raw_domains (read_log env ls) = targets ''network'' (log_events env ls)"
  "raw_syscalls (read_log env ls) = targets ''syscall'' (log_events env ls)"
  using fold_lines_adds [of env "enumerate 0 ls" "empty_gen_state"]
  by (simp_all add: read_log_def adds_def empty_gen_state_def)

section \<open>Reading the generated file back\<close>

definition raw_of_generated :: "generated_policy \<Rightarrow> raw_policy" where
  "raw_of_generated g =
     \<lparr>raw_mode = g_mode g,
      raw_fs = \<lparr>rf_allow_read = gf_allow_read (g_filesystem g),
                rf_allow_write = gf_allow_write (g_filesystem g),
                rf_deny_always = gf_deny_always (g_filesystem g)\<rparr>,
      raw_net = \<lparr>rn_allow_domains = gn_allow_domains (g_network g),
                 rn_deny_all_else = gn_deny_all_else (g_network g)\<rparr>,
      raw_sys = \<lparr>rs_deny = map Simple (gs_deny (g_syscalls g))\<rparr>\<rparr>"

text \<open>
  The characters that a YAML comment may hold without ending it: no line break (LF, CR, NEL, U+2028,
  U+2029) and nothing that the reader of \<open>serde_yaml\<close> refuses (control characters, a byte-order mark, the
  non-characters U+FFFE and U+FFFF).
\<close>

definition comment_char :: "rchar \<Rightarrow> bool" where
  "comment_char c \<longleftrightarrow>
     (case c of
        [b] \<Rightarrow> b = CHR 0x09 \<or> (0x20 \<le> (of_char b :: nat) \<and> of_char b \<le> (0x7E :: nat))
      | _ \<Rightarrow> \<not> (hd c = CHR 0xC2 \<and> of_char (c ! 1) < (0xA0 :: nat)) \<and>
             c \<notin> {[CHR 0xE2, CHR 0x80, CHR 0xA8], [CHR 0xE2, CHR 0x80, CHR 0xA9],
                  [CHR 0xEF, CHR 0xBB, CHR 0xBF], [CHR 0xEF, CHR 0xBF, CHR 0xBE],
                  [CHR 0xEF, CHR 0xBF, CHR 0xBF]})"

definition comment_text :: "string \<Rightarrow> bool" where
  "comment_text s \<longleftrightarrow> valid_str s \<and> list_all comment_char (chars s)"

text \<open>
  The YAML writer and reader agree: what was written below comment lines is read back.  The file name
  and the time stand inside a comment line, and only as far as both are comment text is this documented
  of \<open>serde_yaml\<close>; a name that is not (a file called \<open>a\<close>, carriage return, \<open>b\<close>) makes other YAML of the
  header.
\<close>

definition yaml_reads_back ::
    "('j, 'y) gen_env \<Rightarrow> (string \<Rightarrow> ('z, raw_policy) result) \<Rightarrow> bool" where
  "yaml_reads_back env yaml \<longleftrightarrow>
     (\<forall>g text f n t. to_yaml env g = Inr text \<longrightarrow> comment_text f \<longrightarrow> comment_text t \<longrightarrow>
        yaml (policy_header f n t @ text) = Inr (raw_of_generated g))"

lemma run_generator_Ok:
  assumes "run_generator env from_log output = Some (calls, Some text, Inr ())" "open_file env from_log = Inr (lines_of ls)"
    and "yaml_reads_back env yaml"
    and "comment_text (log_filename from_log)" and "comment_text (header_time env)"
  shows "yaml text = Inr (raw_of_generated (build_policy env (read_log env ls)))"
  using assms
  by (auto simp: run_generator_def read_lines_list write_policy_def Let_def yaml_reads_back_def split: sum.splits)

section \<open>The mandatory denials\<close>

lemma any_then_lits:
  assumes "glob_accepts (''*'' # ''*'' # map (\<lambda>c. [c]) l @ q) (chars p)"
    and "list_all (\<lambda>c. c \<notin> {CHR ''*'', CHR ''?'', CHR 0x5C}) l"
  shows "\<exists>a t. p = a @ l @ concat t \<and> glob_accepts q t"
proof -
  have "list_all (\<lambda>c. c \<notin> {''*'', ''?'', backslash}) (map (\<lambda>c. [c]) l)"
    using assms(2) by (auto simp: list_all_iff backslash_def)
  then obtain w t where s: "chars p = w @ map (\<lambda>c. [c]) l @ t" and t: "glob_accepts q t"
    using assms(1) by (auto simp: glob_accepts_any_tail glob_accepts_lits)
  have "concat (chars p) = concat w @ l @ concat t"
    by (simp add: s concat_map_singleton)
  with t show ?thesis
    by auto
qed

lemma any_then_lits_sublist:
  "glob_accepts (''*'' # ''*'' # map (\<lambda>c. [c]) l @ q) (chars p) \<Longrightarrow>
   list_all (\<lambda>c. c \<notin> {CHR ''*'', CHR ''?'', CHR 0x5C}) l \<Longrightarrow> sublist l p"
  using any_then_lits [of l q p] by (auto simp: sublist_def)

lemma sublist_tailD: "sublist (c # l) p \<Longrightarrow> sublist l p"
  by (meson sublist_Cons_right sublist_order.order.trans sublist_order.order.refl)

text \<open>A path that a mandatory denial covers holds one of the four marks of \<open>is_sensitive_path\<close>.\<close>

lemma mandatory_deny_marks:
  assumes "d \<in> set mandatory_deny_always" and "glob_covers d p"
  shows "sublist ''.env'' p \<or> sublist ''.ssh'' p \<or> sublist ''id_rsa'' p \<or> suffix ''.pem'' p"
proof -
  consider "d = ''**/.env''" | "d = ''**/.ssh/**''" | "d = ''**/id_rsa*''" | (pem) "d = ''**/*.pem''"
    using assms(1) by (auto simp: mandatory_deny_always_def)
  then show ?thesis
  proof cases
    case 1
    then have "sublist ''/.env'' p"
      using any_then_lits_sublist [of "''/.env''" "[]" p] assms(2) by (simp add: utf8_len_def)
    then have "sublist ''.env'' p"
      by (rule sublist_tailD)
    then show ?thesis by blast
  next
    case 2
    then have "sublist ''/.ssh'' p"
      using any_then_lits_sublist [of "''/.ssh''" "[''/'', ''*'', ''*'']" p] assms(2) by (simp add: utf8_len_def)
    then have "sublist ''.ssh'' p"
      by (rule sublist_tailD)
    then show ?thesis by blast
  next
    case 3
    then have "sublist ''/id_rsa'' p"
      using any_then_lits_sublist [of "''/id_rsa''" "[''*'']" p] assms(2) by (simp add: utf8_len_def)
    then have "sublist ''id_rsa'' p"
      by (rule sublist_tailD)
    then show ?thesis by blast
  next
    case pem
    then obtain a t where t: "p = a @ ''/'' @ concat t"
        "glob_accepts (''*'' # map (\<lambda>c. [c]) ''.pem'') t"
      using any_then_lits [of "''/''" "''*'' # map (\<lambda>c. [c]) ''.pem''" p] assms(2)
      by (auto simp: utf8_len_def)
    have "nodes_match (glob_nodes (''*'' # map (\<lambda>c. [c]) ''.pem'')) t"
      using t(2) by (simp only: nodes_match_glob)
    then obtain w where "t = w @ map (\<lambda>c. [c]) ''.pem''"
      by (auto simp: node_match_simps backslash_def)
    then show ?thesis
      using t(1) by (auto simp: suffix_def)
  qed
qed

section \<open>The session under its own policy\<close>

text \<open>
  What \<open>str::to_lowercase\<close> promises: it works character by character and leaves lower-case ASCII
  letters, digits and punctuation alone, so a text of such characters survives in place.
\<close>

definition keeps_marks :: "(string \<Rightarrow> string) \<Rightarrow> bool" where
  "keeps_marks lower \<longleftrightarrow>
     (\<forall>s. (sublist ''.env'' s \<longrightarrow> sublist ''.env'' (lower s)) \<and>
          (sublist ''.ssh'' s \<longrightarrow> sublist ''.ssh'' (lower s)) \<and>
          (sublist ''id_rsa'' s \<longrightarrow> sublist ''id_rsa'' (lower s)) \<and>
          (suffix ''.pem'' s \<longrightarrow> suffix ''.pem'' (lower s)))"

lemma not_sensitive_not_denied:
  "keeps_marks lower \<Longrightarrow> \<not> is_sensitive_path_str lower p \<Longrightarrow> d \<in> set mandatory_deny_always \<Longrightarrow>
   \<not> glob_covers d p"
  using mandatory_deny_marks [of d p] by (auto simp: keeps_marks_def is_sensitive_path_str_def Let_def)

lemma generalized_valid:
  assumes "set_preserving iter" and "\<forall>p \<in> set paths. clean_path p"
  shows "list_all valid_str (generalize_paths iter paths)"
proof -
  have "valid_str g" if g: "g \<in> set (generalize_paths iter paths)" for g
  proof -
    obtain k ps where ps: "(k, ps) \<in> set (group_paths (normalized_paths paths))" "g \<in> set (group_globs ps)"
      using g by (auto simp: set_generalize [OF assms(1)])
    from clean_group [OF ps(1) assms(2)] obtain d where
      d: "g = abs_path d @ ''/**''" "ps \<noteq> []" "set ps \<subseteq> set paths" "\<forall>p \<in> set ps. strict_prefix d (path_names p)"
      using ps(2) by auto
    then have "hd ps \<in> set ps"
      by simp
    then have "clean_path (hd ps)" and "prefix d (path_names (hd ps))"
      using d(3,4) assms(2) by (blast, simp add: strict_prefix_def)
    then have "list_all clean_name d"
      by (auto simp: clean_path_def prefix_def)
    then show ?thesis
      using clean_text valid_str_append d(1) valid_str_ascii by (simp add: valid_str_append)
  qed
  then show ?thesis
    by (simp add: list_all_iff)
qed

lemma generated_loaded:
  assumes "from_yaml api yaml text = (Inr pol :: (('z, 'e) policy_error, 're policy) result)"
    and "yaml text = Inr (raw_of_generated (build_policy env st))"
  shows "raw_deny_always pol = mandatory_deny_always"
    and "raw_allow_read pol = generalize_paths (map_order env) (raw_reads st)"
    and "raw_allow_write pol = generalize_paths (map_order env) (raw_writes st)"
    and "deny_syscalls pol = map (syscall_rule_of \<circ> Simple)
           (remdups_adj (sort (mandatory_deny_syscalls @ filter risky_syscall (raw_syscalls st))))"
    and "allow_domains pol = remdups_adj (sort (raw_domains st))"
  using assms from_raw_Ok [of api "raw_of_generated (build_policy env st)" pol]
  by (auto simp: from_yaml_Ok raw_of_generated_def build_policy_def)

lemma generated_mode:
  assumes "from_yaml api yaml text = (Inr pol :: (('z, 'e) policy_error, 're policy) result)"
    and "yaml text = Inr (raw_of_generated (build_policy env st))"
  shows "pol_mode pol = Enforce"
proof -
  have "from_raw api (raw_of_generated (build_policy env st)) = (Inr pol :: (('z, 'e) policy_error, 're policy) result)"
    using assms by (auto simp: from_yaml_Ok)
  from from_raw_Ok [OF this] show ?thesis
    by (simp add: raw_of_generated_def build_policy_def parse_mode_def)
qed

lemma mandatory_valid: "list_all valid_str mandatory_deny_always"
  by (simp add: mandatory_deny_always_def valid_str_ascii)

text \<open>Every observed path that was not set aside is allowed.\<close>

lemma observed_paths_allowed:
  fixes api :: "('re, 'e) regex_api" and pol :: "'re policy"
  assumes engine: "regex_engine api"
    and run: "run_generator env from_log output = Some (calls, Some text, Inr ())" "open_file env from_log = Inr (lines_of ls)"
    and yaml: "yaml_reads_back env yaml"
      "comment_text (log_filename from_log)" "comment_text (header_time env)"
    and params: "set_preserving (map_order env)" "keeps_marks (lowercase env)"
    and loaded: "from_yaml api yaml text = (Inr pol :: (('z, 'e) policy_error, 're policy) result)"
    and clean: "\<forall>p \<in> set (observed_paths env ''read'' ls). clean_path p"
      "\<forall>p \<in> set (observed_paths env ''write'' ls). clean_path p"
    and seen: "p \<in> set (observed_paths env (if w then ''write'' else ''read'') ls)"
  shows "path_allowed api pol p w"
proof -
  note pol = generated_loaded [OF loaded run_generator_Ok [OF run yaml]]
  have valid: "globs_valid pol"
    using mandatory_valid generalized_valid [OF params(1)] clean
    by (simp add: globs_valid_def pol read_log_lists)
  have p: "clean_path p"
    using seen clean by (cases w) auto
  have "\<exists>g \<in> set (generalize_paths (map_order env) (observed_paths env (if w then ''write'' else ''read'') ls)).
      glob_covers g p"
    using generalize_covers_all [OF params(1) _ seen] clean by (cases w) auto
  moreover have "\<forall>d \<in> set mandatory_deny_always. \<not> glob_covers d p"
    using not_sensitive_not_denied [OF params(2)] seen by auto
  ultimately show ?thesis
    using path_allowed_globs [OF engine loaded valid, of p w] clean_path_text [OF p]
    by (cases w) (simp_all add: pol read_log_lists)
qed

lemma observed_domains_allowed:
  assumes "from_yaml api yaml text = (Inr pol :: (('z, 'e) policy_error, 're policy) result)"
    and "yaml text = Inr (raw_of_generated (build_policy env (read_log env ls)))"
    and "d \<in> set (targets ''network'' (log_events env ls))"
  shows "domain_allowed pol d"
proof -
  have "\<exists>a \<in> set (allow_domains pol). eq_ignore_ascii_case a d"
    using assms(3) generated_loaded(5) [OF assms(1,2)] by (auto simp: read_log_lists eq_ignore_ascii_case_def)
  then show ?thesis
    by (simp add: domain_allowed_def domain_listed_iff)
qed

text \<open>A system call that the generator does not find risky is denied by none of its rules.\<close>

lemma innocent_syscall_allowed:
  assumes "from_yaml api yaml text = (Inr pol :: (('z, 'e) policy_error, 're policy) result)"
    and "yaml text = Inr (raw_of_generated (build_policy env (read_log env ls)))"
    and "\<not> risky_syscall s" and "\<forall>t \<in> set (targets ''syscall'' (log_events env ls)). CHR '':'' \<in> set t"
  shows "\<not> syscall_denied pol s"
proof
  assume "syscall_denied pol s"
  then obtain r where r: "r \<in> set mandatory_deny_syscalls \<or>
      r \<in> set (targets ''syscall'' (log_events env ls)) \<and> risky_syscall r"
    and applies: "rule_applies s (syscall_rule_of (Simple r))"
    using generated_loaded(4) [OF assms(1,2)] by (auto simp: syscall_denied_def list_ex_iff read_log_lists)
  have pattern: "pattern (syscall_rule_of (Simple r)) = r"
    by simp
  show False
  proof (cases "r \<in> set mandatory_deny_syscalls")
    case True
    have "prefix r s"
      using applies unfolding rule_applies_iff pattern by (auto simp: prefix_def)
    then have "str_contains s r"
      by (rule prefix_imp_sublist)
    then show False
      using True assms(3) by (auto simp: risky_syscall_def list_ex_iff)
  next
    case False
    then have "CHR '':'' \<in> set r" "risky_syscall r"
      using r assms(4) by auto
    then show False
      using applies assms(3) unfolding rule_applies_def pattern by (auto split: if_splits)
  qed
qed

text \<open>
  C11. A session of plain paths runs under the policy drawn from it: when every path that the log holds
  and the generator keeps is clean (absolute, at least two levels deep, without dots, wildcards,
  backslashes and line feeds), every file access in the log whose path the generator did not set aside as
  sensitive is allowed by the generated policy once it is loaded, for reading or for writing as observed.
  The name of the log and the time, which the header carries, are comment text.  For \<open>/etc\<close> or a relative
  path this is not so (\<open>top_level_pair_uncovered\<close>, \<open>top_level_path_opens_root\<close>).
\<close>

theorem generated_policy_admits_session:
  fixes api :: "('re, 'e) regex_api" and pol :: "'re policy"
  assumes engine: "regex_engine api"
    and run: "run_generator env from_log output = Some (calls, Some text, Inr ())" "open_file env from_log = Inr (lines_of ls)"
    and yaml: "yaml_reads_back env yaml"
      "comment_text (log_filename from_log)" "comment_text (header_time env)"
    and params: "set_preserving (map_order env)" "keeps_marks (lowercase env)"
    and loaded: "from_yaml api yaml text = (Inr pol :: (('z, 'e) policy_error, 're policy) result)"
    and clean: "\<forall>p \<in> set (observed_paths env ''read'' ls). clean_path p"
      "\<forall>p \<in> set (observed_paths env ''write'' ls). clean_path p"
    and seen: "p \<in> set (observed_paths env (if w then ''write'' else ''read'') ls)"
  shows "path_allowed api pol p w"
  using assms by (rule observed_paths_allowed)

text \<open>
  A session that read and wrote no file, or only sensitive ones, yields a file that
  \<open>Policy::from_yaml\<close> rejects, since both allow lists are empty.
\<close>

theorem generated_policy_empty:
  assumes "run_generator env from_log output = Some (calls, Some text, Inr ())" "open_file env from_log = Inr (lines_of ls)"
    and "yaml_reads_back env yaml"
      "comment_text (log_filename from_log)" "comment_text (header_time env)"
    and "observed_paths env ''read'' ls = []" and "observed_paths env ''write'' ls = []"
  shows "from_yaml api yaml text = Inl EmptyAllowList"
  using run_generator_Ok [OF assms(1-5)] assms(6,7)
  by (simp add: from_yaml_def from_raw_def raw_of_generated_def build_policy_def read_log_lists
      parse_mode_def generalize_paths_def)

lemma collect_results_member_Err:
  "x \<in> set xs \<Longrightarrow> f x = Inl e \<Longrightarrow> \<exists>e'. collect_results f xs = Inl e'"
  by (cases "collect_results f xs") (auto simp: collect_results_Ok list_all2_conv_all_nth in_set_conv_nth)

text \<open>
  A generated policy never compiles for the synchronous mode: the mandatory rule \<open>ptrace\<close> is not
  an \<open>execve:\<close> rule, so the compiler reports an error and the monitor falls back to the reactive mode.
\<close>

theorem generated_policy_reactive_only:
  assumes "run_generator env from_log output = Some (calls, Some text, Inr ())" "open_file env from_log = Inr (lines_of ls)"
    and "yaml_reads_back env yaml"
      "comment_text (log_filename from_log)" "comment_text (header_time env)"
    and "from_yaml api yaml text = (Inr pol :: (('z, 'e) policy_error, 're policy) result)"
  shows "\<exists>e. try_compile_for_sync pol = Inl e"
proof -
  let ?r = "syscall_rule_of (Simple ''ptrace'')"
  define denied where "denied =
    remdups_adj (sort (mandatory_deny_syscalls @ filter risky_syscall (raw_syscalls (read_log env ls))))"
  have "set mandatory_deny_syscalls \<subseteq> set denied"
    unfolding denied_def remdups_adj_set set_sort set_append by (rule Un_upper1)
  then have "''ptrace'' \<in> set denied"
    by (auto simp: mandatory_deny_syscalls_def)
  moreover have "deny_syscalls pol = map (syscall_rule_of \<circ> Simple) denied"
    unfolding denied_def by (rule generated_loaded(4) [OF assms(6) run_generator_Ok [OF assms(1-5)]])
  ultimately have rule: "?r \<in> set (deny_syscalls pol)"
    by auto
  have err: "compile_syscall ?r = Inl (UnsupportedGlob ''ptrace'')"
    by (simp add: compile_syscall_def)
  from collect_results_member_Err [where f = compile_syscall, OF rule err] obtain e where
    "collect_results compile_syscall (deny_syscalls pol) = Inl e" ..
  then have "try_compile_for_sync pol \<noteq> Inr c" for c
    by (auto simp: try_compile_for_sync_def and_then_Inr split: if_splits)
  then show ?thesis
    by (cases "try_compile_for_sync pol") auto
qed

section \<open>A small session\<close>

text \<open>
  A log of one line, which holds one read access; the JSON reader knows this line and the YAML writer
  this policy.
\<close>

definition small_policy :: generated_policy where
  "small_policy =
     \<lparr>g_mode = ''enforce'',
      g_filesystem = \<lparr>gf_allow_read = [''/home/user/**''], gf_allow_write = [],
                      gf_deny_always = mandatory_deny_always\<rparr>,
      g_network = \<lparr>gn_allow_domains = [], gn_deny_all_else = True\<rparr>,
      g_syscalls = \<lparr>gs_deny = [''execve:/bin/bash'', ''execve:/bin/sh'', ''ptrace'']\<rparr>\<rparr>"

definition small_env :: "generated_policy \<Rightarrow> (unit, unit) gen_env" where
  "small_env g0 =
     \<lparr>open_file = (\<lambda>f. Inr (lines_of (if f = ''/quiet'' then [] else [Inr ''a'']))),
      lowercase = map ascii_lower,
      read_json = (\<lambda>s. if s = ''a'' then Inr \<lparr>ll_event_type = Some ''READ'',
                     ll_target = Some ''/home/user/a.rs'', ll_action = None\<rparr> else Inl ()),
      to_yaml = (\<lambda>g. if g = g0 then Inr ''yaml'' else Inl ()),
      write_file = (\<lambda>_ _. Inr ()), ge_show_io = (\<lambda>e. ''io''), ge_show_json = (\<lambda>e. ''json''),
      ge_show_yaml = (\<lambda>e. ''yaml''), ge_debug_path = id, header_time = ''now'', map_order = id\<rparr>"

definition quiet_policy :: generated_policy where
  "quiet_policy = small_policy\<lparr>g_filesystem :=
     \<lparr>gf_allow_read = [], gf_allow_write = [], gf_deny_always = mandatory_deny_always\<rparr>\<rparr>"

abbreviation small_text :: "string \<Rightarrow> nat \<Rightarrow> string" where
  "small_text f n \<equiv> policy_header f n ''now'' @ ''yaml''"

lemma small_env_simps [simp]:
  "lowercase (small_env g) = map ascii_lower"
  "map_order (small_env g) = id"
  "header_time (small_env g) = ''now''"
  "open_file (small_env g) f = Inr (lines_of (if f = ''/quiet'' then [] else [Inr ''a'']))"
  "to_yaml (small_env g) g' = (if g' = g then Inr ''yaml'' else Inl ())"
  "write_file (small_env g) f t = Inr ()"
  "read_json (small_env g) s = (if s = ''a'' then Inr \<lparr>ll_event_type = Some ''READ'',
     ll_target = Some ''/home/user/a.rs'', ll_action = None\<rparr> else Inl ())"
  by (simp_all add: small_env_def)

lemma lower_fixed:
  "map ascii_lower ''.env'' = ''.env''" "map ascii_lower ''.ssh'' = ''.ssh''"
  "map ascii_lower ''id_rsa'' = ''id_rsa''" "map ascii_lower ''.pem'' = ''.pem''"
  "map ascii_lower ''READ'' = ''read''"
  by code_simp+

lemma small_keeps: "keeps_marks (map ascii_lower)"
  using map_mono_sublist [of "''.env''" _ ascii_lower] map_mono_sublist [of "''.ssh''" _ ascii_lower]
    map_mono_sublist [of "''id_rsa''" _ ascii_lower] map_mono_suffix [of "''.pem''" _ ascii_lower]
  unfolding lower_fixed keeps_marks_def by blast

lemma small_reads_back: "yaml_reads_back (small_env g) (\<lambda>_. Inr (raw_of_generated g))"
  by (simp add: yaml_reads_back_def)

lemma small_trim: "str_trim ''a'' = ''a''"
  by (simp add: str_trim_id is_whitespace_def utf8_len_def)

lemma small_comment: "comment_text ''log''" "comment_text ''quiet''" "comment_text ''now''" "comment_text ''session''"
  by (simp_all add: comment_text_def comment_char_def valid_str_ascii utf8_len_def)

text \<open>A line feed, a carriage return and an escape are not.\<close>

lemma broken_comment: "\<not> comment_text [CHR ''a'', CHR 0x0A]" "\<not> comment_text [CHR ''a'', CHR 0x0D]" "\<not> comment_text [CHR 0x1B]"
  by (simp_all add: comment_text_def comment_char_def utf8_len_def)

lemma small_path: "clean_path ''/home/user/a.rs''"
  by (simp add: clean_normalize_names clean_name_def name_ok_def valid_str_ascii)

lemma small_not_sensitive: "\<not> is_sensitive_path_str (map ascii_lower) ''/home/user/a.rs''"
  by (simp add: is_sensitive_path_str_def ascii_lower_def sublist_Cons_right suffix_def)

lemma small_events: "log_events (small_env g) [Inr ''a''] = [(''read'', ''/home/user/a.rs'')]"
  using lower_fixed(5) by (simp add: log_events_def List.map_filter_def line_event_def small_trim)

lemma small_sorted: "sort mandatory_deny_syscalls = [''execve:/bin/bash'', ''execve:/bin/sh'', ''ptrace'']"
  by (simp add: mandatory_deny_syscalls_def)

lemma small_globs: "generalize_paths id [''/home/user/a.rs''] = [''/home/user/**'']"
proof -
  have "components ''/home/user/a.rs'' = [RootDir, Normal ''home'', Normal ''user'', Normal ''a.rs'']"
    by (simp add: components_def body_component_def component_of_def)
  moreover have "parent_path ''/home/user/a.rs'' = Some ''/home/user''"
    by (simp add: parent_path_def Let_def trim_tail_def ignorable_def)
  ultimately show ?thesis
    by (simp add: generalize_paths_def normalized_paths_def group_paths_def group_globs_def parent_glob_def)
qed

lemma small_build: "build_policy (small_env g) (read_log (small_env g) [Inr ''a'']) = small_policy"
  by (simp add: build_policy_def small_policy_def read_log_lists small_events small_not_sensitive
      small_globs small_sorted) (simp add: generalize_paths_def)

lemma quiet_build: "build_policy (small_env g) (read_log (small_env g) []) = quiet_policy"
  by (simp add: build_policy_def small_policy_def quiet_policy_def read_log_lists log_events_def
      List.map_filter_def small_sorted) (simp add: generalize_paths_def)

lemma small_names: "log_filename ''/log'' = ''log''" "log_filename ''/quiet'' = ''quiet''"
  by code_simp+

lemma small_run:
  "\<exists>calls. run_generator (small_env small_policy) ''/log'' ''out'' = Some (calls, Some (small_text ''log'' 1), Inr ())"
  by (simp add: run_generator_def read_lines_list write_policy_def Let_def small_build small_names)
    (simp add: read_log_def read_log_line_def empty_gen_state_def small_trim record_event_def Let_def)

lemma quiet_run:
  "\<exists>calls. run_generator (small_env quiet_policy) ''/quiet'' ''out'' = Some (calls, Some (small_text ''quiet'' 0), Inr ())"
  by (simp add: run_generator_def read_lines_list write_policy_def Let_def quiet_build small_names) (simp add: read_log_def empty_gen_state_def)

definition small_loaded :: "re_node list policy" where
  "small_loaded =
     \<lparr>pol_mode = Enforce,
      compiled_deny = map (\<lambda>g. glob_nodes (chars g)) mandatory_deny_always,
      compiled_allow_read = [glob_nodes (chars ''/home/user/**'')],
      compiled_allow_write = [],
      allow_domains = [],
      deny_all_else = True,
      deny_syscalls = map (syscall_rule_of \<circ> Simple) [''execve:/bin/bash'', ''execve:/bin/sh'', ''ptrace''],
      raw_deny_always = mandatory_deny_always,
      raw_allow_read = [''/home/user/**''],
      raw_allow_write = []\<rparr>"

lemma small_loads:
  "from_yaml mini_api (\<lambda>_. Inr (raw_of_generated small_policy)) t = Inr small_loaded"
  by (simp add: from_yaml_def from_raw_def raw_of_generated_def small_policy_def small_loaded_def
      mini_glob str_ok_ascii parse_mode_def mandatory_deny_always_def)

lemma generalize_reach_witness:
  "\<exists>d. ''/home/user/**'' = abs_path d @ ''/**'' \<and> d \<noteq> []"
  using generalize_reach [of id "[''/home/user/a.rs'']" "''/home/user/**''"]
  by (auto simp: small_globs small_path set_preserving_def)

lemma generalize_order_irrelevant_witness:
  "generalize_paths rev [''/home/user/a.rs''] = [''/home/user/**'']"
  using generalize_order_irrelevant [of rev "[''/home/user/a.rs'']"]
  by (simp add: set_preserving_def small_globs)

lemma generated_policy_admits_session_witness:
  "path_allowed mini_api small_loaded ''/home/user/a.rs'' False"
proof -
  obtain calls where run: "run_generator (small_env small_policy) ''/log'' ''out'' =
      Some (calls, Some (small_text ''log'' 1), Inr ())"
    using small_run by blast
  show ?thesis
    using generated_policy_admits_session [OF mini.regex_engine_axioms run _ small_reads_back _ _ _ _ small_loads]
    by (simp add: small_names small_comment set_preserving_def small_keeps small_events small_not_sensitive small_path)
qed

lemma generated_policy_reactive_only_witness: "\<exists>e. try_compile_for_sync small_loaded = Inl e"
proof -
  obtain calls where run: "run_generator (small_env small_policy) ''/log'' ''out'' =
      Some (calls, Some (small_text ''log'' 1), Inr ())"
    using small_run by blast
  show ?thesis
    by (rule generated_policy_reactive_only [OF run _ small_reads_back _ _ small_loads, where ls = "[Inr ''a'']"]) (simp_all add: small_names small_comment)
qed

lemma generated_policy_empty_witness:
  "from_yaml mini_api (\<lambda>_. Inr (raw_of_generated quiet_policy)) (small_text ''quiet'' 0) = Inl EmptyAllowList"
proof -
  obtain calls where run: "run_generator (small_env quiet_policy) ''/quiet'' ''out'' =
      Some (calls, Some (small_text ''quiet'' 0), Inr ())"
    using quiet_run by blast
  show ?thesis
    by (rule generated_policy_empty [OF run _ small_reads_back, where ls = "[]"])
      (simp_all add: small_names small_comment log_events_def List.map_filter_def)
qed

text \<open>
  The observed directory itself, next to a file in it, makes the pattern \<open>//**\<close>, which covers
  neither: \<open>/etc\<close> and \<open>/etc/foo\<close> lie above the depth that the coverage property asks for.
\<close>

lemma top_level_pair_uncovered:
  "group_globs [''/etc'', ''/etc/foo''] = [''//**''] \<and>
   \<not> glob_covers ''//**'' ''/etc'' \<and> \<not> glob_covers ''//**'' ''/etc/foo''"
proof
  have comps: "components ''/etc'' = [RootDir, Normal ''etc'']"
    "components ''/etc/foo'' = [RootDir, Normal ''etc'', Normal ''foo'']"
    by (simp_all add: components_def body_component_def component_of_def)
  moreover have "push_all [RootDir, Normal ''etc''] = ''/etc''"
    by (simp add: push_all_def push_def comp_str_def suffix_def)
  ultimately have "common_ancestor [''/etc'', ''/etc/foo''] = ''/etc''"
    by (simp add: common_ancestor_def)
  moreover have "parent_path ''/etc'' = Some ''/''"
    by (simp add: parent_path_def Let_def trim_tail_def ignorable_def)
  ultimately show "group_globs [''/etc'', ''/etc/foo''] = [''//**'']"
    by (simp add: group_globs_def Let_def)
  have uncovered: "\<not> glob_covers (''/'' @ ''/**'') p" if "ascii p" "CHR 0x0A \<notin> set p" "\<not> prefix ''//'' p" for p
    using that by (subst glob_covers_dir)
      (auto simp: plain_def backslash_def utf8_len_def str_ok_ascii chars_ascii)
  have "\<not> glob_covers (''/'' @ ''/**'') ''/etc''" and "\<not> glob_covers (''/'' @ ''/**'') ''/etc/foo''"
    by (rule uncovered; simp)+
  then show "\<not> glob_covers ''//**'' ''/etc'' \<and> \<not> glob_covers ''//**'' ''/etc/foo''"
    unfolding append_Cons append_Nil by (rule conjI)
qed

text \<open>
  One observed path directly under the root, or a relative name, makes the pattern \<open>/**\<close>: the policy drawn
  from the session then allows every absolute path, none of which the session touched.
\<close>

lemma top_level_path_opens_root:
  "generalize_paths id [''/foo''] = [''/**'']" "generalize_paths id [''foo''] = [''/**'']"
  "glob_covers ''/**'' ''/home/user/a.rs''"
proof -
  have comps: "components ''/foo'' = [RootDir, Normal ''foo'']" "components ''foo'' = [Normal ''foo'']"
    by (simp_all add: components_def body_component_def component_of_def)
  have "parent_path ''/foo'' = Some ''/''" "parent_path ''foo'' = Some []"
    by (simp_all add: parent_path_def Let_def trim_tail_def ignorable_def)
  then show "generalize_paths id [''/foo''] = [''/**'']" "generalize_paths id [''foo''] = [''/**'']"
    by (simp_all add: generalize_paths_def normalized_paths_def group_paths_def group_globs_def parent_glob_def)
  have "glob_covers ([] @ ''/**'') ''/home/user/a.rs''"
    by (subst glob_covers_dir) (auto simp: plain_def backslash_def utf8_len_def str_ok_ascii chars_ascii)
  then show "glob_covers ''/**'' ''/home/user/a.rs''"
    by simp
qed

end
