(* ===== verification/Program.thy ===== *)
theory Program
  imports Doctor Generator_Session
begin

text \<open>
  \<open>main\<close> as a whole: the dispatch to the commands, and what holds of every run of the program, whatever
  the command: whom it kills, what it reports and what its log file receives.
\<close>

section \<open>Definition\<close>

definition main ::
    "file_system \<Rightarrow> user_ids \<Rightarrow> path \<Rightarrow> ('re, 'e) regex_api \<Rightarrow> ('y, 'e, 'n, 'b) main_env \<Rightarrow>
     ('j, 'z) gen_env \<Rightarrow> 'v doctor_env \<Rightarrow> args \<Rightarrow> 're main_result" where
  "main fs ids cwd api env gen doc a =
     (case arg_command a of
        Some (GeneratePolicy from_log output) \<Rightarrow>
          (case run_generator gen from_log output of
             None \<Rightarrow> \<lparr>mr_trace = [], mr_printed = [], mr_status = None, mr_policy = None\<rparr>
           | Some (said, _, Inl e) \<Rightarrow>
               exit_with (logs (said @ [main_fatal (''falha ao gerar pol'' @ [CHR 0xC3, CHR 0xAD] @ ''tica: '' @ gen_error_message gen e)])) 1 None
           | Some (said, _, Inr _) \<Rightarrow> exit_with (logs said) 0 None)
      | Some Doctor \<Rightarrow> run_doctor (collect_doctor_report (ui_euid ids) doc)
      | Some (WatchCommand policy max_restarts command) \<Rightarrow>
          main_watch fs ids cwd api env (arg_dry_run a) policy max_restarts
      | None \<Rightarrow> main_monitor fs ids cwd api env a)"

text \<open>
  The events that a command hands to its enforcer: those of the monitor task, or those of the rounds of
  the supervision in which an agent was released.
\<close>

definition handed_events :: "('y, 'e, 'n, 'b) main_env \<Rightarrow> args \<Rightarrow> 're policy \<Rightarrow> event set" where
  "handed_events env a pol =
     (case arg_command a of
        None \<Rightarrow> set (session env)
      | Some (WatchCommand policy max_restarts command) \<Rightarrow>
          (\<Union>r \<in> {r \<in> set (mn_attempts env). released pol r}. snd ` set (handed r))
      | Some _ \<Rightarrow> {})"

text \<open>The policy argument of the command.\<close>

definition policy_option :: "args \<Rightarrow> string option" where
  "policy_option a = (case arg_command a of Some (WatchCommand policy _ _) \<Rightarrow> policy | _ \<Rightarrow> arg_policy a)"

section \<open>Whom the program kills\<close>

lemma monitor_kills:
  assumes "p \<in> set (kills (mr_trace (main_monitor fs ids cwd api env a)))"
  shows "\<exists>src loaded. snd (resolve_policy (mn_show_io env) fs ids cwd (arg_policy a)) = Inr src \<and>
     load_policy api env src = Inr loaded \<and>
     mr_policy (main_monitor fs ids cwd api env a) = Some (effective_policy (arg_dry_run a) loaded) \<and>
     (\<exists>ev \<in> set (session env). event_pid ev = p \<and> kill_due api (effective_policy (arg_dry_run a) loaded) ev)"
proof -
  obtain pid src loaded found mirror where view:
    "snd (resolve_policy (mn_show_io env) fs ids cwd (arg_policy a)) = Inr src" "load_policy api env src = Inr loaded"
    "case arg_log_file a of None \<Rightarrow> mirror = [] | Some f \<Rightarrow> \<exists>ls. mn_open_log env f = Inr ls \<and> mirror = [OpenLog ls]"
    and r: "main_monitor fs ids cwd api env a =
      after_effects (logs found @ mirror @ logs (dry_run_log (arg_dry_run a)))
        (main_supervise api env pid (effective_policy (arg_dry_run a) loaded))"
    using main_monitor_view [of fs ids cwd api env a] assms by auto
  have "kills mirror = []"
    using view(3) by (auto split: option.splits)
  then have p: "p \<in> set (kills (mr_trace (main_supervise api env pid (effective_policy (arg_dry_run a) loaded))))"
    using assms by (simp add: r)
  have "mr_policy (main_supervise api env pid (effective_policy (arg_dry_run a) loaded)) =
      Some (effective_policy (arg_dry_run a) loaded) \<and>
    (\<exists>ev \<in> set (session env). event_pid ev = p \<and> kill_due api (effective_policy (arg_dry_run a) loaded) ev)"
    using main_supervise_cases [of api env pid "effective_policy (arg_dry_run a) loaded"] p
    by (cases "is_ok (snd (monitor_new (mn_monitor env) pid (effective_policy (arg_dry_run a) loaded)))")
      (force dest: in_set_takeD split: if_splits)+
  with view(1,2) show ?thesis
    by (auto simp: r)
qed

lemma watch_kills:
  assumes "p \<in> set (kills (mr_trace (main_watch fs ids cwd api env dry policy mx)))"
  shows "\<exists>src loaded. snd (resolve_policy (mn_show_io env) fs ids cwd policy) = Inr src \<and>
     load_policy api env src = Inr loaded \<and>
     mr_policy (main_watch fs ids cwd api env dry policy mx) = Some (effective_policy dry loaded) \<and>
     (\<exists>r \<in> set (mn_attempts env). released (effective_policy dry loaded) r \<and>
        (\<exists>ev \<in> snd ` set (handed r). event_pid ev = p \<and> kill_due api (effective_policy dry loaded) ev))"
proof -
  obtain found res where src: "resolve_policy (mn_show_io env) fs ids cwd policy = (found, res)"
    by fastforce
  with assms obtain s loaded where ok: "res = Inr s" "load_policy api env s = Inr loaded"
    by (auto simp: main_watch_def split: sum.splits)
  let ?pol = "effective_policy dry loaded"
  obtain watched outcome where run: "run api (mn_text env) ?pol mx 0 (mn_attempts env) = (watched, outcome)"
    by fastforce
  have result: "kills (mr_trace (main_watch fs ids cwd api env dry policy mx)) = kills watched"
    "mr_policy (main_watch fs ids cwd api env dry policy mx) = Some ?pol"
    using src ok run by (auto simp: main_watch_def Let_def split: option.split sum.split)
  show ?thesis
    using run_kills [of p api "mn_text env" ?pol mx 0 "mn_attempts env"] assms
    by (auto simp: src ok result run)
qed

lemma main_kills:
  assumes "p \<in> set (kills (mr_trace (main fs ids cwd api env gen doc a)))"
  shows "\<exists>src loaded. snd (resolve_policy (mn_show_io env) fs ids cwd (policy_option a)) = Inr src \<and>
     load_policy api env src = Inr loaded \<and>
     mr_policy (main fs ids cwd api env gen doc a) = Some (effective_policy (arg_dry_run a) loaded) \<and>
     (\<exists>ev \<in> handed_events env a (effective_policy (arg_dry_run a) loaded).
        event_pid ev = p \<and> kill_due api (effective_policy (arg_dry_run a) loaded) ev)"
proof -
  consider (gen) f out where "arg_command a = Some (GeneratePolicy f out)" | (doc) "arg_command a = Some Doctor"
    | (watch) q mx cmd where "arg_command a = Some (WatchCommand q mx cmd)" | (mon) "arg_command a = None"
    by (cases "arg_command a"; cases "the (arg_command a)") auto
  then show ?thesis
  proof cases
    case gen
    then show ?thesis
      using assms by (auto simp: main_def split: option.splits prod.splits sum.splits)
  next
    case doc
    then show ?thesis
      using assms by (auto simp: main_def run_doctor_def Let_def split: if_splits)
  next
    case watch
    then have same: "main fs ids cwd api env gen doc a = main_watch fs ids cwd api env (arg_dry_run a) q mx"
      "policy_option a = q"
      "handed_events env a pol = (\<Union>r \<in> {r \<in> set (mn_attempts env). released pol r}. snd ` set (handed r))" for pol
      by (simp_all add: main_def policy_option_def handed_events_def)
    show ?thesis
      using watch_kills [of p fs ids cwd api env "arg_dry_run a" q mx] assms unfolding same by blast
  next
    case mon
    then show ?thesis
      using monitor_kills [of p fs ids cwd api env a] assms
      by (auto simp: main_def policy_option_def handed_events_def)
  qed
qed

text \<open>
  C2. The program kills only for a violation of the policy it was given.  Whatever command is run and
  however the threads interleave, a process on which the killer is called is that of an event which the
  monitor of this run delivered, which the loaded policy does not allow and for which, if it is a system
  call, the deciding rule asks for a kill; the policy file was in enforce mode and \<open>--dry-run\<close> absent.
\<close>

theorem program_kills_violations:
  assumes "p \<in> set (kills (mr_trace (main fs ids cwd api env gen doc a)))"
  shows "\<not> arg_dry_run a \<and>
     (\<exists>src pol. snd (resolve_policy (mn_show_io env) fs ids cwd (policy_option a)) = Inr src \<and>
        load_policy api env src = Inr pol \<and> pol_mode pol = Enforce \<and>
        (\<exists>ev \<in> handed_events env a pol. event_pid ev = p \<and> \<not> event_allowed api pol ev \<and>
           (event_kind ev = Syscall \<longrightarrow> should_kill_on_syscall_deny pol (event_target ev))))"
proof -
  obtain src loaded ev where load: "snd (resolve_policy (mn_show_io env) fs ids cwd (policy_option a)) = Inr src"
      "load_policy api env src = Inr loaded"
    and ev: "ev \<in> handed_events env a (effective_policy (arg_dry_run a) loaded)" "event_pid ev = p"
      "kill_due api (effective_policy (arg_dry_run a) loaded) ev"
    using main_kills [OF assms] by blast
  have "\<not> arg_dry_run a"
    using ev(3) by (auto simp: kill_due_def effective_policy_def force_dry_run_def)
  then show ?thesis
    using load ev by (auto simp: effective_policy_def kill_due_def)
qed

text \<open>
  C8. A dry run is harmless: with \<open>--dry-run\<close> the program never calls the killer, neither as a monitor
  nor as a supervisor, and the policy of its enforcer is the loaded one in monitor mode.
\<close>

theorem dry_run_program:
  assumes "arg_dry_run a"
  shows "kills (mr_trace (main fs ids cwd api env gen doc a)) = [] \<and>
     (mr_policy (main_monitor fs ids cwd api env a) = Some pol \<longrightarrow>
        (\<exists>src loaded. load_policy api env src = Inr loaded \<and> pol = force_dry_run loaded))"
proof
  have "p \<notin> set (kills (mr_trace (main fs ids cwd api env gen doc a)))" for p
    using main_kills [of p fs ids cwd api env gen doc a] assms
    by (auto simp: kill_due_def effective_policy_def force_dry_run_def)
  then show "kills (mr_trace (main fs ids cwd api env gen doc a)) = []"
    by (metis list.set_intros(1) neq_Nil_conv)
  show "mr_policy (main_monitor fs ids cwd api env a) = Some pol \<longrightarrow>
      (\<exists>src loaded. load_policy api env src = Inr loaded \<and> pol = force_dry_run loaded)"
  proof
    assume some: "mr_policy (main_monitor fs ids cwd api env a) = Some pol"
    then obtain pid src loaded es where r: "load_policy api env src = Inr loaded"
      "main_monitor fs ids cwd api env a =
         after_effects es (main_supervise api env pid (effective_policy (arg_dry_run a) loaded))"
      using main_monitor_view [of fs ids cwd api env a] by force
    then have "pol = effective_policy (arg_dry_run a) loaded"
      using main_supervise_cases [of api env pid "effective_policy (arg_dry_run a) loaded"] some by auto
    then show "\<exists>src loaded. load_policy api env src = Inr loaded \<and> pol = force_dry_run loaded"
      using r(1) assms by (auto simp: effective_policy_def)
  qed
qed

text \<open>
  C6. The monitor does its duty on the whole session: when the command ends with status 0, the processes
  on which the killer was called are exactly those of the events for which the policy asks for it, in
  their order, and every event has an entry on arrival and one with the decision that was taken.
\<close>

theorem session_enforced:
  assumes "mr_status (main_monitor fs ids cwd api env a) = Some 0"
    and "mr_policy (main_monitor fs ids cwd api env a) = Some pol"
  shows "kills (mr_trace (main_monitor fs ids cwd api env a)) = map event_pid (filter (kill_due api pol) (session env)) \<and>
     (\<forall>ev \<in> set (session env).
        received_entry ev \<in> set (logged (mr_trace (main_monitor fs ids cwd api env a))) \<and>
        (\<exists>c \<in> set (logged (mr_trace (main_monitor fs ids cwd api env a))). decision_entry api pol ev c))"
proof -
  obtain pid src loaded found mirror where
    mirror: "case arg_log_file a of None \<Rightarrow> mirror = [] | Some f \<Rightarrow> \<exists>ls. mn_open_log env f = Inr ls \<and> mirror = [OpenLog ls]"
    and r: "main_monitor fs ids cwd api env a =
      after_effects (logs found @ mirror @ logs (dry_run_log (arg_dry_run a)))
        (main_supervise api env pid (effective_policy (arg_dry_run a) loaded))"
    using main_monitor_view [of fs ids cwd api env a] assms(1) by auto
  note cases = main_supervise_cases [of api env pid "effective_policy (arg_dry_run a) loaded"]
  have pol: "pol = effective_policy (arg_dry_run a) loaded"
    using cases assms by (auto simp: r)
  have "kills mirror = []"
    using mirror by (auto split: option.splits)
  then have "kills (mr_trace (main_monitor fs ids cwd api env a)) = map event_pid (filter (kill_due api pol) (session env))"
    using cases assms by (auto simp: r pol split: if_splits)
  moreover have "audited api pol (session env) (logged (mr_trace (main_monitor fs ids cwd api env a)))"
    using cases assms by (auto simp: r pol intro: audited_mono split: if_splits)
  ultimately show ?thesis
    by (simp add: audited_def)
qed

section \<open>What the program reports\<close>

lemma main_monitor_reports:
  "mr_status (main_monitor fs ids cwd api env a) = Some s \<Longrightarrow> s \<noteq> 0 \<Longrightarrow>
   s = 1 \<and> has_fatal (mr_trace (main_monitor fs ids cwd api env a))"
proof -
  assume s: "mr_status (main_monitor fs ids cwd api env a) = Some s" "s \<noteq> 0"
  show ?thesis
  proof (cases "mr_status (main_monitor fs ids cwd api env a) = Some 1 \<and> has_fatal (mr_trace (main_monitor fs ids cwd api env a))")
    case True
    then show ?thesis
      using s by simp
  next
    case False
    then obtain pid loaded es where r: "main_monitor fs ids cwd api env a =
         after_effects es (main_supervise api env pid (effective_policy (arg_dry_run a) loaded))"
      using main_monitor_view [of fs ids cwd api env a] by force
    show ?thesis
      using main_supervise_cases [of api env pid "effective_policy (arg_dry_run a) loaded"] s
      by (cases "is_ok (snd (monitor_new (mn_monitor env) pid (effective_policy (arg_dry_run a) loaded)))")
        (auto simp: r split: if_splits)
  qed
qed

lemma main_watch_reports:
  assumes "mr_status (main_watch fs ids cwd api env dry policy mx) = Some s" "s \<noteq> 0"
  shows "s = 1 \<and> has_fatal (mr_trace (main_watch fs ids cwd api env dry policy mx))"
proof -
  obtain found res where src: "resolve_policy (mn_show_io env) fs ids cwd policy = (found, res)"
    by fastforce
  then show ?thesis
    using assms resolve_logs [of "mn_show_io env" fs ids cwd policy found]
    by (auto simp: main_watch_def Let_def split: sum.splits option.splits prod.splits)
qed

text \<open>
  C37. The process never ends in silence: a status other than 0 comes with a fatal entry in the log or,
  for \<open>doctor\<close>, with an error among the printed checks; and the status is always 0 or 1.
\<close>

theorem failure_is_reported:
  assumes "mr_status (main fs ids cwd api env gen doc a) = Some s" and "s \<noteq> 0"
  shows "s = 1 \<and>
     (has_fatal (mr_trace (main fs ids cwd api env gen doc a)) \<or>
      (\<exists>l. [CHR 0xE2, CHR 0x9C, CHR 0x97] @ '' '' @ l \<in> set (mr_printed (main fs ids cwd api env gen doc a))))"
proof -
  consider (gen) f out where "arg_command a = Some (GeneratePolicy f out)" | (doc) "arg_command a = Some Doctor"
    | (watch) q mx cmd where "arg_command a = Some (WatchCommand q mx cmd)" | (mon) "arg_command a = None"
    by (cases "arg_command a"; cases "the (arg_command a)") auto
  then show ?thesis
  proof cases
    case gen
    then show ?thesis
      using assms by (auto simp: main_def split: option.splits prod.splits sum.splits)
  next
    case doc
    then show ?thesis
      using assms
      by (auto simp: main_def collect_doctor_report_def run_doctor_def collect_doctor_report_with_def
          check_def check_lines_def check_prefix_def Let_def split: sum.splits prod.splits if_splits)
  next
    case watch
    then show ?thesis
      using assms main_watch_reports [of fs ids cwd api env "arg_dry_run a" q mx s] by (simp add: main_def)
  next
    case mon
    then show ?thesis
      using assms main_monitor_reports [of fs ids cwd api env a s] by (simp add: main_def)
  qed
qed

section \<open>When the program ends\<close>

text \<open>
  C39. \<open>generate-policy\<close> ends exactly when the reading of its log does: an error of a read is logged and the
  loop goes on, so a log on which every read fails (a directory, say) keeps the command busy for ever,
  while any log that has an end leads to a status, which is 0 exactly when the policy was written.
\<close>

theorem generate_policy_ends:
  assumes "arg_command a = Some (GeneratePolicy f out)"
  shows "(mr_status (main fs ids cwd api env gen doc a) = None \<longleftrightarrow>
       (\<exists>items. open_file gen f = Inr items \<and> (\<forall>k. items k \<noteq> None))) \<and>
     (mr_status (main fs ids cwd api env gen doc a) = Some 0 \<longleftrightarrow>
       (\<exists>said text. run_generator gen f out = Some (said, Some text, Inr ()) \<and> write_file gen out text = Inr ()))"
proof (cases "open_file gen f")
  case (Inl e)
  then show ?thesis
    using assms by (auto simp: main_def run_generator_def)
next
  case (Inr items)
  show ?thesis
  proof (cases "read_lines gen items 0 empty_gen_state")
    case None
    then show ?thesis
      using assms Inr read_lines_ends [of gen items empty_gen_state] by (simp add: main_def run_generator_def)
  next
    case (Some st)
    then show ?thesis
      using assms Inr read_lines_ends [of gen items empty_gen_state]
      by (auto simp: main_def run_generator_def write_policy_def Let_def split: sum.split)
  qed
qed

section \<open>What the log file receives\<close>

text \<open>A monitor that ends with status 0 has logged its session, and with a log file mirrored it there.\<close>

lemma monitor_mirrors:
  assumes "mr_status (main_monitor fs ids cwd api env a) = Some 0"
    and "arg_log_file a = Some f" and "mn_open_log env f = Inr ls"
  obtains n es where
    "log_file (perform json clock 0 (mr_trace (main_monitor fs ids cwd api env a)) st) =
       Some (ls @ map (log_line json) (stamped clock n es))"
    "set es \<subseteq> set (mr_trace (main_monitor fs ids cwd api env a))"
    "received_entry ` set (session env) \<subseteq> set (logged es)"
    "\<exists>es0. mr_trace (main_monitor fs ids cwd api env a) = es0 @ es \<and> n = length es0"
proof -
  obtain pid src loaded found where
    r: "main_monitor fs ids cwd api env a =
      after_effects (logs found @ [OpenLog ls] @ logs (dry_run_log (arg_dry_run a)))
        (main_supervise api env pid (effective_policy (arg_dry_run a) loaded))"
    using main_monitor_view [of fs ids cwd api env a] assms by auto
  define es where "es = logs (dry_run_log (arg_dry_run a)) @
    mr_trace (main_supervise api env pid (effective_policy (arg_dry_run a) loaded))"
  have trace: "mr_trace (main_monitor fs ids cwd api env a) = logs found @ OpenLog ls # es"
    by (simp add: r es_def)
  have status: "mr_status (main_supervise api env pid (effective_policy (arg_dry_run a) loaded)) = Some 0"
    using assms(1) by (simp add: r)
  have es: "\<not> opens_log es" "received_entry ` set (session env) \<subseteq> set (logged es)"
    using main_supervise_cases [of api env pid "effective_policy (arg_dry_run a) loaded"] status
    by (auto simp: es_def audited_def split: if_splits)
  show ?thesis
    by (rule that [of "length (logs found) + 1" es])
      (use es(2) in \<open>auto simp: trace perform_opened [OF es(1)] intro!: exI [of _ "logs found @ [OpenLog ls]"]\<close>)
qed

section \<open>Examples\<close>

definition example_main :: "(unit, string, unit, unit) main_env" where
  "example_main =
     \<lparr>mn_yaml = (\<lambda>_. Inr (test_raw ''enforce'')), mn_read_file = (\<lambda>_. Inr []), mn_show_yaml = (\<lambda>_. ''yaml''),
      mn_show_regex = id, mn_text = example_text, mn_debug_path = id, mn_open_log = (\<lambda>_. Inr []),
      mn_monitor = example_env, mn_evict = (\<lambda>_. Inr {}), mn_rounds = [example_round [encode_event stray_record],
        \<lparr>round_closed = True, round_poll = PollTimeout, round_items = []\<rparr>],
      mn_kill = (\<lambda>_ _. Inr ()), mn_seen = 0, mn_gone = False, mn_join_error = ''panic'', mn_sigint = Inr (),
      mn_sigterm = Inr (), mn_select = SigtermFirst, mn_flags = new_flags, mn_attempts = []\<rparr>"

definition example_args :: args where
  "example_args = \<lparr>arg_pid = Some 42, arg_policy = Some ''p.yaml'', arg_log_file = Some ''session'',
                   arg_dry_run = False, arg_command = None\<rparr>"

lemma example_loads: "load_policy mini_api example_main src = Inr (test_policy Enforce)"
proof -
  have "from_utf8 [] = Some []"
    by code_simp
  then have "load mini_api (\<lambda>_. Inr (test_raw ''enforce'')) (\<lambda>_. Inr []) p = Inr (test_policy Enforce)" for p
    using test_policy_loads [of Enforce "[]"] by (simp add: load_def and_then_def mode_name_def)
  then show ?thesis
    by (simp add: load_policy_def example_main_def)
qed

lemma resolve_given: "p \<noteq> [] \<Longrightarrow> resolve_policy show_io fs ids cwd (Some p) = ([], Inr (Given p))"
  by (simp add: resolve_policy_def saying_def)

lemma example_main_simps [simp]:
  "mn_monitor example_main = example_env" "mn_sigint example_main = Inr ()" "mn_sigterm example_main = Inr ()"
  "mn_open_log example_main f = Inr []" "mn_flags example_main = new_flags" "mn_select example_main = SigtermFirst"
  by (simp_all add: example_main_def)

lemma example_start:
  "\<exists>c l. monitor_start example_env (mn_evict example_main) (mn_rounds example_main) no_caches =
     (StartReturned (Inr ()), c, [(l, stray_event)])"
  by (simp add: example_main_def example_round_def monitor_start_def example_events_map start_of_def stray_handled)

lemma example_session: "session example_main = [stray_event]"
  using example_start by (auto simp: session_def deliveries_def)

lemma example_main_run:
  "main_monitor fs ids cwd mini_api example_main example_args =
     after_effects [OpenLog []] (main_supervise mini_api example_main 42 (test_policy Enforce))"
  by (simp add: main_monitor_def example_args_def resolve_given example_loads effective_policy_def dry_run_log_def)

lemma example_kills: "kills (mr_trace (main_monitor fs ids cwd mini_api example_main example_args)) = [43]"
  using supervise_kills [of example_main 42 "test_policy Enforce" mini_api]
  by (simp add: example_main_run example_builds example_session stray_due) (simp add: stray_event_def)

lemma example_status: "mr_status (main_monitor fs ids cwd mini_api example_main example_args) = Some 0"
proof -
  obtain building m where new: "monitor_new example_env 42 (test_policy Enforce) = (building, Inr m)"
    using example_builds [of "test_policy Enforce"] by (metis is_ok_obtain prod.collapse)
  then have "mb_caches m = no_caches"
    using built_caches [of example_env 42 "test_policy Enforce" m] by simp
  then show ?thesis
    using example_start after_select_facts(4) [of example_main 42 "StartReturned (Inr ())"]
    by (auto simp: example_main_run main_supervise_def new Let_def split_beta ends_well_def)
qed

lemma monitor_command: "arg_command a = None \<Longrightarrow> main fs ids cwd api env gen doc a = main_monitor fs ids cwd api env a"
  by (simp add: main_def)

abbreviation root_ids :: user_ids where
  "root_ids \<equiv> \<lparr>ui_euid = 0, ui_sudo_uid = None\<rparr>"

lemma example_policy: "mr_policy (main_monitor fs ids cwd mini_api example_main example_args) = Some (test_policy Enforce)"
  using main_supervise_cases [of mini_api example_main 42 "test_policy Enforce"]
  by (simp add: example_main_run example_builds)

theorem session_enforced_witness:
  "\<exists>c \<in> set (logged (mr_trace (main_monitor example_fs root_ids [] mini_api example_main example_args))).
     decision_entry mini_api (test_policy Enforce) stray_event c"
  using session_enforced [OF example_status example_policy, of example_fs root_ids "[]"] by (simp add: example_session)

theorem main_monitor_success_witness:
  "\<exists>m. snd (monitor_new example_env 42 (test_policy Enforce)) = Inr m"
proof -
  obtain pid src loaded m where
    "arg_pid example_args = Some pid" "load_policy mini_api example_main src = Inr loaded"
    "snd (monitor_new (mn_monitor example_main) pid (effective_policy (arg_dry_run example_args) loaded)) = Inr m"
    using main_monitor_success [OF example_status [of example_fs root_ids "[]"]] by auto
  then show ?thesis
    by (auto simp: example_loads example_args_def effective_policy_def)
qed

theorem program_kills_violations_witness:
  "\<not> event_allowed mini_api (test_policy Enforce) stray_event"
proof -
  have "43 \<in> set (kills (mr_trace (main example_fs root_ids [] mini_api example_main (small_env quiet_policy) example_doctor example_args)))"
    by (subst monitor_command) (simp_all add: example_kills, simp add: example_args_def)
  from program_kills_violations [OF this] show ?thesis
    by (auto simp: example_loads handed_events_def example_session example_args_def)
qed

theorem dry_run_program_witness:
  "kills (mr_trace (main example_fs root_ids [] mini_api example_main (small_env quiet_policy) example_doctor
     (example_args\<lparr>arg_dry_run := True\<rparr>))) = []"
  by (rule dry_run_program [THEN conjunct1]) simp

theorem failure_is_reported_witness:
  "\<exists>l. [CHR 0xE2, CHR 0x9C, CHR 0x97] @ '' '' @ l \<in> set (mr_printed
     (main example_fs root_ids [] mini_api example_main (small_env quiet_policy) example_doctor
        (example_args\<lparr>arg_command := Some Doctor\<rparr>)))"
proof -
  let ?m = "main example_fs root_ids [] mini_api example_main (small_env quiet_policy) example_doctor
      (example_args\<lparr>arg_command := Some Doctor\<rparr>)"
  have run: "?m = run_doctor (collect_doctor_report 0 example_doctor)"
    by (simp add: main_def)
  have "mr_status (run_doctor (collect_doctor_report 0 example_doctor) :: re_node list main_result) = Some 1"
    and "mr_trace (run_doctor (collect_doctor_report 0 example_doctor) :: re_node list main_result) = []"
    by (simp_all add: run_doctor_def collect_doctor_report_def collect_doctor_report_with_def Let_def
        example_doctor_def doctor_check_ebpf_def)
  with failure_is_reported [of example_fs root_ids "[]" mini_api example_main "small_env quiet_policy" example_doctor
      "example_args\<lparr>arg_command := Some Doctor\<rparr>" 1]
  show ?thesis
    unfolding run by simp
qed

text \<open>A log whose reads all fail, as those of a directory do.\<close>

theorem generate_policy_ends_witness:
  "mr_status (main example_fs root_ids [] mini_api example_main
     ((small_env quiet_policy)\<lparr>open_file := (\<lambda>_. Inr (\<lambda>_. Some (Inl (IoError OtherKind ''Is a directory''))))\<rparr>)
     example_doctor (example_args\<lparr>arg_command := Some (GeneratePolicy ''/var/log'' ''out'')\<rparr>)) = None"
  by (subst generate_policy_ends [THEN conjunct1]) simp_all

end
