(* ===== verification/Reactive_Mode.thy ===== *)
theory Reactive_Mode
  imports Monitor_Paths Program
begin

text \<open>
  The reactive mode end to end: from the record of a tracing program through the event loop and the
  enforcer to the end of the supervision and the exit status of the program.
\<close>

lemma killed_delivery:
  assumes "ev \<in> snd ` set (handed a)" and "kill_due api pol ev" and "\<forall>i. at_kill a i (event_pid ev) = Inr ()"
    and "length (handed a) \<le> at_seen a"
  shows "recorded_kill api pol a"
proof -
  obtain j where "j < length (handed a)" "snd (handed a ! j) = ev"
    using assms(1) by (auto simp: in_set_conv_nth)
  then show ?thesis
    using assms(2-) by (auto simp: recorded_kill_def killed_at_def intro!: exI [of _ j])
qed

text \<open>
  C3. The chain of the reactive mode holds from end to end.  A task of the supervised agent opens a
  file that the policy, in enforce mode, does not let it read; the record reaches a live round of the
  event loop of its monitor; the kill succeeds, the handlers return before the wait does, and the agent
  ends by a signal.  Then the program kills the task, \<open>watch::run\<close> returns \<open>PolicyViolationHalt\<close> in that
  round, whatever restarts are left, and \<open>syscallcage watch\<close> ends with status 1.
\<close>

theorem open_violation_ends_watch:
  assumes opened: "is_monitored st (tgid_of (tc_pid_tgid ctx))" "tc_room ctx" "tc_arg ctx 1 = Some p"
      "reads_str ctx p path" "EVENTS (handle_open ctx st) = EVENTS st @ [rec]"
    and read: "encode_event rec \<in> set (concat (map items_of (takeWhile live_round (at_rounds a))))"
      "is_ok (open_map (at_monitor a) ''EVENTS'')"
    and denied: "\<not> path_allowed api pol path False" "pol_mode pol = Enforce"
    and killed: "\<forall>i. at_kill a i (tgid_of (tc_pid_tgid ctx)) = Inr ()" "length (handed a) \<le> at_seen a"
    and agent: "released pol a" "at_wait a = Inr (Signaled sig)"
    and command: "arg_command args = Some (WatchCommand policy mx cmd)" "\<not> arg_dry_run args"
      "resolve_policy (mn_show_io env) fs ids cwd policy = (found, Inr src)" "load_policy api env src = Inr pol"
      "mn_attempts env = a # as"
  shows "snd (run api (mn_text env) pol mx n (a # as)) = Some (Inl PolicyViolationHalt) \<and>
     tgid_of (tc_pid_tgid ctx) \<in> set (kills (mr_trace (main fs ids cwd api env gen doc args))) \<and>
     mr_status (main fs ids cwd api env gen doc args) = Some 1"
proof -
  let ?ev = "\<lparr>event_pid = tgid_of (tc_pid_tgid ctx), event_kind = Read, event_target = path, event_resolved = False\<rparr>"
  have handed: "?ev \<in> snd ` set (handed a)"
    unfolding handed_def by (rule delivered [OF read(1) open_record [OF opened] read(2)])
  have due: "kill_due api pol ?ev"
    using denied by (simp add: kill_due_def event_allowed_def)
  have halt: "snd (run api (mn_text env) pol mx m (a # as)) = Some (Inl PolicyViolationHalt)" for m
    using killed_delivery [OF handed due] killed agent(2) by (intro kill_halts [OF agent(1)]) simp_all
  have "tgid_of (tc_pid_tgid ctx) \<in> set (kills (fst (supervise_once api (mn_text env) pol mx 0 a)))"
    using handed due by (force simp: supervise_released(2) [OF agent(1)])
  then have "tgid_of (tc_pid_tgid ctx) \<in> set (kills (fst (run api (mn_text env) pol mx 0 (a # as))))"
    by simp
  then show ?thesis
    using command halt [of 0] halt [of n]
    by (simp add: main_def main_watch_def effective_policy_def Let_def split_beta del: run_Cons)
qed

section \<open>An example\<close>

lemma passwd_denied: "\<not> path_allowed mini_api (test_policy Enforce) ''/etc/passwd'' False"
  by code_simp

definition watch_args :: args where
  "watch_args = example_args\<lparr>arg_command := Some (WatchCommand (Some ''p.yaml'') (Some 3) [''agent''])\<rparr>"

theorem open_violation_ends_watch_witness:
  "\<exists>attempt. mr_status (main example_fs root_ids [] mini_api (example_main\<lparr>mn_attempts := [attempt]\<rparr>)
     (small_env quiet_policy) example_doctor watch_args) = Some 1"
proof -
  let ?ctx = "call_ctx ''/etc/passwd''" and ?pol = "test_policy Enforce"
  obtain rec where rec: "EVENTS (handle_open ?ctx example_start) = EVENTS example_start @ [rec]"
    using open_emits [OF call_ctx_monitored, of "''/etc/passwd''" 64] by (auto simp: call_ctx_def)
  let ?a = "example_attempt (Signaled 9) [encode_event rec] 1"
  let ?env = "example_main\<lparr>mn_attempts := [?a]\<rparr>"
  have reads: "reads_str ?ctx 64 ''/etc/passwd''"
    by (rule call_ctx_reads) simp_all
  have one: "length (handed ?a) \<le> 1"
    by (auto simp: handed_def deliveries_def monitor_start_def example_attempt_def example_events_map example_round_def
        split: run.split option.split)
  have loads: "load_policy mini_api ?env (Given ''p.yaml'') = Inr ?pol"
    using example_loads [of "Given ''p.yaml''"] by (simp add: load_policy_def)
  have "mr_status (main example_fs root_ids [] mini_api ?env (small_env quiet_policy) example_doctor watch_args) = Some 1"
  proof (rule open_violation_ends_watch [OF call_ctx_monitored _ _ reads rec _ _ passwd_denied _ _ _ example_released _
        _ _ resolve_given loads, THEN conjunct2, THEN conjunct2])
    show "encode_event rec \<in> set (concat (map items_of (takeWhile live_round (at_rounds ?a))))"
      by (simp add: live_round_def items_of_def example_attempt_def example_round_def)
    show "length (handed ?a) \<le> at_seen ?a"
      using one by (simp add: example_attempt_def)
  qed (simp_all add: call_ctx_def example_attempt_def example_events_map watch_args_def example_args_def test_policy_def)
  then show ?thesis by blast
qed

end
