(* ===== verification/Kill_Scope.thy ===== *)
theory Kill_Scope
  imports Program Ebpf_System
begin

text \<open>
  Whom the kills can reach.  One run of the eBPF object is followed together with two histories: the
  target and the tasks that the fork tracepoint reports as started, through any chain, by it, and the
  records that user space has taken out of the ring buffer.  What the monitors of a command read is what
  was taken in such a run, so that a kill never leaves the family of a target.
\<close>

section \<open>A run with its histories\<close>

text \<open>The children that a call reports for the members of a family.\<close>

fun offspring :: "u32 set \<Rightarrow> bpf_state \<Rightarrow> kernel_call \<Rightarrow> u32 set" where
  "offspring family st (CallFork victims ctx) = {c. \<exists>p \<in> family. reports ctx st (Forked p c)}"
| "offspring family st _ = {}"

record ring_run =
  rr_maps :: bpf_state
  rr_family :: "u32 set"
  rr_taken :: "bpf_event list"

inductive ring_step :: "ring_run \<Rightarrow> ring_run \<Rightarrow> bool" where
  ring_call: "good_call c \<Longrightarrow>
    ring_step r (r\<lparr>rr_maps := run_call c (rr_maps r),
                   rr_family := rr_family r \<union> offspring (rr_family r) (rr_maps r) c\<rparr>)"
| ring_taken: "EVENTS (rr_maps r) = e # es \<Longrightarrow>
    ring_step r (r\<lparr>rr_maps := drain (rr_maps r), rr_taken := rr_taken r @ [e]\<rparr>)"
| ring_learned: "length host = 256 \<Longrightarrow>
    ring_step r (r\<lparr>rr_maps := learn_domain victims ip host (rr_maps r)\<rparr>)"

definition ring_inv :: "ring_run \<Rightarrow> bool" where
  "ring_inv r \<longleftrightarrow> kernel_inv (rr_maps r, rr_family r) \<and> list_all (event_ok (rr_family r)) (rr_taken r)"

definition ring_init :: "ring_run \<Rightarrow> bool" where
  "ring_init r \<longleftrightarrow> kernel_init (rr_maps r, rr_family r) \<and> rr_taken r = []"

text \<open>Only the fork program adds a task, and only a child of a monitored one.\<close>

lemma monitored_trace:
  "monitored (handle_open ctx st) = monitored st" "monitored (handle_execve ctx st) = monitored st"
  "monitored (handle_ptrace ctx st) = monitored st" "monitored (handle_sendto v ctx st) = monitored st"
  "monitored (handle_enter_recvfrom w ctx st) = monitored st" "monitored (handle_exit_recvfrom ctx st) = monitored st"
  by (simp_all add: monitored_def handle_open_def handle_execve_def handle_ptrace_def handle_sendto_def
      handle_enter_recvfrom_def handle_exit_recvfrom_def Let_def split: option.split)

lemma monitored_connect: "monitored (handle_connect v ctx st) = monitored st"
  by (simp add: monitored_def handle_connect_def Let_def split: option.split)

lemma monitored_lsm:
  "monitored (after (lsm_file_open lctx st)) = monitored st" "monitored (after (lsm_exec_check lctx st)) = monitored st"
  by (simp_all add: monitored_def lsm_file_open_def lsm_exec_check_def refuse_fs_def
      report_fs_event_def report_exec_event_def Let_def split: option.split prod.split)

lemma monitored_exit: "monitored (handle_exit ctx st) \<subseteq> monitored st"
  by (auto simp: monitored_def handle_exit_def is_monitored_def map_remove_def Let_def)

lemma monitored_fork:
  assumes "monitored st \<subseteq> family"
  shows "monitored (handle_fork v ctx st) \<subseteq> family \<union> offspring family st (CallFork v ctx)"
  using assms
  by (auto simp: monitored_def handle_fork_def is_monitored_def lru_insert_def reports_def offset_or_def Let_def
      split: option.splits if_splits)

lemma monitored_call:
  assumes "monitored st \<subseteq> family"
  shows "monitored (run_call c st) \<subseteq> family \<union> offspring family st c"
  using assms monitored_fork [OF assms]
  by (cases c) (auto simp: monitored_trace monitored_connect monitored_lsm dest: subsetD [OF monitored_exit])

lemma events_fork: "EVENTS (handle_fork v ctx st) = EVENTS st"
  by (simp add: handle_fork_def Let_def)

interpretation ring: step_system ring_init ring_step ring_inv
proof
  show "ring_init r \<Longrightarrow> ring_inv r" for r
    using kernel.init_inv by (simp add: ring_init_def ring_inv_def)
  show "ring_step r r' \<Longrightarrow> ring_inv r \<Longrightarrow> ring_inv r'" for r r'
  proof (induction rule: ring_step.induct)
    case (ring_call c r)
    let ?new = "offspring (rr_family r) (rr_maps r) c"
    have "kernel_inv (run_call c (rr_maps r), rr_family r \<union> monitored (run_call c (rr_maps r)) \<union> (rr_family r \<union> ?new))"
      using ring_call by (intro inv_mono run_call_inv) (simp_all add: ring_inv_def)
    moreover have "monitored (run_call c (rr_maps r)) \<subseteq> rr_family r \<union> ?new"
      using ring_call.prems by (intro monitored_call) (simp add: ring_inv_def kernel_inv_def)
    then have "rr_family r \<union> monitored (run_call c (rr_maps r)) \<union> (rr_family r \<union> ?new) = rr_family r \<union> ?new"
      by blast
    ultimately show ?case
      using ring_call.prems by (simp add: ring_inv_def events_ok_mono)
  next
    case (ring_taken r e es)
    then have "kernel_inv (drain (rr_maps r), rr_family r)"
      using kernel.step_inv [OF kernel_step.drained] by (simp add: ring_inv_def)
    then show ?case
      using ring_taken by (auto simp: ring_inv_def kernel_inv_def)
  next
    case (ring_learned host r victims ip)
    then show ?case
      using kernel.step_inv [OF kernel_step.learned] by (simp add: ring_inv_def)
  qed
qed

section \<open>Where a monitor starts\<close>

definition ring_start :: "monitor_built \<Rightarrow> u32 \<Rightarrow> ring_run" where
  "ring_start m target = \<lparr>rr_maps = mb_maps m, rr_family = {target}, rr_taken = []\<rparr>"

lemma built_ring:
  assumes "snd (monitor_new env target pol) = Inr m" and "complete_object env"
  shows "ring_init (ring_start m target)"
proof -
  let ?st0 = "set_offsets env (initial_maps\<lparr>MONITORED_PIDS := map_insert Map.empty target 1\<rparr>)"
  have start: "kernel_init (?st0, {target})"
    by (auto simp: kernel_init_def set_offsets_def initial_maps_def monitored_def is_monitored_def map_insert_def
        split: prod.split if_splits)
  then have "kernel_init (populate_maps pol c ?st0, {target})" for c
    by (simp add: kernel_init_def populate_maps_def monitored_def is_monitored_def)
  with start show ?thesis
    using monitor_new_steps [OF assms(1)] attach_sync_Inr [OF _ assms(2)]
    by (metis (no_types, lifting) ring_init_def ring_start_def ring_run.select_convs)
qed

section \<open>From the ring to the killer\<close>

text \<open>The records that a run of the event loop reads.\<close>

definition items_read :: "round list \<Rightarrow> u8 list list" where
  "items_read rounds = concat (map items_of (takeWhile live_round rounds))"

lemma event_pid_of: "handle_event evict be c = Returned (c', Some ev) \<Longrightarrow> event_pid ev = ev_pid be"
  by (auto simp: handle_event_def Let_def split: option.splits if_splits run.splits prod.splits)

lemma handle_items_pids:
  assumes "handle_items evict (map encode_event es) c = Returned (c', ds)"
    and "\<forall>e \<in> set es. length (ev_target e) = 256"
  shows "event_pid ` snd ` set ds \<subseteq> ev_pid ` set es"
  using assms
proof (induction es arbitrary: c ds)
  case (Cons e es)
  then obtain c1 ev ds1 where
    "handle_event evict e c = Returned (c1, ev)" "handle_items evict (map encode_event es) c1 = Returned (c', ds1)"
    "ds = (case ev of None \<Rightarrow> ds1 | Some x \<Rightarrow> (item_log evict (encode_event e), x) # ds1)"
    by (auto simp: handle_item_def decode_encode split: run.splits)
  then show ?case
    using Cons.IH [of c1 ds1] Cons.prems(2) event_pid_of by (fastforce split: option.splits)
qed simp

lemma deliveries_pids:
  assumes "items_read rounds = map encode_event es" and "\<forall>e \<in> set es. length (ev_target e) = 256"
  shows "event_pid ` snd ` set (deliveries mon evict rounds c) \<subseteq> ev_pid ` set es"
proof -
  obtain c' ds where "handle_items evict (items_read rounds) c = Returned (c', ds)"
    "event_loop evict rounds c = (end_of rounds, c', ds)"
    using event_loop_pass [of evict rounds c] unfolding items_read_def by blast
  then show ?thesis
    using handle_items_pids [OF _ assms(2)] assms(1)
    by (auto simp: deliveries_def monitor_start_def split: sum.split)
qed

text \<open>The monitors of a command: the target, the environment of the construction, and the rounds of the loop.\<close>

type_synonym 'b watched = "u32 \<times> 'b monitor_env \<times> round list"

definition monitors :: "('y, 'e, 'n, 'b) main_env \<Rightarrow> args \<Rightarrow> 're policy \<Rightarrow> 'b watched set" where
  "monitors env a pol =
     (case arg_command a of
        None \<Rightarrow> {(target, mn_monitor env, mn_rounds env) | target. arg_pid a = Some target}
      | Some (WatchCommand policy max_restarts command) \<Rightarrow>
          {(target, at_monitor r, at_rounds r) | r target. r \<in> set (mn_attempts env) \<and> released pol r \<and> at_fork r = Inr target}
      | Some _ \<Rightarrow> {})"

text \<open>A monitor reads, in their order, the records taken in a run that starts with its own maps.\<close>

definition reads_ring :: "'re policy \<Rightarrow> 'b watched \<Rightarrow> u32 set \<Rightarrow> bool" where
  "reads_ring pol = (\<lambda>(target, mon, rounds) family.
     \<forall>m. snd (monitor_new mon target pol) = Inr m \<longrightarrow>
       (\<exists>r. ring_step\<^sup>*\<^sup>* (ring_start m target) r \<and> rr_family r = family \<and>
          items_read rounds = map encode_event (rr_taken r)))"

lemma family_deliveries:
  assumes "reads_ring pol (target, mon, rounds) family" and "complete_object mon"
    and "is_ok (snd (monitor_new mon target pol))"
  shows "event_pid ` snd ` set (deliveries mon evict rounds c) \<subseteq> family"
proof -
  obtain m r where run: "snd (monitor_new mon target pol) = Inr m" "ring_step\<^sup>*\<^sup>* (ring_start m target) r"
    "rr_family r = family" "items_read rounds = map encode_event (rr_taken r)"
    using assms(1,3) by (auto simp: reads_ring_def dest!: is_ok_obtain)
  have "\<forall>e \<in> set (rr_taken r). ev_pid e \<in> family \<and> length (ev_target e) = 256"
    using ring.reachable_inv [OF built_ring [OF run(1) assms(2)] run(2)] run(3)
    by (auto simp: ring_inv_def list_all_iff event_ok_def)
  then show ?thesis
    using deliveries_pids [OF run(4), of mon evict c] by fastforce
qed

lemma supervised_target:
  assumes "mr_policy (main_monitor fs ids cwd api env a) = Some pol"
  shows "\<exists>target. arg_pid a = Some target \<and> is_ok (snd (monitor_new (mn_monitor env) target pol))"
proof -
  obtain target loaded before where view: "arg_pid a = Some target"
    "main_monitor fs ids cwd api env a =
       after_effects before (main_supervise api env target (effective_policy (arg_dry_run a) loaded))"
    using main_monitor_view [of fs ids cwd api env a] assms by auto
  then have "mr_policy (main_supervise api env target (effective_policy (arg_dry_run a) loaded)) = Some pol"
    using assms by simp
  then show ?thesis
    using main_supervise_cases [of api env target "effective_policy (arg_dry_run a) loaded"] view(1) by auto
qed

text \<open>
  C4. No kill leaves the family of a target.  Whatever command is run, whatever calls the kernel makes
  of the programs in whatever order, and whatever user space writes meanwhile: when each monitor that the
  command has built reads what was taken from its ring buffer, a process on which the killer is called is
  the target of such a monitor or was reported, through a chain of forks, as started by it.
\<close>

theorem kills_stay_in_family:
  assumes "p \<in> set (kills (mr_trace (main fs ids cwd api env gen doc a)))"
    and "mr_policy (main fs ids cwd api env gen doc a) = Some pol"
    and "\<forall>w \<in> monitors env a pol. complete_object (fst (snd w)) \<and> reads_ring pol w (family w)"
  shows "\<exists>w \<in> monitors env a pol. p \<in> family w"
proof -
  obtain ev where ev: "ev \<in> handed_events env a pol" "event_pid ev = p"
    using main_kills [OF assms(1)] assms(2) by auto
  consider (mon) "arg_command a = None" | (watch) q mx cmd where "arg_command a = Some (WatchCommand q mx cmd)"
    using ev(1) by (auto simp: handed_events_def split: option.splits subcommand.splits)
  then show ?thesis
  proof cases
    case mon
    then obtain target where t: "arg_pid a = Some target" "is_ok (snd (monitor_new (mn_monitor env) target pol))"
      using supervised_target assms(2) by (fastforce simp: main_def)
    then have "(target, mn_monitor env, mn_rounds env) \<in> monitors env a pol"
      using mon by (simp add: monitors_def)
    then show ?thesis
      using family_deliveries [OF _ _ t(2), of "mn_rounds env" "family (target, mn_monitor env, mn_rounds env)"] assms(3)
        ev mon by (fastforce simp: handed_events_def session_def)
  next
    case watch
    then obtain r where r: "r \<in> set (mn_attempts env)" "released pol r" "ev \<in> snd ` set (handed r)"
      using ev(1) by (auto simp: handed_events_def)
    then obtain target where t: "at_fork r = Inr target" "is_ok (snd (monitor_new (at_monitor r) target pol))"
      by (auto simp: released_def)
    then have "(target, at_monitor r, at_rounds r) \<in> monitors env a pol"
      using watch r by (auto simp: monitors_def)
    then show ?thesis
      using family_deliveries [OF _ _ t(2), of "at_rounds r" "family (target, at_monitor r, at_rounds r)"] assms(3)
        ev(2) r(3) by (fastforce simp: handed_def)
  qed
qed

section \<open>An example\<close>

text \<open>The target 42 forks 43, which opens a file; the policy does not allow the access.\<close>

lemma built_offsets:
  assumes "snd (monitor_new example_env 42 pol) = Inr m"
  shows "reports (task_ctx [12 \<mapsto> 42, 20 \<mapsto> 43]) (mb_maps m) (Forked p c) \<longleftrightarrow> p = 42 \<and> c = 43"
proof -
  let ?st0 = "set_offsets example_env (initial_maps\<lparr>MONITORED_PIDS := map_insert Map.empty 42 1\<rparr>)"
  have start: "OFFSETS ?st0 1 = Some 12" "OFFSETS ?st0 2 = Some 20"
    by (simp_all add: set_offsets_def example_env_def fork_offsets_def map_insert_def)
  moreover have "OFFSETS (populate_maps pol d ?st0) = OFFSETS ?st0" for d
    by (simp add: populate_maps_def)
  ultimately have "OFFSETS (mb_maps m) 1 = Some 12 \<and> OFFSETS (mb_maps m) 2 = Some 20"
    using monitor_new_steps [OF assms] attach_sync_Inr [OF _ example_complete] by metis
  then show ?thesis
    by (auto simp: reports_def offset_or_def task_ctx_def)
qed

definition child_ctx :: trace_ctx where
  "child_ctx = (task_ctx Map.empty)\<lparr>tc_pid_tgid := 0x2B0000002B, tc_arg := \<lambda>_. Some 64\<rparr>"

lemma example_reads_ring: "reads_ring (test_policy Enforce) (42, example_env, mn_rounds example_main) {42, 43}"
proof -
  have "\<exists>r. ring_step\<^sup>*\<^sup>* (ring_start m 42) r \<and> rr_family r = {42, 43} \<and> rr_taken r = [stray_record]"
    if built: "snd (monitor_new example_env 42 (test_policy Enforce)) = Inr m" for m
  proof -
    let ?st = "mb_maps m" and ?fork = "task_ctx [12 \<mapsto> 42, 20 \<mapsto> 43]"
    let ?st1 = "handle_fork {} ?fork ?st"
    let ?st2 = "handle_open child_ctx ?st1"
    have "ring_init (ring_start m 42)"
      by (rule built_ring [OF built example_complete])
    then have init: "EVENTS ?st = []" "is_monitored ?st 42"
      by (auto simp: ring_init_def ring_start_def kernel_init_def monitored_def)
    have fork: "is_monitored ?st1 43" "EVENTS ?st1 = []"
      using init on_fork [of ?fork ?st 42 43 "{}" 43]
      by (simp_all add: built_offsets [OF built] on_task_def events_fork)
    have "tgid_of (tc_pid_tgid child_ctx) = 43"
      by (simp add: child_ctx_def tgid_of_def drop_bit_eq_div)
    then have opened: "EVENTS ?st2 = [stray_record]"
      using fork by (simp add: handle_open_def child_ctx_def task_ctx_def stray_record_def zeros_def)
    have good: "good_call (CallFork {} ?fork)" "good_call (CallOpen child_ctx)"
      by (simp_all add: good_trace_def task_ctx_def child_ctx_def)
    have "ring_step (ring_start m 42) \<lparr>rr_maps = ?st1, rr_family = {42, 43}, rr_taken = []\<rparr>"
      using ring_call [OF good(1), of "ring_start m 42"]
      by (simp add: ring_start_def built_offsets [OF built] insert_commute)
    moreover have "ring_step \<lparr>rr_maps = ?st1, rr_family = {42, 43}, rr_taken = []\<rparr>
        \<lparr>rr_maps = ?st2, rr_family = {42, 43}, rr_taken = []\<rparr>"
      using ring_call [OF good(2), of "\<lparr>rr_maps = ?st1, rr_family = {42, 43}, rr_taken = []\<rparr>"] by simp
    moreover have "ring_step \<lparr>rr_maps = ?st2, rr_family = {42, 43}, rr_taken = []\<rparr>
        \<lparr>rr_maps = drain ?st2, rr_family = {42, 43}, rr_taken = [stray_record]\<rparr>"
      using ring_taken [of "\<lparr>rr_maps = ?st2, rr_family = {42, 43}, rr_taken = []\<rparr>"] opened by simp
    ultimately show ?thesis
      by (intro exI [of _ "\<lparr>rr_maps = drain ?st2, rr_family = {42, 43}, rr_taken = [stray_record]\<rparr>"])
        (auto intro: converse_rtranclp_into_rtranclp)
  qed
  moreover have "items_read (mn_rounds example_main) = [encode_event stray_record]"
    by (simp add: items_read_def example_main_def example_round_def live_round_def items_of_def)
  ultimately show ?thesis
    by (fastforce simp: reads_ring_def)
qed

theorem kills_stay_in_family_witness:
  "reads_ring (test_policy Enforce) (42, example_env, mn_rounds example_main) {42, 43} \<and>
   kills (mr_trace (main example_fs root_ids [] mini_api example_main (small_env quiet_policy) example_doctor example_args)) = [43] \<and>
   set (kills (mr_trace (main example_fs root_ids [] mini_api example_main (small_env quiet_policy) example_doctor example_args))) \<subseteq> {42, 43}"
proof -
  let ?main = "main example_fs root_ids [] mini_api example_main (small_env quiet_policy) example_doctor example_args"
  let ?monitors = "monitors example_main example_args (test_policy Enforce)"
  have main: "?main = main_monitor example_fs root_ids [] mini_api example_main example_args"
    by (rule monitor_command) (simp add: example_args_def)
  have reads: "\<forall>w \<in> ?monitors. complete_object (fst (snd w)) \<and> reads_ring (test_policy Enforce) w {42, 43}"
    by (simp add: monitors_def example_args_def example_complete example_reads_ring)
  have "p \<in> {42, 43}" if "p \<in> set (kills (mr_trace ?main))" for p
    using kills_stay_in_family [OF that _ reads] by (simp add: main example_policy)
  then show ?thesis
    using example_reads_ring by (auto simp: main example_kills)
qed

end
