(* ===== verification/Learning.thy ===== *)
theory Learning
  imports Program
begin

text \<open>
  From a session to its policy and back: the monitor mirrors its log into a file, \<open>generate-policy\<close> draws
  a policy from that file, and the enforcer with this policy meets the same events again.
\<close>

section \<open>Definitions\<close>

text \<open>What the JSON reader of the generator makes of a line that the logger has written.\<close>

definition reads_back :: "json_writer \<Rightarrow> ('j, 'y) gen_env \<Rightarrow> log_entry \<Rightarrow> bool" where
  "reads_back json gen e \<longleftrightarrow>
     (\<exists>s. json (entry_fields e) = Some s \<and> str_trim s = s \<and> s \<noteq> [] \<and>
        (\<exists>val. read_json gen s = Inr val \<and> ll_event_type val = le_event_type e \<and> ll_target val = le_target e))"

text \<open>It holds of every entry when the reader inverts the writer, whose lines have no space around them.\<close>

lemma reads_back_inverse:
  assumes "json (entry_fields e) = Some s" and "str_trim s = s" "s \<noteq> []"
    and "\<And>val. log_line_of (entry_fields e) = Some val \<Longrightarrow> read_json gen s = Inr val"
  shows "reads_back json gen e"
  using assms by (auto simp: reads_back_def log_line_of_entry)

text \<open>Events that the generator does not set aside.\<close>

definition innocuous :: "('j, 'y) gen_env \<Rightarrow> event \<Rightarrow> bool" where
  "innocuous gen ev =
     (case event_kind ev of
        Read \<Rightarrow> \<not> is_sensitive_path_str (lowercase gen) (event_target ev)
      | Write \<Rightarrow> \<not> is_sensitive_path_str (lowercase gen) (event_target ev)
      | Network \<Rightarrow> event_resolved ev \<and> event_target ev \<noteq> ''<ipv6-nao-suportado>''
      | Syscall \<Rightarrow> \<not> risky_syscall (event_target ev))"

section \<open>The entries of a monitor command\<close>

text \<open>An entry that names no event, and one that names a given event.\<close>

definition plain :: "log_call \<Rightarrow> bool" where
  "plain c \<longleftrightarrow> call_event_type c = None \<and> call_target c = None"

definition about :: "event \<Rightarrow> log_call \<Rightarrow> bool" where
  "about ev c \<longleftrightarrow> call_target c = Some (event_target ev) \<and>
     call_event_type c \<in> {Some (et_str (event_kind ev)), Some (debug_event_type (event_kind ev))}"

definition plain_log :: "('e, 'a) logged_result \<Rightarrow> bool" where
  "plain_log r \<longleftrightarrow> list_all plain (fst r)"

lemma plain_calls [simp]: "plain (plain_call level component pid message)"
  by (simp add: plain_def plain_call_def)

lemma plain_log_simps [simp]:
  "plain_log (quiet r)" "plain_log (saying l a) \<longleftrightarrow> list_all plain l" "plain_log (l, r) \<longleftrightarrow> list_all plain l"
  by (simp_all add: plain_log_def)

lemma plain_and_log: "plain_log r \<Longrightarrow> (\<And>a. plain_log (f a)) \<Longrightarrow> plain_log (and_log r f)"
  by (simp add: plain_log_def fst_and_log split: sum.split)

lemma plain_offsets: "list_all plain (offsets_log env)" "list_all plain (butlast (offsets_log env))" "plain (last (offsets_log env))"
  by (simp_all add: offsets_log_def split: option.split prod.split)

lemma plain_hooks: "plain_log (attach_lsm env prog hook links)" "plain_log (attach_kprobe env prog fn links)"
    "plain_log (lsm_failed r)"
  by (simp_all add: attach_lsm_def attach_kprobe_def lsm_failed_def split: sum.split)

lemma plain_attach: "plain_log (attach_hooks env pol c st)" "plain_log (attach_reactive env links)"
  by (auto simp: attach_hooks_def attach_reactive_def plain_hooks intro!: plain_and_log split: sum.split option.split)

lemma plain_sync: "plain_log (attach_sync env pol st)"
  by (auto simp: attach_sync_def detect_enforcement_mode_def plain_attach Let_def intro!: plain_and_log
      split: sum.split prod.split)

lemma plain_monitor_new: "plain_log (monitor_new env pid pol)"
  by (auto simp: monitor_new_def plain_offsets plain_sync plain_attach intro!: plain_and_log split: prod.split)

lemma plain_concat: "(\<And>x. list_all plain (f x)) \<Longrightarrow> list_all plain (concat (map f xs))"
  by (induction xs) simp_all

lemma plain_item: "list_all plain (item_log evict item)"
proof -
  have "list_all plain (dns_log evict be)" for be
    unfolding dns_log_def
    by (simp add: split_beta Let_def plain_concat split: run.split sum.split)
  then show ?thesis
    by (simp add: item_log_def split: option.split)
qed

lemma plain_items: "handle_items evict items c = Returned (c', ds) \<Longrightarrow> list_all (\<lambda>d. list_all plain (fst d)) ds"
  by (induction items arbitrary: c c' ds) (auto simp: plain_item split: run.splits option.splits)

lemma plain_deliveries: "list_all (\<lambda>d. list_all plain (fst d)) (deliveries env evict rs c)"
proof -
  obtain c' ds where "handle_items evict (concat (map items_of (takeWhile live_round rs))) c = Returned (c', ds)"
    "event_loop evict rs c = (end_of rs, c', ds)"
    using event_loop_pass [of evict rs c] by blast
  then show ?thesis
    using plain_items by (auto simp: deliveries_def monitor_start_def split: sum.split)
qed

lemma handler_about: "c \<in> set (logged (fst (main_handler api show_io pol kill i ev u))) \<Longrightarrow> about ev c"
  by (auto simp: main_handler_def main_handler_log_def enforce_def about_def Let_def split: sum.splits if_splits)

lemma deliver_about:
  "c \<in> set (logged (fst (deliver (main_handler api show_io pol kill) i ds u))) \<Longrightarrow>
   list_all (\<lambda>d. list_all plain (fst d)) ds \<Longrightarrow> plain c \<or> (\<exists>ev \<in> snd ` set ds. about ev c)"
proof (induction ds arbitrary: i u)
  case (Cons d ds)
  then show ?case
    by (cases d) (auto simp: split_beta Let_def list_all_iff dest: handler_about)
qed simp

text \<open>Every entry of the command is plain or names an event of the session.\<close>

definition of_session :: "('y, 'e, 'n, 'b) main_env \<Rightarrow> log_call list \<Rightarrow> bool" where
  "of_session env cs \<longleftrightarrow> (\<forall>c \<in> set cs. plain c \<or> (\<exists>ev \<in> set (session env). about ev c))"

lemma of_session_simps [simp]:
  "of_session env []" "of_session env (cs @ cs') \<longleftrightarrow> of_session env cs \<and> of_session env cs'"
  "of_session env (c # cs) \<longleftrightarrow> (plain c \<or> (\<exists>ev \<in> set (session env). about ev c)) \<and> of_session env cs"
  by (auto simp: of_session_def)

lemma plain_of_session: "list_all plain cs \<Longrightarrow> of_session env cs"
  by (simp add: of_session_def list_all_iff)

lemma after_select_entries:
  "of_session env (logged late) \<Longrightarrow> of_session env (logged (fst (after_select env pid start_res late)))"
  by (simp add: after_select_def Let_def live_entry_def split: select_branch.split start_end.split sum.split)

lemma supervise_entries: "of_session env (logged (mr_trace (main_supervise api env pid pol)))"
proof -
  have building: "of_session env (fst (monitor_new (mn_monitor env) pid pol))"
    using plain_monitor_new [of "mn_monitor env" pid pol] by (simp add: plain_of_session plain_log_def)
  define ds where "ds = deliveries (mn_monitor env) (mn_evict env) (mn_rounds env) no_caches"
  have part: "of_session env (logged (fst (deliver (main_handler api show_io pol kill) i ds' u)))"
    if "set ds' \<subseteq> set ds" for ds' show_io kill i u
    using deliver_about [of _ api show_io pol kill i ds' u] that plain_deliveries [of "mn_monitor env" "mn_evict env" "mn_rounds env" no_caches]
    by (force simp: of_session_def session_def list_all_iff simp flip: ds_def)
  have early: "of_session env (logged (fst (fst (deliver_parts (main_handler api show_io pol kill) n ds ()))))"
    and late: "of_session env (logged (snd (deliver_parts (main_handler api show_io pol kill) n ds ())))" for show_io kill n
    by (simp_all add: deliver_parts_def split_beta Let_def part set_take_subset set_drop_subset)
  show ?thesis
  proof (cases "snd (monitor_new (mn_monitor env) pid pol)")
    case (Inl e)
    then show ?thesis
      using building by (simp add: main_supervise_def split_beta)
  next
    case (Inr m)
    have start: "snd (snd (monitor_start (mn_monitor env) (mn_evict env) (mn_rounds env) (mb_caches m))) = ds"
      by (simp add: ds_def deliveries_def built_caches [OF Inr])
    show ?thesis
      using building early late
      by (simp add: main_supervise_def split_beta Let_def Inr start after_select_entries split: sum.split)
  qed
qed

lemma monitor_entries:
  assumes "mr_status (main_monitor fs ids cwd api env a) = Some 0"
  shows "of_session env (logged (mr_trace (main_monitor fs ids cwd api env a)))"
proof -
  obtain pid src loaded found mirror where found: "resolve_policy (mn_show_io env) fs ids cwd (arg_policy a) = (found, Inr src)"
    and mirror: "case arg_log_file a of None \<Rightarrow> mirror = [] | Some f \<Rightarrow> \<exists>ls. mn_open_log env f = Inr ls \<and> mirror = [OpenLog ls]"
    and r: "main_monitor fs ids cwd api env a =
      after_effects (logs found @ mirror @ logs (dry_run_log (arg_dry_run a)))
        (main_supervise api env pid (effective_policy (arg_dry_run a) loaded))"
    using main_monitor_view [of fs ids cwd api env a] assms by auto
  have "list_all plain found"
    using found by (auto simp: resolve_policy_def saying_def Let_def split: option.splits sum.splits if_splits)
  moreover have "logged mirror = []"
    using mirror by (auto split: option.splits)
  moreover have "list_all plain (dry_run_log (arg_dry_run a))"
    by (simp add: dry_run_log_def)
  ultimately show ?thesis
    by (simp add: r plain_of_session supervise_entries)
qed

section \<open>The session as the generator reads it\<close>

lemma stamped_member: "e \<in> set (stamped clock n es) \<Longrightarrow> \<exists>i. \<exists>c \<in> set (logged es). e = stamp (clock i) c"
proof (induction es arbitrary: n)
  case (Cons x es)
  then show ?case by (cases x) fastforce+
qed simp

lemma entry_line:
  assumes "reads_back json gen e"
  shows "line_event gen (Inr (log_line json e)) =
     (case (le_event_type e, le_target e) of (Some et, Some t) \<Rightarrow> Some (lowercase gen et, t) | _ \<Rightarrow> None)"
proof -
  obtain s val where s: "json (entry_fields e) = Some s" "str_trim s = s" "s \<noteq> []" "read_json gen s = Inr val"
    "ll_event_type val = le_event_type e" "ll_target val = le_target e"
    using assms by (auto simp: reads_back_def)
  have "log_line json e = s"
    by (simp add: log_line_def s(1))
  then show ?thesis
    using s by (simp add: line_event_def)
qed

text \<open>
  The events that the generator finds in the log of a session are the events of the session.
\<close>

lemma session_lines:
  assumes session: "mr_status (main_monitor fs ids cwd api env a) = Some 0" "arg_log_file a = Some f"
      "mn_open_log env f = Inr []"
    and mirrored: "log_file (perform json clock 0 (mr_trace (main_monitor fs ids cwd api env a)) st) = Some lines"
    and json: "\<forall>e \<in> set (stamped clock 0 (mr_trace (main_monitor fs ids cwd api env a))). reads_back json gen e"
    and lower: "\<forall>k. lowercase gen (et_str k) = et_str k \<and> lowercase gen (debug_event_type k) = et_str k"
  shows "set (log_events gen (map Inr lines)) = (\<lambda>ev. (et_str (event_kind ev), event_target ev)) ` set (session env)"
proof -
  obtain n es es0 where content: "lines = map (log_line json) (stamped clock n es)"
    and received: "received_entry ` set (session env) \<subseteq> set (logged es)"
    and trace: "mr_trace (main_monitor fs ids cwd api env a) = es0 @ es" "n = length es0"
    using monitor_mirrors [OF session, of json clock st] mirrored by (metis append_Nil option.inject)
  have readable: "reads_back json gen e" if "e \<in> set (stamped clock n es)" for e
    using json that by (simp add: trace stamped_append)
  have entries: "of_session env (logged es)"
    using monitor_entries [OF session(1)] by (simp add: trace)
  have events: "set (log_events gen (map Inr lines)) =
      {p. \<exists>e \<in> set (stamped clock n es). line_event gen (Inr (log_line json e)) = Some p}"
    by (force simp: log_events_def List.map_filter_def content image_iff)
  show ?thesis
  proof (intro equalityI subsetI)
    fix p assume "p \<in> set (log_events gen (map Inr lines))"
    then obtain e where e: "e \<in> set (stamped clock n es)" "line_event gen (Inr (log_line json e)) = Some p"
      by (auto simp: events)
    obtain i c where c: "c \<in> set (logged es)" "e = stamp (clock i) c"
      using stamped_member [OF e(1)] by blast
    have "line_event gen (Inr (log_line json e)) =
        (case (call_event_type c, call_target c) of (Some et, Some t) \<Rightarrow> Some (lowercase gen et, t) | _ \<Rightarrow> None)"
      unfolding entry_line [OF readable [OF e(1)]] by (simp add: c(2) stamp_def)
    moreover have "plain c \<or> (\<exists>ev \<in> set (session env). about ev c)"
      using entries c(1) by (simp add: of_session_def)
    ultimately show "p \<in> (\<lambda>ev. (et_str (event_kind ev), event_target ev)) ` set (session env)"
      using e(2) lower by (auto simp: plain_def about_def split: option.splits)
  next
    fix p assume "p \<in> (\<lambda>ev. (et_str (event_kind ev), event_target ev)) ` set (session env)"
    then obtain ev where ev: "ev \<in> set (session env)" "p = (et_str (event_kind ev), event_target ev)"
      by blast
    then have "received_entry ev \<in> set (logged es)"
      using received by blast
    then obtain i where e: "stamp (clock i) (received_entry ev) \<in> set (stamped clock n es)"
      using stamped_calls by blast
    have "line_event gen (Inr (log_line json (stamp (clock i) (received_entry ev)))) = Some p"
      unfolding entry_line [OF readable [OF e]] using lower by (simp add: ev(2) stamp_def received_entry_def)
    then show "p \<in> set (log_events gen (map Inr lines))"
      using e by (auto simp: events)
  qed
qed

text \<open>The monitor delivers no writes, and every system call that it delivers is an \<open>execve\<close>.\<close>

definition monitor_event :: "event \<Rightarrow> bool" where
  "monitor_event ev \<longleftrightarrow> event_kind ev \<noteq> Write \<and> (event_kind ev = Syscall \<longrightarrow> prefix ''execve:'' (event_target ev))"

lemma handle_item_kind: "handle_item evict item c = Returned (c', Some ev) \<Longrightarrow> monitor_event ev"
  by (auto simp: handle_item_def handle_event_def event_type_of_def monitor_event_def Let_def
      EVENT_TYPE_READ_def EVENT_TYPE_EXEC_def EVENT_TYPE_NETWORK_def
      split: option.splits if_splits run.splits prod.splits)

lemma handle_items_kind: "handle_items evict items c = Returned (c', ds) \<Longrightarrow> list_all monitor_event (map snd ds)"
proof (induction items arbitrary: c ds)
  case (Cons item items)
  obtain c0 ev ds0 where "handle_item evict item c = Returned (c0, ev)" "handle_items evict items c0 = Returned (c', ds0)"
    "ds = (case ev of None \<Rightarrow> ds0 | Some e \<Rightarrow> (item_log evict item, e) # ds0)"
    using Cons.prems by (auto split: run.splits)
  then show ?case
    using Cons.IH handle_item_kind [of evict item c c0] by (cases ev) auto
qed simp

lemma session_kinds: "list_all monitor_event (session env)"
proof -
  obtain c' ds where "handle_items (mn_evict env) (concat (map items_of (takeWhile live_round (mn_rounds env)))) no_caches =
      Returned (c', ds)" "event_loop (mn_evict env) (mn_rounds env) no_caches = (end_of (mn_rounds env), c', ds)"
    using event_loop_pass [of "mn_evict env" "mn_rounds env" no_caches] by blast
  then show ?thesis
    using handle_items_kind by (simp add: session_def deliveries_def monitor_start_def split: sum.split)
qed

lemma targets_of_session:
  assumes "set (log_events gen ls) = (\<lambda>ev. (et_str (event_kind ev), event_target ev)) ` set (session env)"
  shows "set (targets (et_str k) (log_events gen ls)) = event_target ` {ev \<in> set (session env). event_kind ev = k}"
proof -
  have inj: "et_str k = et_str k' \<longleftrightarrow> k = k'" for k k'
    by (cases k; cases k') (simp_all add: et_str_def)
  have "set (targets (et_str k) (log_events gen ls)) = snd ` {e \<in> set (log_events gen ls). fst e = et_str k}"
    by (simp add: targets_def)
  also have "\<dots> = event_target ` {ev \<in> set (session env). event_kind ev = k}"
    unfolding assms by (auto simp: inj image_iff)
  finally show ?thesis .
qed

text \<open>What the generator finds in a log that holds the events of a session.\<close>

lemma observed_of_session:
  assumes seen: "\<And>k. set (targets (et_str k) (log_events gen ls)) = event_target ` {ev \<in> set (session env). event_kind ev = k}"
    and clean: "\<forall>ev \<in> set (session env). event_kind ev = Read \<and> innocuous gen ev \<longrightarrow> clean_path (event_target ev)"
  shows "\<forall>p \<in> set (observed_paths gen ''read'' ls). clean_path p" "\<forall>p \<in> set (observed_paths gen ''write'' ls). clean_path p"
    "\<forall>t \<in> set (targets ''syscall'' (log_events gen ls)). CHR '':'' \<in> set t"
proof -
  have kind: "monitor_event ev" if "ev \<in> set (session env)" for ev
    using session_kinds [of env] that by (simp add: list_all_iff)
  show "\<forall>p \<in> set (observed_paths gen ''read'' ls). clean_path p"
    using seen [of Read] clean by (auto simp: et_str_def innocuous_def)
  show "\<forall>p \<in> set (observed_paths gen ''write'' ls). clean_path p"
    using seen [of Write] kind by (auto simp: et_str_def monitor_event_def)
  show "\<forall>t \<in> set (targets ''syscall'' (log_events gen ls)). CHR '':'' \<in> set t"
    using seen [of Syscall] kind by (fastforce simp: et_str_def monitor_event_def prefix_def)
qed

section \<open>The learned policy\<close>

text \<open>
  C5. The policy that is learned from a session lets the session run again, when the files that the
  session read have clean paths (absolute, at least two levels deep, without dots, wildcards, backslashes
  and line feeds; \<open>generate-policy\<close> covers neither \<open>/etc\<close> next to a file in it nor a relative name).  The
  monitor ended with status 0 and wrote its log into a fresh file whose name is comment text of YAML, as
  is the time in the header; \<open>generate-policy\<close> read that file and wrote a policy; under the loaded policy,
  which is in enforce mode, every event of the session that is not sensitive, risky or unresolved is
  allowed, and no process is killed for it.
\<close>

theorem learned_policy_admits_session:
  fixes api :: "('re, 'e) regex_api" and pol :: "'re policy" and api0 :: "('re0, 'e0) regex_api"
    and env :: "('y, 'e0, 'n, 'b) main_env"
  assumes engine: "regex_engine api"
    and session: "mr_status (main_monitor fs ids cwd api0 env a) = Some 0" "arg_log_file a = Some f"
      "mn_open_log env f = Inr []"
    and mirrored: "log_file (perform json clock 0 (mr_trace (main_monitor fs ids cwd api0 env a)) st) = Some lines"
      "open_file gen f = Inr (lines_of (map Inr lines))"
    and json: "\<forall>e \<in> set (stamped clock 0 (mr_trace (main_monitor fs ids cwd api0 env a))). reads_back json gen e"
    and generated: "run_generator gen f out = Some (calls, Some text, Inr ())"
    and yaml: "yaml_reads_back gen yaml" "comment_text (log_filename f)" "comment_text (header_time gen)"
    and params: "set_preserving (map_order gen)" "keeps_marks (lowercase gen)"
      "\<forall>k. lowercase gen (et_str k) = et_str k \<and> lowercase gen (debug_event_type k) = et_str k"
    and loaded: "from_yaml api yaml text = (Inr pol :: (('z, 'e) policy_error, 're policy) result)"
    and clean: "\<forall>ev \<in> set (session env). event_kind ev = Read \<and> innocuous gen ev \<longrightarrow> clean_path (event_target ev)"
    and ev: "ev \<in> set (session env)" "innocuous gen ev"
  shows "pol_mode pol = Enforce \<and> event_allowed api pol ev \<and> kills (fst (enforce api pol kill ev)) = []"
proof -
  note events = session_lines [OF session mirrored(1) json params(3)]
  note seen = targets_of_session [OF events]
  note written = run_generator_Ok [OF generated mirrored(2) yaml]
  note observed = observed_of_session [OF seen clean]
  have "event_allowed api pol ev"
  proof (cases "event_kind ev")
    case Read
    then have "event_target ev \<in> set (observed_paths gen ''read'' (map Inr lines))"
      using seen [of Read] ev by (auto simp: et_str_def innocuous_def)
    then have "path_allowed api pol (event_target ev) False"
      by (intro observed_paths_allowed [OF engine generated mirrored(2) yaml params(1,2) loaded observed(1,2)]) simp
    then show ?thesis
      using Read by (simp add: event_allowed_def)
  next
    case Write
    then show ?thesis
      using session_kinds [of env] ev(1) by (auto simp: list_all_iff monitor_event_def)
  next
    case Network
    then have "event_target ev \<in> set (targets ''network'' (log_events gen (map Inr lines)))"
      using seen [of Network] ev(1) by (auto simp: et_str_def)
    then show ?thesis
      using observed_domains_allowed [OF loaded written] Network ev(2) by (simp add: event_allowed_def innocuous_def)
  next
    case Syscall
    then show ?thesis
      using ev(2) innocent_syscall_allowed [OF loaded written _ observed(3)] by (simp add: event_allowed_def innocuous_def)
  qed
  moreover have "pol_mode pol = Enforce"
    using generated_mode [OF loaded written] .
  ultimately show ?thesis
    by (simp add: enforce_kills kill_due_def)
qed

section \<open>An example\<close>

text \<open>
  A session with one read of \<open>/home/user/a.rs\<close>, and a generator whose JSON reader knows the three lines
  that the writer makes of its entries.
\<close>

definition home_file :: string where
  "home_file = ''/home/user/a.rs''"

definition home_record :: bpf_event where
  "home_record = \<lparr>ev_pid = 43, ev_type = EVENT_TYPE_READ, ev_resolved = 0,
                  ev_target = as_bytes home_file @ replicate 241 0\<rparr>"

definition home_event :: event where
  "home_event = \<lparr>event_pid = 43, event_kind = Read, event_target = home_file, event_resolved = False\<rparr>"

definition home_main :: "(unit, string, unit, unit) main_env" where
  "home_main = example_main\<lparr>mn_rounds := [example_round [encode_event home_record],
     \<lparr>round_closed = True, round_poll = PollTimeout, round_items = []\<rparr>]\<rparr>"

definition home_json :: json_writer where
  "home_json obj =
     Some (case map_of obj ''event_type'' of None \<Rightarrow> ''n'' | Some v \<Rightarrow> if v = JText ''Read'' then ''R'' else ''r'')"

lemma home_json_entry:
  "home_json (entry_fields e) =
     Some (case le_event_type e of None \<Rightarrow> ''n'' | Some t \<Rightarrow> if t = ''Read'' then ''R'' else ''r'')"
  by (simp add: home_json_def entry_fields_def present_def split: option.split)

definition home_gen :: "string list \<Rightarrow> (unit, unit) gen_env" where
  "home_gen lines = (small_env small_policy)\<lparr>open_file := (\<lambda>_. Inr (lines_of (map Inr lines))),
     read_json := (\<lambda>s.
       if s = ''n'' then Inr \<lparr>ll_event_type = None, ll_target = None, ll_action = None\<rparr>
       else if s = ''R'' then Inr \<lparr>ll_event_type = Some ''Read'', ll_target = Some home_file, ll_action = None\<rparr>
       else if s = ''r'' then Inr \<lparr>ll_event_type = Some ''read'', ll_target = Some home_file, ll_action = None\<rparr>
       else Inl ())\<rparr>"

lemma home_gen_simps [simp]:
  "lowercase (home_gen ls) = map ascii_lower" "map_order (home_gen ls) = id" "header_time (home_gen ls) = ''now''"
  "to_yaml (home_gen ls) g = (if g = small_policy then Inr ''yaml'' else Inl ())"
  "write_file (home_gen ls) f t = Inr ()" "open_file (home_gen ls) f = Inr (lines_of (map Inr ls))"
  by (simp_all add: home_gen_def)

lemma home_handled: "handle_item evict (encode_event home_record) c = Returned (c, Some home_event)"
proof -
  have "c_str_lossy (as_bytes home_file @ replicate 241 0) = home_file" "length (as_bytes home_file) = 15"
    by code_simp+
  then show ?thesis
    by (simp add: handle_item_def decode_encode home_record_def home_event_def handle_event_def Let_def
        event_type_of_def EVENT_TYPE_READ_def EVENT_TYPE_NETWORK_def EVENT_TYPE_EXEC_def)
qed

lemma home_start:
  "\<exists>c l. monitor_start example_env (mn_evict home_main) (mn_rounds home_main) no_caches =
     (StartReturned (Inr ()), c, [(l, home_event)])"
  by (simp add: home_main_def example_round_def monitor_start_def example_events_map start_of_def home_handled)

lemma home_main_simps [simp]:
  "mn_monitor home_main = example_env" "mn_sigint home_main = Inr ()" "mn_sigterm home_main = Inr ()"
  "mn_open_log home_main f = Inr []" "mn_select home_main = SigtermFirst"
  by (simp_all add: home_main_def)

lemma home_session: "session home_main = [home_event]"
  using home_start by (auto simp: session_def deliveries_def)

lemma home_loads: "load_policy mini_api home_main src = Inr (test_policy Enforce)"
  using example_loads [of src] by (simp add: load_policy_def home_main_def)

lemma home_status: "mr_status (main_monitor fs ids cwd mini_api home_main example_args) = Some 0"
proof -
  obtain building m where new: "monitor_new example_env 42 (test_policy Enforce) = (building, Inr m)"
    using example_builds [of "test_policy Enforce"] by (metis is_ok_obtain prod.collapse)
  then have "mb_caches m = no_caches"
    using built_caches [of example_env 42 "test_policy Enforce" m] by simp
  then have "mr_status (main_supervise mini_api home_main 42 (test_policy Enforce)) = Some 0"
    using home_start after_select_facts(4) [of home_main 42 "StartReturned (Inr ())"]
    by (auto simp: main_supervise_def new Let_def split_beta ends_well_def)
  then show ?thesis
    by (simp add: main_monitor_def example_args_def resolve_given home_loads effective_policy_def)
qed

abbreviation home_trace :: "effect list" where
  "home_trace \<equiv> mr_trace (main_monitor example_fs root_ids [] mini_api home_main example_args)"

lemma home_lower: "map ascii_lower (et_str k) = et_str k \<and> map ascii_lower (debug_event_type k) = et_str k"
  by (cases k; hypsubst; code_simp)

lemma home_reads_back: "\<forall>e \<in> set (stamped clock 0 home_trace). reads_back home_json (home_gen ls) e"
proof
  fix e assume "e \<in> set (stamped clock 0 home_trace)"
  then obtain i c where c: "c \<in> set (logged home_trace)" "e = stamp (clock i) c"
    using stamped_member by blast
  have "plain c \<or> about home_event c"
    using monitor_entries [OF home_status [of example_fs root_ids "[]"]] c(1) by (auto simp: of_session_def home_session)
  moreover have "str_trim ''n'' = ''n''" "str_trim ''R'' = ''R''" "str_trim ''r'' = ''r''"
    by (simp_all add: str_trim_id is_whitespace_def utf8_len_def)
  ultimately show "reads_back home_json (home_gen ls) e"
    by (auto simp: reads_back_def home_json_entry home_gen_def c(2) stamp_def plain_def about_def home_event_def
        et_str_def debug_event_type_def)
qed

lemma all_equal: "set xs = {x} \<Longrightarrow> \<exists>n. xs = replicate (Suc n) x"
  by (metis replicate_eqI empty_iff insert_iff list.set(1) length_greater_0_conv gr0_implies_Suc singletonD)

lemma dedup_replicate: "dedup_by f (replicate (Suc n) x) = [x]"
  by (induction n) simp_all

lemma same_path: "generalize_paths id (replicate (Suc n) p) = generalize_paths id [p]"
proof -
  have "sort_key components (replicate (Suc n) p) = replicate (Suc n) p"
    by (intro sorted_sort_id sort_key_id_if_sorted) simp
  then have "normalized_paths (replicate (Suc n) p) = [p]"
    unfolding normalized_paths_def by (simp only: dedup_replicate)
  then show ?thesis
    by (simp add: generalize_paths_def normalized_paths_def)
qed

lemma home_build:
  assumes "set (log_events (home_gen ls) (map Inr ls)) = {(''read'', home_file)}"
  shows "build_policy (home_gen ls) (read_log (home_gen ls) (map Inr ls)) = small_policy"
proof -
  let ?es = "log_events (home_gen ls) (map Inr ls)"
  have "set (targets ''read'' ?es) = snd ` {e \<in> set ?es. fst e = ''read''}"
    by (simp add: targets_def)
  also have "\<dots> = {home_file}"
    unfolding assms by auto
  finally have "set (targets ''read'' ?es) = {home_file}" .
  from all_equal [OF this] obtain n where "targets ''read'' ?es = replicate (Suc n) home_file"
    by (elim exE)
  moreover have none: "targets k ?es = []" if "k \<noteq> ''read''" for k
  proof -
    have "\<forall>e \<in> set ?es. fst e \<noteq> k"
      unfolding assms using that by simp
    then show ?thesis
      by (simp add: targets_def filter_empty_conv)
  qed
  moreover have "\<not> is_sensitive_path_str (map ascii_lower) home_file"
    using small_not_sensitive by (simp add: home_file_def)
  ultimately have "raw_reads (read_log (home_gen ls) (map Inr ls)) = replicate (Suc n) home_file"
    "raw_writes (read_log (home_gen ls) (map Inr ls)) = []" "raw_domains (read_log (home_gen ls) (map Inr ls)) = []"
    "raw_syscalls (read_log (home_gen ls) (map Inr ls)) = []"
    by (simp_all add: read_log_lists del: replicate_Suc)
  then show ?thesis
    by (simp add: build_policy_def small_policy_def same_path small_globs home_file_def small_sorted del: replicate_Suc)
      (simp add: generalize_paths_def)
qed

lemma session_name: "log_filename ''session'' = ''session''"
  by code_simp

theorem learned_policy_admits_session_witness:
  "kills (fst (enforce mini_api small_loaded (\<lambda>_. Inr ()) home_event)) = []"
proof -
  let ?st = "\<lparr>printed = [], log_file = None\<rparr>" and ?clock = "\<lambda>_. ''now''"
  note status = home_status [of example_fs root_ids "[]"]
  have given: "arg_log_file example_args = Some ''session''"
    by (simp add: example_args_def)
  have "\<exists>ls. log_file (perform home_json ?clock 0 home_trace ?st) = Some ls"
    by (rule monitor_mirrors [OF status given, of "[]" home_json ?clock ?st]) auto
  then obtain ls where ls: "log_file (perform home_json ?clock 0 home_trace ?st) = Some ls" ..
  have lower: "\<forall>k. lowercase (home_gen ls) (et_str k) = et_str k \<and> lowercase (home_gen ls) (debug_event_type k) = et_str k"
    using home_lower by simp
  have "set (log_events (home_gen ls) (map Inr ls)) = {(''read'', home_file)}"
    using session_lines [OF status given _ ls home_reads_back lower]
    by (simp add: home_session home_event_def et_str_def)
  then obtain calls t where run: "run_generator (home_gen ls) ''session'' ''out'' = Some (calls, Some t, Inr ())"
    by (simp add: run_generator_def read_lines_list write_policy_def Let_def home_build)
  have "pol_mode small_loaded = Enforce \<and> event_allowed mini_api small_loaded home_event \<and>
      kills (fst (enforce mini_api small_loaded (\<lambda>_. Inr ()) home_event)) = []"
  proof (rule learned_policy_admits_session [OF mini.regex_engine_axioms status given _ ls _ home_reads_back run _ _ _ _ _ lower small_loads])
    show "yaml_reads_back (home_gen ls) (\<lambda>_. Inr (raw_of_generated small_policy))"
      by (simp add: yaml_reads_back_def)
    show "comment_text (log_filename ''session'')"
      using small_comment(4) session_name by simp
    show "keeps_marks (lowercase (home_gen ls))"
      by (simp add: small_keeps)
    show "\<forall>ev \<in> set (session home_main). event_kind ev = Read \<and> innocuous (home_gen ls) ev \<longrightarrow> clean_path (event_target ev)"
      using small_path by (simp add: home_session home_event_def home_file_def)
    show "innocuous (home_gen ls) home_event"
      using small_not_sensitive by (simp add: innocuous_def home_event_def home_file_def)
  qed (simp_all add: home_session set_preserving_def small_comment)
  then show ?thesis by blast
qed

end
