(* ===== verification/Kernel_Types.thy ===== *)
theory Kernel_Types
  imports C_Layout
begin

text \<open>
  The memory layout of the records that the eBPF programs share with the kernel and with user space:
  \<open>struct file\<close> and \<open>struct linux_binprm\<close> with the types they embed (\<open>vmlinux.rs\<close>), and \<open>BpfEvent\<close> and
  \<open>SyscallRule\<close>.  A \<open>repr(C)\<close> type is given by its fields; size, alignment and offsets follow from the
  layout rules of C on the 64-bit target.
\<close>

section \<open>The types of the programs\<close>

definition list_head :: ctype where
  "list_head = CStruct [(''next'', c_ptr), (''prev'', c_ptr)]"

definition atomic_t :: ctype where
  "atomic_t = CStruct [(''counter'', c_uint)]"

definition atomic64_t :: ctype where
  "atomic64_t = CStruct [(''counter'', Scalar 8)]"

definition qspinlock_bytes :: ctype where
  "qspinlock_bytes = CStruct [(''locked'', c_uchar), (''pending'', c_uchar)]"

definition qspinlock_halves :: ctype where
  "qspinlock_halves = CStruct [(''locked_pending'', c_ushort), (''tail'', c_ushort)]"

definition qspinlock_union :: ctype where
  "qspinlock_union =
     CUnion [(''val'', atomic_t), (''__bindgen_anon_1'', qspinlock_bytes), (''__bindgen_anon_2'', qspinlock_halves)]"

definition qspinlock :: ctype where
  "qspinlock = CStruct [(''__bindgen_anon_1'', qspinlock_union)]"

definition optimistic_spin_queue :: ctype where
  "optimistic_spin_queue = CStruct [(''tail'', atomic_t)]"

definition raw_spinlock :: ctype where
  "raw_spinlock = CStruct [(''raw_lock'', qspinlock)]"

definition mutex :: ctype where
  "mutex =
     CStruct [(''owner'', atomic64_t), (''wait_lock'', raw_spinlock), (''osq'', optimistic_spin_queue),
              (''wait_list'', list_head)]"

definition spinlock :: ctype where
  "spinlock = CStruct [(''__bindgen_anon_1'', CUnion [(''rlock'', raw_spinlock)])]"

definition callback_head :: ctype where
  "callback_head = CStruct [(''next'', c_ptr), (''func'', c_ptr)]"

definition llist_node :: ctype where
  "llist_node = CStruct [(''next'', c_ptr)]"

definition rlimit :: ctype where
  "rlimit = CStruct [(''rlim_cur'', c_ulong), (''rlim_max'', c_ulong)]"

definition struct_path :: ctype where
  "struct_path = CStruct [(''mnt'', c_ptr), (''dentry'', c_ptr)]"

definition file_ra_state :: ctype where
  "file_ra_state =
     CStruct [(''start'', c_ulong), (''size'', c_uint), (''async_size'', c_uint), (''ra_pages'', c_uint),
              (''order'', c_ushort), (''mmap_miss'', c_ushort), (''prev_pos'', Scalar 8)]"

definition freeptr_t :: ctype where
  "freeptr_t = CStruct [(''v'', c_ulong)]"

definition file_ref_t :: ctype where
  "file_ref_t = CStruct [(''refcnt'', atomic64_t)]"

definition file_union_1 :: ctype where
  "file_union_1 = CUnion [(''f_path'', struct_path), (''__f_path'', struct_path)]"

definition file_union_2 :: ctype where
  "file_union_2 = CUnion [(''f_pos_lock'', mutex), (''f_pipe'', Scalar 8)]"

definition file_union_3 :: ctype where
  "file_union_3 =
     CUnion [(''f_task_work'', callback_head), (''f_llist'', llist_node), (''f_ra'', file_ra_state),
             (''f_freeptr'', freeptr_t)]"

definition struct_file :: ctype where
  "struct_file =
     CStruct
       [(''f_lock'', spinlock), (''f_mode'', c_uint), (''f_op'', c_ptr), (''f_mapping'', c_ptr),
        (''private_data'', c_ptr), (''f_inode'', c_ptr), (''f_flags'', c_uint), (''f_iocb_flags'', c_uint),
        (''f_cred'', c_ptr), (''f_owner'', c_ptr), (''__bindgen_anon_1'', file_union_1),
        (''__bindgen_anon_2'', file_union_2), (''f_pos'', Scalar 8), (''f_security'', c_ptr),
        (''f_wb_err'', c_uint), (''f_sb_err'', c_uint), (''f_ep'', c_ptr),
        (''__bindgen_anon_3'', file_union_3), (''f_ref'', file_ref_t)]"

text \<open>The bit fields occupy one byte, aligned by an empty array of bytes.\<close>

definition linux_binprm :: ctype where
  "linux_binprm =
     CStruct
       [(''vma'', c_ptr), (''vma_pages'', c_ulong), (''argmin'', c_ulong), (''mm'', c_ptr), (''p'', c_ulong),
        (''_bitfield_align_1'', Array 0 c_uchar), (''_bitfield_1'', Array 1 c_uchar),
        (''executable'', c_ptr), (''interpreter'', c_ptr), (''file'', c_ptr), (''cred'', c_ptr),
        (''unsafe_'', c_uint), (''per_clear'', c_uint), (''argc'', c_uint), (''envc'', c_uint),
        (''filename'', c_ptr), (''interp'', c_ptr), (''fdpath'', c_ptr), (''interp_flags'', c_uint),
        (''execfd'', c_uint), (''exec'', c_ulong), (''rlim_stack'', rlimit), (''buf'', Array 256 c_uchar)]"

text \<open>The records that the programs share with user space.\<close>

definition bpf_syscall_rule_type :: ctype where
  "bpf_syscall_rule_type = CStruct [(''pattern'', Array 128 c_uchar), (''kill_on_deny'', c_uint)]"

text \<open>The layouts, computed from the innermost types outwards.\<close>

lemma list_head_layout [simp]: "layout list_head = (16, 8)"
  by (simp add: list_head_def layout_arith)

lemma atomic_t_layout [simp]: "layout atomic_t = (4, 4)"
  by (simp add: atomic_t_def layout_arith)

lemma atomic64_t_layout [simp]: "layout atomic64_t = (8, 8)"
  by (simp add: atomic64_t_def layout_arith)

lemma qspinlock_bytes_layout [simp]: "layout qspinlock_bytes = (2, 1)"
  by code_simp

lemma qspinlock_halves_layout [simp]: "layout qspinlock_halves = (4, 2)"
  by code_simp

lemma qspinlock_union_layout [simp]: "layout qspinlock_union = (4, 4)"
  by (simp add: qspinlock_union_def layout_arith)

lemma qspinlock_layout [simp]: "layout qspinlock = (4, 4)"
  by (simp add: qspinlock_def layout_arith)

lemma optimistic_spin_queue_layout [simp]: "layout optimistic_spin_queue = (4, 4)"
  by (simp add: optimistic_spin_queue_def layout_arith)

lemma raw_spinlock_layout [simp]: "layout raw_spinlock = (4, 4)"
  by (simp add: raw_spinlock_def layout_arith)

lemma mutex_layout [simp]: "layout mutex = (32, 8)"
  by (simp add: mutex_def layout_arith)

lemma spinlock_layout [simp]: "layout spinlock = (4, 4)"
  by (simp add: spinlock_def layout_arith)

lemma callback_head_layout [simp]: "layout callback_head = (16, 8)"
  by (simp add: callback_head_def layout_arith)

lemma llist_node_layout [simp]: "layout llist_node = (8, 8)"
  by (simp add: llist_node_def layout_arith)

lemma rlimit_layout [simp]: "layout rlimit = (16, 8)"
  by (simp add: rlimit_def layout_arith)

lemma struct_path_layout [simp]: "layout struct_path = (16, 8)"
  by (simp add: struct_path_def layout_arith)

lemma file_ra_state_layout [simp]: "layout file_ra_state = (32, 8)"
  by (simp add: file_ra_state_def layout_arith)

lemma freeptr_t_layout [simp]: "layout freeptr_t = (8, 8)"
  by (simp add: freeptr_t_def layout_arith)

lemma file_ref_t_layout [simp]: "layout file_ref_t = (8, 8)"
  by (simp add: file_ref_t_def layout_arith)

lemma file_union_1_layout [simp]: "layout file_union_1 = (16, 8)"
  by (simp add: file_union_1_def layout_arith)

lemma file_union_2_layout [simp]: "layout file_union_2 = (32, 8)"
  by (simp add: file_union_2_def layout_arith)

lemma file_union_3_layout [simp]: "layout file_union_3 = (32, 8)"
  by (simp add: file_union_3_def layout_arith)

lemma struct_file_layout:
  "layout struct_file = (184, 8)"
  "member_offsets struct_file =
     [0, 4, 8, 16, 24, 32, 40, 44, 48, 56, 64, 80, 112, 120, 128, 132, 136, 144, 176]"
  by (simp_all add: struct_file_def layout_arith)

lemma linux_binprm_layout:
  "layout linux_binprm = (408, 8)"
  "member_offsets linux_binprm =
     [0, 8, 16, 24, 32, 40, 40, 48, 56, 64, 72, 80, 84, 88, 92, 96, 104, 112, 120, 124, 128, 136, 152]"
  by (simp_all add: linux_binprm_def layout_arith)

lemma record_layouts:
  "layout bpf_syscall_rule_type = (132, 4)" "member_offsets bpf_syscall_rule_type = [0, 128]"
  by (simp_all add: bpf_syscall_rule_type_def layout_arith)

lemma struct_file_members:
  "offset_of struct_file ''f_mode'' = Some 4" "offset_of struct_file ''__bindgen_anon_1'' = Some 64"
  by (simp_all add: offset_of_def struct_file_layout) (simp_all add: struct_file_def)

lemma linux_binprm_members:
  "offset_of linux_binprm ''file'' = Some 64" "offset_of linux_binprm ''_bitfield_1'' = Some 40"
  by (simp_all add: offset_of_def linux_binprm_layout) (simp_all add: linux_binprm_def)

theorem layout_sound_witness:
  "size_of linux_binprm mod align_of linux_binprm = 0 \<and> (64::nat) + size_of c_ptr \<le> size_of linux_binprm"
proof -
  have "scalars_ok linux_binprm"
    by (simp add: linux_binprm_def rlimit_def)
  then show ?thesis
    using layout_sound [of "members linux_binprm" 9] linux_binprm_layout
    by (simp add: linux_binprm_def del: layout.simps member_offsets.simps)
qed

end
