(* ===== verification/Bitfield.thy ===== *)
theory Bitfield
  imports Prelude
begin

text \<open>
  \<open>__BindgenBitfieldUnit\<close> (\<open>vmlinux.rs\<close>): bit fields over an array of bytes.  \<open>big\<close> is
  \<open>cfg!(target_endian = "big")\<close>; \<open>None\<close> is a panic (an assertion of the debug build that fails, or an
  index out of bounds).
\<close>

unbundle bit_operations_syntax

section \<open>Single bits\<close>

definition bit_index :: "bool \<Rightarrow> nat \<Rightarrow> nat" where
  "bit_index big index = (if big then 7 - index mod 8 else index mod 8)"

definition extract_bit :: "bool \<Rightarrow> u8 \<Rightarrow> nat \<Rightarrow> bool" where
  "extract_bit big b index = (let mask = push_bit (bit_index big index) 1 in b AND mask = mask)"

definition change_bit :: "bool \<Rightarrow> u8 \<Rightarrow> nat \<Rightarrow> bool \<Rightarrow> u8" where
  "change_bit big b index val =
     (let mask = push_bit (bit_index big index) 1 in if val then b OR mask else b AND NOT mask)"

definition get_bit :: "bool \<Rightarrow> u8 list \<Rightarrow> nat \<Rightarrow> bool option" where
  "get_bit big storage index =
     (if index div 8 < length storage then Some (extract_bit big (storage ! (index div 8)) index) else None)"

definition set_bit_at :: "bool \<Rightarrow> u8 list \<Rightarrow> nat \<Rightarrow> bool \<Rightarrow> u8 list option" where
  "set_bit_at big storage index val =
     (if index div 8 < length storage
      then Some (storage[index div 8 := change_bit big (storage ! (index div 8)) index val])
      else None)"

section \<open>Fields\<close>

definition field_bit :: "bool \<Rightarrow> nat \<Rightarrow> nat \<Rightarrow> nat" where
  "field_bit big width i = (if big then width - 1 - i else i)"

text \<open>The three assertions at the head of \<open>get\<close> and \<open>set\<close>.\<close>

definition field_asserts :: "u8 list \<Rightarrow> nat \<Rightarrow> nat \<Rightarrow> bool" where
  "field_asserts storage offset width \<longleftrightarrow>
     width \<le> 64 \<and> offset div 8 < length storage \<and> (offset + width) div 8 \<le> length storage"

fun get_loop :: "bool \<Rightarrow> u8 list \<Rightarrow> nat \<Rightarrow> nat \<Rightarrow> nat list \<Rightarrow> u64 \<Rightarrow> u64 option" where
  "get_loop big storage offset width [] val = Some val"
| "get_loop big storage offset width (i # is) val =
     (case get_bit big storage (i + offset) of
        None \<Rightarrow> None
      | Some b \<Rightarrow>
          get_loop big storage offset width is
            (if b then val OR push_bit (field_bit big width i) 1 else val))"

definition get_field :: "bool \<Rightarrow> u8 list \<Rightarrow> nat \<Rightarrow> u8 \<Rightarrow> u64 option" where
  "get_field big storage offset bit_width =
     (if field_asserts storage offset (unat bit_width)
      then get_loop big storage offset (unat bit_width) [0..<unat bit_width] 0 else None)"

fun set_loop :: "bool \<Rightarrow> nat \<Rightarrow> nat \<Rightarrow> u64 \<Rightarrow> nat list \<Rightarrow> u8 list \<Rightarrow> u8 list option" where
  "set_loop big offset width val [] storage = Some storage"
| "set_loop big offset width val (i # is) storage =
     (let mask = push_bit i 1;
          val_bit_is_set = (val AND mask = mask)
      in case set_bit_at big storage (field_bit big width i + offset) val_bit_is_set of
           None \<Rightarrow> None
         | Some storage' \<Rightarrow> set_loop big offset width val is storage')"

definition set_field :: "bool \<Rightarrow> u8 list \<Rightarrow> nat \<Rightarrow> u8 \<Rightarrow> u64 \<Rightarrow> u8 list option" where
  "set_field big storage offset bit_width val =
     (if field_asserts storage offset (unat bit_width)
      then set_loop big offset (unat bit_width) val [0..<unat bit_width] storage else None)"

section \<open>Bits of a storage\<close>

definition sbit :: "bool \<Rightarrow> u8 list \<Rightarrow> nat \<Rightarrow> bool" where
  "sbit big storage n = bit (storage ! (n div 8)) (bit_index big n)"

lemma bit_index_less: "bit_index big n < 8"
  by (simp add: bit_index_def less_imp_diff_less)

lemma bit_index_eq: "bit_index big m = bit_index big n \<longleftrightarrow> m mod 8 = n mod 8"
proof -
  have "m mod 8 < 8" "n mod 8 < 8"
    by simp_all
  then show ?thesis
    by (auto simp: bit_index_def)
qed

lemma mask_set_iff:
  fixes w :: "'a :: len word"
  assumes "k < LENGTH('a)"
  shows "w AND 2 ^ k = 2 ^ k \<longleftrightarrow> bit w k"
proof
  assume "w AND 2 ^ k = 2 ^ k"
  then have "bit (w AND 2 ^ k) k = bit (2 ^ k :: 'a word) k"
    by (rule arg_cong)
  then show "bit w k"
    using assms by (simp add: bit_simps)
next
  assume "bit w k"
  then show "w AND 2 ^ k = 2 ^ k"
    by (intro bit_word_eqI) (auto simp: bit_simps)
qed

lemma extract_bit_sbit:
  "extract_bit big (storage ! (n div 8)) n = sbit big storage n"
  using bit_index_less [of big n] by (simp add: extract_bit_def sbit_def Let_def mask_set_iff [where 'a = 8])

lemma get_bit_sbit:
  "get_bit big storage n = (if n div 8 < length storage then Some (sbit big storage n) else None)"
  by (simp add: get_bit_def extract_bit_sbit)

lemma bit_change:
  assumes "k < 8"
  shows "bit (change_bit big b n val) k \<longleftrightarrow> (if k = bit_index big n then val else bit b k)"
  using assms by (auto simp: change_bit_def Let_def bit_simps)

lemma set_bit_at_SomeD:
  assumes "set_bit_at big storage n val = Some storage'"
  shows "length storage' = length storage"
    and "m div 8 < length storage \<Longrightarrow> sbit big storage' m = (if m = n then val else sbit big storage m)"
proof -
  have st: "storage' = storage[n div 8 := change_bit big (storage ! (n div 8)) n val]" "n div 8 < length storage"
    using assms by (auto simp: set_bit_at_def split: if_splits)
  then show "length storage' = length storage"
    by simp
  have "m = n \<longleftrightarrow> m div 8 = n div 8 \<and> bit_index big m = bit_index big n"
    by (metis bit_index_eq div_mod_decomp)
  then show "sbit big storage' m = (if m = n then val else sbit big storage m)" if "m div 8 < length storage"
    using st that by (auto simp: sbit_def bit_change bit_index_less nth_list_update)
qed

section \<open>Fields as words\<close>

lemma field_bit_less: "i < w \<Longrightarrow> field_bit big w i < w"
  by (auto simp: field_bit_def)

lemma field_bit_inj: "i < w \<Longrightarrow> j < w \<Longrightarrow> field_bit big w i = field_bit big w j \<longleftrightarrow> i = j"
  by (auto simp: field_bit_def)

lemma field_bit_twice: "i < w \<Longrightarrow> field_bit big w (field_bit big w i) = i"
  by (auto simp: field_bit_def)

lemma get_loop_bits:
  assumes "\<forall>i \<in> set is. (i + offset) div 8 < length storage" and "\<forall>i \<in> set is. i < width" and "width \<le> 64"
  shows "\<exists>v. get_loop big storage offset width is val = Some v \<and>
    (\<forall>k. bit v k \<longleftrightarrow> bit val k \<or> (\<exists>i \<in> set is. k = field_bit big width i \<and> sbit big storage (i + offset)))"
  using assms(1,2)
proof (induction "is" arbitrary: val)
  case (Cons i js)
  let ?val = "if sbit big storage (i + offset) then val OR 2 ^ field_bit big width i else val"
  obtain v where v: "get_loop big storage offset width js ?val = Some v"
    "\<forall>k. bit v k \<longleftrightarrow> bit ?val k \<or> (\<exists>i \<in> set js. k = field_bit big width i \<and> sbit big storage (i + offset))"
    using Cons.IH [of ?val] Cons.prems by auto
  have "field_bit big width i < 64"
    using field_bit_less [of i width big] Cons.prems(2) assms(3) by simp
  then show ?case
    using v Cons.prems(1) by (auto simp: get_bit_sbit bit_simps)
qed simp

lemma set_loop_bits:
  assumes "\<forall>i \<in> set is. (field_bit big width i + offset) div 8 < length storage" and "\<forall>i \<in> set is. i < width"
    and "distinct is" and "width \<le> 64"
  shows "\<exists>st. set_loop big offset width val is storage = Some st \<and> length st = length storage \<and>
    (\<forall>m. m div 8 < length storage \<longrightarrow> sbit big st m =
       (if \<exists>i \<in> set is. m = field_bit big width i + offset
        then bit val (field_bit big width (m - offset)) else sbit big storage m))"
  using assms(1-3)
proof (induction "is" arbitrary: storage)
  case (Cons i js)
  let ?n = "field_bit big width i + offset"
  obtain st1 where st1: "set_bit_at big storage ?n (bit val i) = Some st1"
    using Cons.prems(1) by (simp add: set_bit_at_def)
  note step = set_bit_at_SomeD [OF st1]
  obtain st where st: "set_loop big offset width val js st1 = Some st" "length st = length st1"
    "\<forall>m. m div 8 < length st1 \<longrightarrow> sbit big st m =
       (if \<exists>i \<in> set js. m = field_bit big width i + offset
        then bit val (field_bit big width (m - offset)) else sbit big st1 m)"
    using Cons.IH [of st1] Cons.prems step(1) by auto
  have i: "i < 64" "i < width"
    using Cons.prems(2) assms(4) by auto
  then have "set_loop big offset width val (i # js) storage = Some st"
    using st1 st(1) by (simp add: Let_def mask_set_iff)
  then show ?case
    using st(2,3) step i by (auto simp: field_bit_twice)
qed simp

text \<open>The bit field lies inside the storage.\<close>

definition field_fits :: "u8 list \<Rightarrow> nat \<Rightarrow> u8 \<Rightarrow> bool" where
  "field_fits storage offset bit_width \<longleftrightarrow> unat bit_width \<le> 64 \<and> 0 < unat bit_width \<and>
     offset + unat bit_width \<le> 8 * length storage"

lemma fits_bits:
  assumes "field_fits storage offset bit_width"
  shows "field_asserts storage offset (unat bit_width)"
    and "i < unat bit_width \<Longrightarrow> (i + offset) div 8 < length storage"
  using assms by (auto simp: field_fits_def field_asserts_def)

lemma get_field_bits:
  assumes "field_fits storage offset bit_width"
  shows "\<exists>v. get_field big storage offset bit_width = Some v \<and>
    (\<forall>k. bit v k \<longleftrightarrow> k < unat bit_width \<and> sbit big storage (field_bit big (unat bit_width) k + offset))"
proof -
  let ?w = "unat bit_width"
  have w: "?w \<le> 64"
    using assms by (simp add: field_fits_def)
  obtain v where v: "get_loop big storage offset ?w [0..<?w] 0 = Some v"
    "\<forall>k. bit v k \<longleftrightarrow> (\<exists>i \<in> {0..<?w}. k = field_bit big ?w i \<and> sbit big storage (i + offset))"
    using get_loop_bits [of "[0..<?w]" offset storage ?w big 0] fits_bits(2) [OF assms] w by auto
  moreover have "(\<exists>i \<in> {0..<?w}. k = field_bit big ?w i \<and> sbit big storage (i + offset)) \<longleftrightarrow>
      k < ?w \<and> sbit big storage (field_bit big ?w k + offset)" for k
    by (auto simp: field_bit_twice field_bit_less intro!: bexI [of _ "field_bit big ?w k"])
  ultimately show ?thesis
    using fits_bits(1) [OF assms] by (simp add: get_field_def)
qed

lemma set_field_bits:
  assumes "field_fits storage offset bit_width"
  shows "\<exists>st. set_field big storage offset bit_width val = Some st \<and> length st = length storage \<and>
    (\<forall>m. m div 8 < length storage \<longrightarrow> sbit big st m =
       (if offset \<le> m \<and> m < offset + unat bit_width
        then bit val (field_bit big (unat bit_width) (m - offset)) else sbit big storage m))"
proof -
  let ?w = "unat bit_width"
  have w: "?w \<le> 64"
    using assms by (simp add: field_fits_def)
  have inside: "(\<exists>i \<in> {0..<?w}. m = field_bit big ?w i + offset) \<longleftrightarrow> offset \<le> m \<and> m < offset + ?w" for m
  proof
    assume "offset \<le> m \<and> m < offset + ?w"
    then have "m - offset < ?w" "m = field_bit big ?w (field_bit big ?w (m - offset)) + offset"
      by (auto simp: field_bit_twice)
    then show "\<exists>i \<in> {0..<?w}. m = field_bit big ?w i + offset"
      using field_bit_less [of "m - offset" ?w big] by (auto intro!: bexI)
  qed (auto dest: field_bit_less [of _ _ big])
  show ?thesis
    using set_loop_bits [of "[0..<?w]" big ?w offset storage val] fits_bits [OF assms] field_bit_less w
    by (auto simp: set_field_def inside)
qed

lemma get_field_cong:
  assumes "field_fits storage offset bit_width" and "length st = length storage"
    and "\<And>m. offset \<le> m \<Longrightarrow> m < offset + unat bit_width \<Longrightarrow> sbit big st m = sbit big storage m"
  shows "get_field big st offset bit_width = get_field big storage offset bit_width"
proof -
  obtain v where v: "get_field big st offset bit_width = Some v"
    "\<And>k. bit v k \<longleftrightarrow> k < unat bit_width \<and> sbit big st (field_bit big (unat bit_width) k + offset)"
    using get_field_bits [of st offset bit_width big] assms(1,2) by (auto simp: field_fits_def)
  obtain v' where v': "get_field big storage offset bit_width = Some v'"
    "\<And>k. bit v' k \<longleftrightarrow> k < unat bit_width \<and> sbit big storage (field_bit big (unat bit_width) k + offset)"
    using get_field_bits [OF assms(1)] by blast
  have "v = v'"
    using assms(3) field_bit_less by (intro bit_word_eqI) (auto simp: v(2) v'(2) add.commute)
  then show ?thesis
    using v(1) v'(1) by simp
qed

text \<open>
  A bit field that lies inside its storage is read back as written: \<open>set\<close> succeeds, \<open>get\<close> then
  returns the low bits of the value, and a field that does not overlap it keeps its value.
\<close>

lemma bitfield_trip:
  assumes "field_fits storage offset bit_width"
  shows "\<exists>st. set_field big storage offset bit_width val = Some st \<and>
     get_field big st offset bit_width = Some (take_bit (unat bit_width) val) \<and>
     (field_fits storage offset' bit_width' \<and>
      (offset' + unat bit_width' \<le> offset \<or> offset + unat bit_width \<le> offset') \<longrightarrow>
        get_field big st offset' bit_width' = get_field big storage offset' bit_width')"
proof -
  obtain st where st: "set_field big storage offset bit_width val = Some st" "length st = length storage"
    "\<And>m. m div 8 < length storage \<Longrightarrow> sbit big st m =
       (if offset \<le> m \<and> m < offset + unat bit_width
        then bit val (field_bit big (unat bit_width) (m - offset)) else sbit big storage m)"
    using set_field_bits [OF assms] by blast
  obtain v where v: "get_field big st offset bit_width = Some v"
    "\<And>k. bit v k \<longleftrightarrow> k < unat bit_width \<and> sbit big st (field_bit big (unat bit_width) k + offset)"
    using get_field_bits [of st offset bit_width big] assms st(2) by (auto simp: field_fits_def)
  have "(field_bit big (unat bit_width) k + offset) div 8 < length storage" if "k < unat bit_width" for k
    using fits_bits(2) [OF assms] field_bit_less [OF that] by blast
  then have "v = take_bit (unat bit_width) val"
    using st(3) field_bit_less by (intro bit_word_eqI) (auto simp: v(2) bit_simps field_bit_twice)
  moreover have "get_field big st offset' bit_width' = get_field big storage offset' bit_width'"
    if fits: "field_fits storage offset' bit_width'"
      and apart: "offset' + unat bit_width' \<le> offset \<or> offset + unat bit_width \<le> offset'"
  proof (rule get_field_cong [OF fits st(2)])
    fix m assume m: "offset' \<le> m" "m < offset' + unat bit_width'"
    then have "m div 8 < length storage"
      using fits by (auto simp: field_fits_def)
    then show "sbit big st m = sbit big storage m"
      using st(3) m apart by auto
  qed
  ultimately show ?thesis
    using st(1) v(1) by blast
qed

end
