(* ===== verification/Binprm_Flags.thy ===== *)
theory Binprm_Flags
  imports Bitfield
begin

text \<open>
  The bit fields of \<open>struct linux_binprm\<close> (\<open>vmlinux.rs\<close>): six flags in one byte, at a position and
  width of one bit each, on the little-endian target of the eBPF programs.
\<close>

text \<open>\<open>self._bitfield_1.get(i, 1) as u32\<close> and \<open>self._bitfield_1.set(i, 1, val as u64)\<close>.\<close>

abbreviation flag_get :: "u8 list \<Rightarrow> nat \<Rightarrow> u32 option" where
  "flag_get storage i \<equiv> map_option ucast (get_field False storage i 1)"

abbreviation flag_set :: "u8 list \<Rightarrow> nat \<Rightarrow> u32 \<Rightarrow> u8 list option" where
  "flag_set storage i val \<equiv> set_field False storage i 1 (ucast val)"

definition have_execfd :: "u8 list \<Rightarrow> u32 option" where
  "have_execfd storage = flag_get storage 0"

definition set_have_execfd :: "u8 list \<Rightarrow> u32 \<Rightarrow> u8 list option" where
  "set_have_execfd storage val = flag_set storage 0 val"

definition execfd_creds :: "u8 list \<Rightarrow> u32 option" where
  "execfd_creds storage = flag_get storage 1"

definition set_execfd_creds :: "u8 list \<Rightarrow> u32 \<Rightarrow> u8 list option" where
  "set_execfd_creds storage val = flag_set storage 1 val"

definition secureexec :: "u8 list \<Rightarrow> u32 option" where
  "secureexec storage = flag_get storage 2"

definition set_secureexec :: "u8 list \<Rightarrow> u32 \<Rightarrow> u8 list option" where
  "set_secureexec storage val = flag_set storage 2 val"

definition point_of_no_return :: "u8 list \<Rightarrow> u32 option" where
  "point_of_no_return storage = flag_get storage 3"

definition set_point_of_no_return :: "u8 list \<Rightarrow> u32 \<Rightarrow> u8 list option" where
  "set_point_of_no_return storage val = flag_set storage 3 val"

definition comm_from_dentry :: "u8 list \<Rightarrow> u32 option" where
  "comm_from_dentry storage = flag_get storage 4"

definition set_comm_from_dentry :: "u8 list \<Rightarrow> u32 \<Rightarrow> u8 list option" where
  "set_comm_from_dentry storage val = flag_set storage 4 val"

definition is_check :: "u8 list \<Rightarrow> u32 option" where
  "is_check storage = flag_get storage 5"

definition set_is_check :: "u8 list \<Rightarrow> u32 \<Rightarrow> u8 list option" where
  "set_is_check storage val = flag_set storage 5 val"

lemmas flag_getters =
  have_execfd_def execfd_creds_def secureexec_def point_of_no_return_def comm_from_dentry_def is_check_def

lemmas flag_setters =
  set_have_execfd_def set_execfd_creds_def set_secureexec_def set_point_of_no_return_def set_comm_from_dentry_def set_is_check_def

text \<open>\<open>new_bitfield_1\<close> starts from a zero byte and sets the six fields in turn.\<close>

definition new_bitfield_1 :: "u32 \<Rightarrow> u32 \<Rightarrow> u32 \<Rightarrow> u32 \<Rightarrow> u32 \<Rightarrow> u32 \<Rightarrow> u8 list option" where
  "new_bitfield_1 a b c d e f =
     Option.bind (flag_set [0] 0 a) (\<lambda>u.
     Option.bind (flag_set u 1 b) (\<lambda>u.
     Option.bind (flag_set u 2 c) (\<lambda>u.
     Option.bind (flag_set u 3 d) (\<lambda>u.
     Option.bind (flag_set u 4 e) (\<lambda>u. flag_set u 5 f)))))"

lemma one_bit: "unat (1 :: u8) = 1"
  by simp

lemma flag_fits: "length st = 1 \<Longrightarrow> i < 8 \<Longrightarrow> field_fits st i 1"
  by (simp add: field_fits_def)

lemma flag_set_get:
  assumes "length st = 1" and "i < 8"
  shows "\<exists>st'. flag_set st i val = Some st' \<and> length st' = 1 \<and>
    flag_get st' i = Some (val AND 1) \<and> (\<forall>j < 8. j \<noteq> i \<longrightarrow> flag_get st' j = flag_get st j)"
proof -
  obtain st' where st': "set_field False st i 1 (ucast val) = Some st'" "length st' = length st"
    using set_field_bits [OF flag_fits [OF assms]] by blast
  have low: "ucast (take_bit 1 (ucast val :: u64)) = val AND 1"
    by (rule bit_word_eqI) (auto simp: bit_simps simp flip: bit_0)
  have "flag_get st' i = Some (val AND 1)"
    using bitfield_trip [OF flag_fits [OF assms], of False "ucast val" i 1] st'(1) low by (auto simp: one_bit)
  moreover have "flag_get st' j = flag_get st j" if "j < 8" "j \<noteq> i" for j
    using bitfield_trip [OF flag_fits [OF assms], of False "ucast val" j 1] st'(1)
      flag_fits [OF assms(1) that(1)] that(2) by (auto simp: one_bit)
  ultimately show ?thesis
    using st' assms(1) by simp
qed

text \<open>
  The six flags are independent: the unit built from six values gives each of them back, reduced
  to its lowest bit.
\<close>

theorem new_bitfield_1_roundtrip:
  "\<exists>st. new_bitfield_1 a b c d e f = Some st \<and> have_execfd st = Some (a AND 1) \<and>
     execfd_creds st = Some (b AND 1) \<and> secureexec st = Some (c AND 1) \<and>
     point_of_no_return st = Some (d AND 1) \<and> comm_from_dentry st = Some (e AND 1) \<and>
     is_check st = Some (f AND 1)"
proof -
  obtain s0 where 0: "flag_set [0] 0 a = Some s0" "length s0 = 1" "flag_get s0 0 = Some (a AND 1)"
    using flag_set_get [of "[0]" 0 a] by auto
  obtain s1 where 1: "flag_set s0 1 b = Some s1" "length s1 = 1" "flag_get s1 1 = Some (b AND 1)"
    "\<And>j. j < 8 \<Longrightarrow> j \<noteq> 1 \<Longrightarrow> flag_get s1 j = flag_get s0 j"
    using flag_set_get [of s0 1 b] 0(2) by auto
  obtain s2 where 2: "flag_set s1 2 c = Some s2" "length s2 = 1" "flag_get s2 2 = Some (c AND 1)"
    "\<And>j. j < 8 \<Longrightarrow> j \<noteq> 2 \<Longrightarrow> flag_get s2 j = flag_get s1 j"
    using flag_set_get [of s1 2 c] 1(2) by auto
  obtain s3 where 3: "flag_set s2 3 d = Some s3" "length s3 = 1" "flag_get s3 3 = Some (d AND 1)"
    "\<And>j. j < 8 \<Longrightarrow> j \<noteq> 3 \<Longrightarrow> flag_get s3 j = flag_get s2 j"
    using flag_set_get [of s2 3 d] 2(2) by auto
  obtain s4 where 4: "flag_set s3 4 e = Some s4" "length s4 = 1" "flag_get s4 4 = Some (e AND 1)"
    "\<And>j. j < 8 \<Longrightarrow> j \<noteq> 4 \<Longrightarrow> flag_get s4 j = flag_get s3 j"
    using flag_set_get [of s3 4 e] 3(2) by auto
  obtain s5 where 5: "flag_set s4 5 f = Some s5" "flag_get s5 5 = Some (f AND 1)"
    "\<And>j. j < 8 \<Longrightarrow> j \<noteq> 5 \<Longrightarrow> flag_get s5 j = flag_get s4 j"
    using flag_set_get [of s4 5 f] 4(2) by auto
  have "new_bitfield_1 a b c d e f = Some s5"
    by (simp add: new_bitfield_1_def 0(1) 1(1) 2(1) 3(1) 4(1) 5(1) del: map_option_eq_Some One_nat_def)
  then show ?thesis
    using 0(3) 1(3,4) 2(3,4) 3(3,4) 4(3,4) 5(2,3) unfolding flag_getters
    by (intro exI [of _ s5]) simp
qed

end
