(* ===== verification/Unit_Tests.thy ===== *)
theory Unit_Tests
  imports Doctor Watch_Child Monitor_New Sync_Compiler Generator Logging
begin

text \<open>
  The unit tests of the repository, run on the model.  Each test is the boolean of its assertions, with
  the name it has in the source, and is proved by evaluation.  A policy text is given by what
  \<open>serde_yaml\<close> reads from it, and the regular expressions are those of the \<open>mini_api\<close> engine; a call of
  the system is given by its answer, the JSON text of an entry by the object it is written from.
\<close>

section \<open>The policy module\<close>

definition yaml_fs :: "string list \<Rightarrow> string list \<Rightarrow> string list \<Rightarrow> raw_filesystem" where
  "yaml_fs rd wr dn = \<lparr>rf_allow_read = rd, rf_allow_write = wr, rf_deny_always = dn\<rparr>"

definition yaml_doc ::
    "string \<Rightarrow> raw_filesystem \<Rightarrow> string list \<Rightarrow> bool \<Rightarrow> syscall_deny_rule list \<Rightarrow> raw_policy" where
  "yaml_doc m fs domains deny_else deny =
     \<lparr>raw_mode = m, raw_fs = fs, raw_net = \<lparr>rn_allow_domains = domains, rn_deny_all_else = deny_else\<rparr>,
      raw_sys = \<lparr>rs_deny = deny\<rparr>\<rparr>"

text \<open>\<open>Policy::from_yaml(yaml)\<close> for a text that reads as \<open>raw\<close>, and its use after \<open>unwrap\<close>.\<close>

definition read_policy :: "raw_policy \<Rightarrow> ((unit, string) policy_error, re_node list policy) result" where
  "read_policy raw = from_yaml mini_api (\<lambda>_. Inr raw) []"

definition holds_of :: "('e, 'a) result \<Rightarrow> ('a \<Rightarrow> bool) \<Rightarrow> bool" where
  "holds_of r P = (case r of Inr a \<Rightarrow> P a | Inl _ \<Rightarrow> False)"

definition fails_with :: "('e, 'a) result \<Rightarrow> ('e \<Rightarrow> bool) \<Rightarrow> bool" where
  "fails_with r P = (case r of Inl e \<Rightarrow> P e | Inr _ \<Rightarrow> False)"

abbreviation no_net :: "raw_filesystem \<Rightarrow> syscall_deny_rule list \<Rightarrow> raw_policy" where
  "no_net fs \<equiv> yaml_doc ''enforce'' fs [] True"

definition test_deny_always_wins :: bool where
  "test_deny_always_wins =
     holds_of (read_policy (no_net (yaml_fs [''/home/user/projects/**''] [] [''/home/user/projects/app/.env'']) []))
       (\<lambda>p. \<not> path_allowed mini_api p ''/home/user/projects/app/.env'' False \<and>
            path_allowed mini_api p ''/home/user/projects/app/main.rs'' False)"

definition test_glob_starting_with_double_star :: bool where
  "test_glob_starting_with_double_star =
     holds_of (read_policy (no_net (yaml_fs [''/home/user/**''] [] [''**/.env'']) []))
       (\<lambda>p. \<not> path_allowed mini_api p ''/home/user/projects/app/.env'' False \<and>
            \<not> path_allowed mini_api p ''/other/.env'' False \<and> path_allowed mini_api p ''/home/user/main.rs'' False)"

definition test_zero_trust_default_deny :: bool where
  "test_zero_trust_default_deny =
     holds_of (read_policy (no_net (yaml_fs [''/home/user/**''] [] []) []))
       (\<lambda>p. \<not> path_allowed mini_api p ''/etc/passwd'' False)"

definition test_domain_allowed_with_deny_all_else :: bool where
  "test_domain_allowed_with_deny_all_else =
     (holds_of (read_policy (yaml_doc ''enforce'' (yaml_fs [''**''] [] []) [''api.anthropic.com''] True []))
       (\<lambda>p. domain_allowed p ''api.anthropic.com'' \<and> domain_allowed p ''API.ANTHROPIC.COM'' \<and>
            \<not> domain_allowed p ''google.com'') \<and>
      holds_of (read_policy (yaml_doc ''enforce'' (yaml_fs [''**''] [] []) [''api.anthropic.com''] False []))
       (\<lambda>p. domain_allowed p ''api.anthropic.com'' \<and> domain_allowed p ''google.com''))"

definition test_generic_syscall_checks :: bool where
  "test_generic_syscall_checks =
     holds_of (read_policy (no_net (yaml_fs [''**''] [] [])
         [Simple ''ptrace'', Structured ''execve:/bin/sh'' True]))
       (\<lambda>p. syscall_denied p ''ptrace'' \<and> syscall_denied p ''ptrace:PTRACE_ATTACH'' \<and>
            \<not> should_kill_on_syscall_deny p ''ptrace'' \<and> syscall_denied p ''execve:/bin/sh'' \<and>
            should_kill_on_syscall_deny p ''execve:/bin/sh'' \<and> \<not> syscall_denied p ''execve:/bin/ls'')"

definition test_invalid_mode_returns_err :: bool where
  "test_invalid_mode_returns_err =
     fails_with (read_policy (yaml_doc ''yolo'' (yaml_fs [''**''] [] []) [] True []))
       (\<lambda>e. case e of InvalidMode m \<Rightarrow> m = ''yolo'' | _ \<Rightarrow> False)"

definition test_empty_allow_list_returns_err :: bool where
  "test_empty_allow_list_returns_err =
     fails_with (read_policy (no_net (yaml_fs [] [] [''**/.env'']) []))
       (\<lambda>e. case e of EmptyAllowList \<Rightarrow> True | _ \<Rightarrow> False)"

lemma policy_tests:
  test_deny_always_wins test_glob_starting_with_double_star test_zero_trust_default_deny
  test_domain_allowed_with_deny_all_else test_generic_syscall_checks test_invalid_mode_returns_err
  test_empty_allow_list_returns_err
  by code_simp+

section \<open>The compiler for the synchronous mode\<close>

definition make_test_policy ::
    "string list \<Rightarrow> string list \<Rightarrow> string list \<Rightarrow> (string \<times> bool) list \<Rightarrow>
     ((unit, string) policy_error, re_node list policy) result" where
  "make_test_policy allow_read allow_write deny_always deny_sys =
     read_policy (no_net (yaml_fs allow_read allow_write deny_always) (map (\<lambda>(s, k). Structured s k) deny_sys))"

definition test_sync_compiler_success :: bool where
  "test_sync_compiler_success =
     holds_of (make_test_policy [''/home/user/**'', ''/etc/hosts''] [''/tmp/''] [''**/.env'', ''/tmp/forbidden/'']
         [(''execve:/bin/sh'', False)])
       (\<lambda>p. holds_of (try_compile_for_sync p)
         (\<lambda>c. length (allow_read_prefixes c) = 2 \<and> length (allow_write_prefixes c) = 1 \<and>
              length (deny_always_prefixes c) = 1 \<and> length (deny_syscalls_rules c) = 1 \<and>
              take 5 (hd (allow_write_prefixes c)) = as_bytes ''/tmp/''))"

definition test_sync_compiler_unsupported_glob :: bool where
  "test_sync_compiler_unsupported_glob =
     holds_of (make_test_policy [''/home/*/projects/**''] [] [] [])
       (\<lambda>p. fails_with (try_compile_for_sync p) (\<lambda>e. e = UnsupportedGlob ''/home/*/projects/**''))"

definition test_sync_compiler_unsupported_syscall :: bool where
  "test_sync_compiler_unsupported_syscall =
     holds_of (make_test_policy [''/tmp/''] [] [] [(''ptrace'', True)])
       (\<lambda>p. fails_with (try_compile_for_sync p) (\<lambda>e. e = UnsupportedGlob ''ptrace''))"

lemma sync_compiler_tests:
  test_sync_compiler_success test_sync_compiler_unsupported_glob test_sync_compiler_unsupported_syscall
  by code_simp+

section \<open>The enforcer\<close>

text \<open>\<open>MockKiller\<close>: it kills nothing and fails on demand; what it stored is the last kill of the trace.\<close>

definition mock_killer :: "bool \<Rightarrow> killer" where
  "mock_killer should_fail = (\<lambda>pid.
     if should_fail then Err (IoError PermissionDenied ''permissao negada'') else Ok ())"

definition enforcer_policy :: "mode \<Rightarrow> ((unit, string) policy_error, re_node list policy) result" where
  "enforcer_policy m =
     read_policy (yaml_doc (if m = Enforce then ''enforce'' else ''monitor'')
       (yaml_fs [''/home/user/projects/**''] [''/home/user/projects/**''] [''**/.env''])
       [''api.anthropic.com''] True [Structured ''ptrace'' True])"

definition test_event :: "event_type \<Rightarrow> string \<Rightarrow> bool \<Rightarrow> event" where
  "test_event t target resolved =
     \<lparr>event_pid = 1234, event_kind = t, event_target = target, event_resolved = resolved\<rparr>"

text \<open>The action that \<open>enforce\<close> returns and the processes it killed.\<close>

definition enforce_gives ::
    "((unit, string) policy_error, re_node list policy) result \<Rightarrow> bool \<Rightarrow> event \<Rightarrow> action \<Rightarrow> u32 list \<Rightarrow> bool" where
  "enforce_gives policy should_fail ev act killed =
     holds_of policy (\<lambda>p.
       case enforce mini_api p (mock_killer should_fail) ev of
         (trace, res) \<Rightarrow> holds_of res (\<lambda>a. a = act) \<and> kills trace = killed)"

definition test_enforcer_allow_read :: bool where
  "test_enforcer_allow_read =
     enforce_gives (enforcer_policy Enforce) False (test_event Read ''/home/user/projects/main.rs'' False) Allow []"

definition test_enforcer_deny_enforce :: bool where
  "test_enforcer_deny_enforce =
     enforce_gives (enforcer_policy Enforce) False (test_event Read ''/home/user/projects/app/.env'' False) Kill [1234]"

definition test_enforcer_deny_monitor :: bool where
  "test_enforcer_deny_monitor =
     enforce_gives (enforcer_policy Monitor) False (test_event Read ''/home/user/projects/app/.env'' False) Log []"

definition test_enforcer_ipv6_unsupported :: bool where
  "test_enforcer_ipv6_unsupported =
     enforce_gives (enforcer_policy Enforce) False (test_event Network ''<ipv6-nao-suportado>'' True) Kill [1234]"

definition test_enforcer_network_unresolved :: bool where
  "test_enforcer_network_unresolved =
     enforce_gives (enforcer_policy Enforce) False (test_event Network ''api.anthropic.com'' False) Kill [1234]"

definition test_enforcer_network_allowed :: bool where
  "test_enforcer_network_allowed =
     enforce_gives (enforcer_policy Enforce) False (test_event Network ''api.anthropic.com'' True) Allow []"

definition test_enforcer_syscall_denied :: bool where
  "test_enforcer_syscall_denied =
     enforce_gives (enforcer_policy Enforce) False (test_event Syscall ''ptrace'' False) Kill [1234]"

definition test_enforcer_syscall_allowed :: bool where
  "test_enforcer_syscall_allowed =
     enforce_gives (enforcer_policy Enforce) False (test_event Syscall ''openat'' False) Allow []"

definition test_enforcer_syscall_denied_no_kill :: bool where
  "test_enforcer_syscall_denied_no_kill =
     enforce_gives (read_policy (no_net (yaml_fs [''**''] [] []) [Simple ''ptrace''])) False (test_event Syscall ''ptrace'' False) Log []"

definition test_enforcer_kill_error :: bool where
  "test_enforcer_kill_error =
     holds_of (enforcer_policy Enforce) (\<lambda>p.
       fails_with
         (snd (enforce mini_api p (mock_killer True) (test_event Read ''/home/user/projects/app/.env'' False)))
         (\<lambda>e. case e of KillFailed pid source \<Rightarrow> pid = 1234 \<and> io_error_kind source = PermissionDenied))"

lemma enforcer_tests:
  test_enforcer_allow_read test_enforcer_deny_enforce test_enforcer_deny_monitor test_enforcer_ipv6_unsupported test_enforcer_network_unresolved test_enforcer_network_allowed test_enforcer_syscall_denied test_enforcer_syscall_allowed test_enforcer_syscall_denied_no_kill test_enforcer_kill_error
  by code_simp+

section \<open>The discovery\<close>

text \<open>A directory tree is the set of its files and directories, each a regular file of the user or not.\<close>

definition tree_fs :: "(path \<times> metadata) list \<Rightarrow> file_system" where
  "tree_fs files =
     \<lparr>fs_exists = (\<lambda>p. map_of files p \<noteq> None),
      fs_symlink_metadata = (\<lambda>p. case map_of files p of
         Some meta \<Rightarrow> Ok meta | None \<Rightarrow> Err (IoError NotFoundKind []))\<rparr>"

abbreviation user_file :: "u32 \<Rightarrow> metadata" where
  "user_file m \<equiv> \<lparr>md_is_file = True, md_mode = m, md_uid = 1000\<rparr>"

abbreviation user_dir :: metadata where
  "user_dir \<equiv> \<lparr>md_is_file = False, md_mode = 16877, md_uid = 1000\<rparr>"

definition test_user :: user_ids where
  "test_user = \<lparr>ui_euid = 1000, ui_sudo_uid = None\<rparr>"

definition test_validate_discovered_policy_world_writable :: bool where
  "test_validate_discovered_policy_world_writable =
     (let file_path = [''tmp'', ''t'', policy_name];
          result = validate_discovered_policy (tree_fs [(file_path, user_file 33206)]) test_user file_path
      in fails_with result (\<lambda>e. case e of InsecurePolicy _ reason \<Rightarrow> str_contains (reason_text reason) ''o+w'' | _ \<Rightarrow> False))"

definition test_discover_policy_boundary :: bool where
  "test_discover_policy_boundary =
     (let temp_dir = [''tmp'', ''t'']; git_dir = temp_dir @ [''project'']; sub_dir = git_dir @ [''src'', ''module''];
          outer = [(sub_dir, user_dir), (git_dir @ [''.git''], user_dir), (temp_dir @ [policy_name], user_file 33152)];
          inner_policy = git_dir @ [policy_name]
      in holds_of (discover_policy (tree_fs outer) test_user sub_dir) (\<lambda>r. r = None) \<and>
         holds_of (discover_policy (tree_fs ((inner_policy, user_file 33152) # outer)) test_user sub_dir)
           (\<lambda>r. r = Some inner_policy))"

lemma discovery_tests:
  test_validate_discovered_policy_world_writable test_discover_policy_boundary
  by code_simp+

section \<open>The generator\<close>

definition test_generalize_paths_same_dir :: bool where
  "test_generalize_paths_same_dir =
     (generalize_paths id [''/home/user/proj/a.rs'', ''/home/user/proj/b.rs'', ''/home/user/proj/sub/c.rs''] =
        [''/home/user/proj/**''])"

definition test_generalize_paths_different_dirs :: bool where
  "test_generalize_paths_different_dirs =
     (generalize_paths id [''/home/a/x'', ''/tmp/b/y''] = [''/home/a/**'', ''/tmp/b/**''])"

definition test_is_sensitive_path :: bool where
  "test_is_sensitive_path =
     (let sensitive = is_sensitive_path_str (map ascii_lower)
      in sensitive ''/path/to/.env'' \<and> sensitive ''/home/user/.ssh/id_rsa'' \<and> sensitive ''/home/user/my_key.pem'' \<and>
         \<not> sensitive ''/home/user/projects/main.rs'')"

text \<open>The log of the test: what \<open>serde_json\<close> reads from its lines.\<close>

definition test_log_line :: "string \<Rightarrow> string \<Rightarrow> log_line_fields" where
  "test_log_line et target = \<lparr>ll_event_type = Some et, ll_target = Some target, ll_action = None\<rparr>"

definition test_gen_env :: "(unit, unit) gen_env" where
  "test_gen_env =
     \<lparr>open_file = (\<lambda>_. Inr (lines_of [Inr ''1'', Inr ''2'', Inr ''this is corrupted json'', Inr ''3''])),
      lowercase = map ascii_lower,
      read_json = (\<lambda>s.
        if s = ''1'' then Inr (test_log_line ''read'' ''/home/user/proj/a.rs'')
        else if s = ''2'' then Inr (test_log_line ''read'' ''/home/user/proj/.env'')
        else if s = ''3'' then Inr (test_log_line ''write'' ''/home/user/proj/output.log'')
        else Inl ()),
      to_yaml = (\<lambda>_. Inr ''yaml''), write_file = (\<lambda>_ _. Inr ()), ge_show_io = (\<lambda>_. ''io''), ge_show_json = (\<lambda>_. ''json''),
      ge_show_yaml = (\<lambda>_. ''yaml''), ge_debug_path = id, header_time = ''2026-07-06T04:44:15Z'', map_order = id\<rparr>"

definition test_run_generator_skips_sensitive_paths_and_handles_corrupted_json :: bool where
  "test_run_generator_skips_sensitive_paths_and_handles_corrupted_json =
     (let ls = [Inr ''1'', Inr ''2'', Inr ''this is corrupted json'', Inr ''3''];
          generated = build_policy test_gen_env (read_log test_gen_env ls);
          allow_read = gf_allow_read (g_filesystem generated); allow_write = gf_allow_write (g_filesystem generated)
      in (case run_generator test_gen_env ''log'' ''out'' of
            Some (_, Some text, Inr _) \<Rightarrow> str_contains text (''Pol'' @ [CHR 0xC3, CHR 0xAD] @ ''tica gerada automaticamente'') | _ \<Rightarrow> False) \<and>
         g_mode generated = ''enforce'' \<and> List.member allow_read ''/home/user/proj/**'' \<and>
         List.member allow_write ''/home/user/proj/**'' \<and>
         List.member (gf_deny_always (g_filesystem generated)) ''**/.env'' \<and>
         \<not> list_ex (\<lambda>v. str_contains v ''.env'') allow_read \<and> \<not> list_ex (\<lambda>v. str_contains v ''.env'') allow_write \<and>
         List.member (gs_deny (g_syscalls generated)) ''execve:/bin/sh'')"

lemma generator_tests:
  test_generalize_paths_same_dir test_generalize_paths_different_dirs test_is_sensitive_path
  test_run_generator_skips_sensitive_paths_and_handles_corrupted_json
  by code_simp+

section \<open>The monitor\<close>

definition test_process_exists_nonexistent :: bool where
  "test_process_exists_nonexistent = (\<not> process_exists (\<lambda>pid _. if pid = 0x7FFFFFFF then -1 else 0) 0x7FFFFFFF)"

definition test_process_exists_self :: bool where
  "test_process_exists_self = (let own_pid = 42 in process_exists (me_kill example_env) own_pid)"

definition test_monitor_new_rejects_nonexistent_pid :: bool where
  "test_monitor_new_rejects_nonexistent_pid =
     holds_of (read_policy (no_net (yaml_fs [''**''] [] []) [])) (\<lambda>policy.
       fails_with (snd (monitor_new example_env 0x7FFFFFFF policy)) (\<lambda>e. case e of PidDoesNotExist _ \<Rightarrow> True | _ \<Rightarrow> False))"

definition test_parse_dns_answers_valid :: bool where
  "test_parse_dns_answers_valid =
     (let wire = (replicate 12 0)[7 := 1] @ [6] @ as_bytes ''google'' @ [3] @ as_bytes ''com'' @ [0] @ [0, 1, 0, 1] @
            [0xc0, 12] @ [0, 1, 0, 1] @ [0, 0, 0, 60] @ [0, 4] @ [1, 2, 3, 4]
      in parse_dns_answers wire = Returned (Some (''google.com'', [0x01020304])))"

definition test_bpf_lsm_available_mocked :: bool where
  "test_bpf_lsm_available_mocked =
     (bpf_lsm_available (Inr ''lockdown,capability,bpf,landlock'') \<and>
      \<not> bpf_lsm_available (Inr ''lockdown,capability,landlock''))"

lemma monitor_tests:
  test_process_exists_nonexistent test_process_exists_self test_parse_dns_answers_valid test_bpf_lsm_available_mocked
  by code_simp+

lemma monitor_new_test: test_monitor_new_rejects_nonexistent_pid
proof -
  have "is_ok (read_policy (no_net (yaml_fs [''**''] [] []) []))"
    by code_simp
  moreover have "snd (monitor_new example_env 0x7FFFFFFF pol) = Inl (PidDoesNotExist 0x7FFFFFFF)" for pol :: "re_node list policy"
    by (simp add: monitor_new_def process_exists_def example_env_def)
  ultimately show ?thesis
    by (auto simp: test_monitor_new_rejects_nonexistent_pid_def holds_of_def fails_with_def is_ok_def split: sum.splits)
qed

section \<open>The supervisor\<close>

definition test_set_parent_death_signal_succeeds :: bool where
  "test_set_parent_death_signal_succeeds = is_ok (set_parent_death_signal 0 (IoError OtherKind []))"

definition test_parse_c_command_valid :: bool where
  "test_parse_c_command_valid = holds_of (parse_c_command [''ls'', ''-l'']) (\<lambda>c_args. length c_args = 2)"

definition test_parse_c_command_null_byte_returns_err :: bool where
  "test_parse_c_command_null_byte_returns_err =
     fails_with (parse_c_command [''echo'', ''hello'' @ [CHR 0x00] @ ''world'']) (\<lambda>(idx, err). idx = 1)"

definition test_parse_c_command_empty_returns_err :: bool where
  "test_parse_c_command_empty_returns_err = fails_with (parse_c_command []) (\<lambda>(idx, err). idx = 0)"

definition test_check_parent_alive :: bool where
  "test_check_parent_alive =
     (let me = 200; real_ppid = 100 in \<not> check_parent_alive real_ppid me \<and> check_parent_alive real_ppid real_ppid)"

definition test_await_parent_release_success :: bool where
  "test_await_parent_release_success = is_ok (await_parent_release (\<lambda>e. e) (Inr 1))"

definition test_await_parent_release_eof :: bool where
  "test_await_parent_release_eof =
     fails_with (await_parent_release (\<lambda>e. e) (Inr 0)) (\<lambda>e. io_error_kind e = UnexpectedEof)"

lemma watch_tests:
  test_set_parent_death_signal_succeeds
  test_parse_c_command_valid test_parse_c_command_null_byte_returns_err test_parse_c_command_empty_returns_err
  test_check_parent_alive test_await_parent_release_success test_await_parent_release_eof
  by code_simp+

section \<open>The log\<close>

definition test_entry :: "u32 option \<Rightarrow> string option \<Rightarrow> string option \<Rightarrow> string option \<Rightarrow> log_entry" where
  "test_entry pid event_type target act =
     \<lparr>le_timestamp = ''2026-07-05T14:49:30Z'', le_level = ''info'', le_component = ''test'',
      le_message = ''test message'', le_pid = pid, le_event_type = event_type, le_target = target, le_action = act\<rparr>"

definition test_serialize_log_entry :: bool where
  "test_serialize_log_entry =
     (let serialized = entry_fields (test_entry (Some 1234) (Some ''Read'') (Some ''/path/to/file'') (Some ''Allow''))
      in List.member serialized (''timestamp'', JText ''2026-07-05T14:49:30Z'') \<and>
         List.member serialized (''level'', JText ''info'') \<and> List.member serialized (''component'', JText ''test'') \<and>
         List.member serialized (''message'', JText ''test message'') \<and> List.member serialized (''pid'', JNumber 1234) \<and>
         List.member serialized (''event_type'', JText ''Read'') \<and>
         List.member serialized (''target'', JText ''/path/to/file'') \<and> List.member serialized (''action'', JText ''Allow''))"

definition test_omit_none_fields :: bool where
  "test_omit_none_fields =
     (let names = map fst (entry_fields (test_entry None None None None))
      in \<not> List.member names ''pid'' \<and> \<not> List.member names ''event_type'' \<and>
         \<not> List.member names ''target'' \<and> \<not> List.member names ''action'')"

definition test_get_timestamp_runs_without_panic :: bool where
  "test_get_timestamp_runs_without_panic =
     (let ts = get_timestamp (as_bytes ''2026-07-05T14:49:30Z'') (Some 7) in ts \<noteq> [])"

lemma logging_tests:
  test_serialize_log_entry test_omit_none_fields test_get_timestamp_runs_without_panic
  by code_simp+

section \<open>The doctor command\<close>

definition test_collect_doctor_report_does_not_panic :: bool where
  "test_collect_doctor_report_does_not_panic =
     (let report = collect_doctor_report 0 example_doctor in dr_checks report \<noteq> [])"

definition test_doctor_reports_missing_privilege_without_panicking :: bool where
  "test_doctor_reports_missing_privilege_without_panicking =
     (let report = collect_doctor_report_with example_doctor False
      in \<not> dr_is_root report \<and> \<not> dr_has_fatal_error report \<and>
         (case find (\<lambda>c. str_contains (dc_line c) (''N'' @ [CHR 0xC3, CHR 0xA3] @ ''o est'' @ [CHR 0xC3, CHR 0xA1] @ '' rodando como root'')) (dr_checks report) of
            Some priv_check \<Rightarrow> dc_status priv_check = CheckWarn | None \<Rightarrow> False))"

definition test_privilege_check_root :: bool where
  "test_privilege_check_root =
     (dc_status (privilege_check True) = CheckOk \<and> str_contains (dc_line (privilege_check True)) ''Rodando como root'')"

definition test_privilege_check_non_root :: bool where
  "test_privilege_check_non_root =
     (dc_status (privilege_check False) = CheckWarn \<and>
      str_contains (dc_line (privilege_check False)) (''N'' @ [CHR 0xC3, CHR 0xA3] @ ''o est'' @ [CHR 0xC3, CHR 0xA1] @ '' rodando como root''))"

lemma doctor_tests:
  test_collect_doctor_report_does_not_panic
  test_doctor_reports_missing_privilege_without_panicking test_privilege_check_root test_privilege_check_non_root
  by code_simp+

end
