(* ===== verification/Spec2Isabelle.thy ===== *)
theory Spec2Isabelle
  imports Monitor_New Monitor_Paths Enforcer Watch_Round Discovery Program Reactive_Mode Kill_Scope Learning
    Kernel_Types Binprm_Flags Unit_Tests
begin

text \<open>
  Verification of SyscallCage, a supervisor that confines an agent process and its descendants by a
  YAML policy.  The program has two halves.  The eBPF object (\<open>syscallcage-ebpf/src/main.rs\<close>) runs in the
  kernel: tracing programs follow the process tree and record file opens, program starts, connections
  and DNS responses in a ring buffer; two LSM hooks refuse accesses at once.  The user-space program
  (\<open>syscallcage/src\<close>) loads the policy, attaches the programs, and drains the ring buffer into the
  enforcer, which kills.  In the synchronous mode the hooks decide on tables compiled from the policy;
  in the reactive mode, the fallback, the enforcer decides after the fact.

  Theories and sources.  The names of the definitions are those of the source.

  \<^item> Vocabulary: \<open>Prelude\<close> (machine integers, \<open>Result\<close>, buffers), \<open>Utf8\<close>, \<open>Rust_Str\<close> and \<open>Paths\<close> (the
    parts of the standard library that are used: UTF-8, \<open>str\<close>, \<open>std::path\<close>), \<open>Systems\<close> (locales of step
    systems with an invariant or a kept relation), \<open>Access\<close> (the locales of an access decision and of
    two decisions that agree), \<open>Regex_Api\<close> (the contract of the \<open>regex\<close> crate as a locale, and an
    engine for the expressions that globs yield, which interprets it).
  \<^item> \<open>policy/mod.rs\<close>, \<open>policy/matcher.rs\<close>: \<open>Policy\<close> (types, \<open>glob_to_regex\<close>, \<open>from_yaml\<close>, queries), \<open>Glob\<close>
    (what a glob covers, without regular expressions) and \<open>Policy_Facts\<close> (errors of loading; the
    decision on a path in terms of the globs of the file; hosts and system calls).
  \<^item> \<open>policy/discovery.rs\<close>: \<open>Discovery\<close>.  The nearest policy file up to the first \<open>.git\<close>, and the checks
    that make it trustworthy.
  \<^item> \<open>policy_sync_compiler.rs\<close>: \<open>Sync_Compiler\<close>.  Tables of at most 16 prefixes of 128 bytes.
  \<^item> \<open>syscallcage-ebpf/src/main.rs\<close>: \<open>Ebpf_State\<close> (the maps as a record, their contract as locales),
    \<open>Ebpf_Trace\<close> (the nine tracing programs), \<open>Ebpf_Path\<close> (the two byte scans), \<open>Ebpf_Lsm\<close> (the two hooks),
    \<open>Ebpf_System\<close> (all programs in any order as a step relation, with its invariant).  \<open>C_Layout\<close> holds the
    layout rules of C and \<open>repr(C)\<close>; \<open>Kernel_Types\<close>, \<open>Bitfield\<close> and \<open>Binprm_Flags\<close> hold the part of the
    bindings \<open>vmlinux.rs\<close> that the programs rest on: the layouts of \<open>struct file\<close> and \<open>struct linux_binprm\<close>,
    and bit fields.
  \<^item> \<open>monitor/mod.rs\<close>: \<open>Monitor_Setup\<close> (enforcement mode, offsets), \<open>Monitor_New\<close> (attachment, tables and
    fallback), \<open>Dns\<close> (the response parser; every index and slice is checked, a panic is a value), \<open>Monitor_Event\<close> (the
    two declarations of the record, its decoding, the DNS cache), \<open>Monitor_Cache\<close> (the two caches of host
    names along the history of the DNS responses, refused insertions and NUL labels included) and
    \<open>Monitor_Paths\<close> (records from the kernel to the decision), \<open>Monitor_Loop\<close>
    (the event loop; the flags shared by three threads as a step relation), \<open>Monitor_Start\<close>, and \<open>Session\<close>
    (the calls of the handler, and a locale of what the handlers of \<open>main\<close> and \<open>watch\<close> share).
  \<^item> \<open>enforcer/mod.rs\<close>: \<open>Enforcer\<close>.  The effects (log entries, kills) of a decision in order, and its result.
  \<^item> \<open>watch.rs\<close>: \<open>Watch\<close> (command line, supervision rounds), \<open>Watch_Child\<close> (the child between \<open>fork\<close> and
    \<open>execvp\<close>), \<open>Watch_Pipe\<close> (the protocol of both over the pipe; the death of the
    parent sends the child a signal, which the agent may ignore), \<open>Watch_Round\<close> (the interleavings of the
    two branches as the code takes them, a refinement of the protocol).
  \<^item> \<open>policy_generator.rs\<close>: \<open>Generator\<close>, \<open>Generator_Facts\<close> (which globs come out) and \<open>Generator_Session\<close> (how
    the generated policy decides on its own session, as far as the file name in its header is text that a
    YAML comment can hold).
  \<^item> \<open>logging.rs\<close>: \<open>Logging\<close>, and \<open>Effects\<close> (the effects of the program and the log they leave).
  \<^item> \<open>main.rs\<close>: \<open>Cli\<close> (the commands \<open>monitor\<close> and \<open>watch\<close>), \<open>Doctor\<close> and \<open>Program\<close> (\<open>main\<close>).  The commands call
    the definitions of the other components: \<open>main_monitor\<close> resolves and loads the policy, builds the
    monitor, runs its event loop into the enforcer and ends by \<open>after_select\<close>; \<open>main_watch\<close> does so in each
    round of \<open>run\<close>.  A run yields the trace of its effects, what it prints and its exit status.  \<open>Program\<close>
    shows of every run whom it kills, that it reports its failures, and what reaches the log file.
  \<^item> Across components: \<open>Sync_Enforcement\<close> and \<open>Sync_Exec\<close> (the compiled tables decide as the policy does),
    \<open>Sync_Witness\<close> (an example policy), \<open>Reactive_Mode\<close> (from a kernel record to the exit status of the
    program), \<open>Kill_Scope\<close> (the calls of the programs with the process tree and the drained records as
    histories: no kill leaves the family of a target), \<open>Learning\<close> (from a session through its log file and the generator to a policy that admits
    it), \<open>Unit_Tests\<close> (the repository's own unit tests, evaluated on the model), and this theory (the
    synchronous mode from the policy file to the verdict of the hook).

  Reading the model.  A fallible function returns a sum, its error on the left; logs are returned next to
  results.  A \<open>str\<close> is a \<open>string\<close> of UTF-8 bytes, a buffer a list of 8-bit words, an integer a word of its
  width.  What lies outside the sources is an argument: the kernel's answers to a program (\<open>trace_ctx\<close>,
  \<open>lsm_ctx\<close>), the loader and the system calls (\<open>monitor_env\<close>, \<open>attempt\<close>, \<open>child_env\<close>, \<open>main_env\<close>), the regex
  engine, YAML and JSON, the clock, the iteration order of a hash map, the eviction of an LRU map.
  Threads: the monitor runs beside the main thread, so \<open>main_env\<close> and \<open>attempt\<close> say how many deliveries the
  handler has finished when the other thread goes on (\<open>mn_seen\<close>, \<open>at_seen\<close>); the trace lists the effects up to
  that point before, the others after, the entries of the other thread, which fixes their relative order.

  Bounds and fuel.  The loops of the parsers and of \<open>glob_to_regex\<close> end by a measure; \<open>answers\<close> counts down
  the number of records that the header announces, as the source does.  The hooks scan 16 keys of a
  table and 256 bytes of a path, as the source does.  \<open>event_loop\<close> consumes a list of rounds and \<open>run\<close> a
  list of attempts: a list that has not ended the loop yields \<open>StillRunning\<close> or \<open>None\<close>, and \<open>restarts_bounded\<close>
  shows that \<open>max_restarts + 1\<close> rounds are enough.  The loop of the generator over its log is a partial
  function, since an error of a read does not end it; \<open>generate_policy_ends\<close> says when it returns.  The parser of \<open>mini_api\<close> has the length of its text as
  fuel, one node consuming at least one character.

  Not modelled: the bindings in \<open>vmlinux.rs\<close> that no program uses, the prebuilt object (built from the
  modelled source), the parsing of the command line by \<open>clap\<close>, the scheduling inside \<open>tokio\<close>, the time
  between two rounds, and poisoned mutexes.  The file system does not
  change during a discovery, and the current directory, from which it starts, is known.
\<close>

section \<open>The synchronous mode end to end\<close>

lemma hook_permits_tables:
  "same_tables st st' \<Longrightarrow> hook_permits (st', buf) w = hook_permits (st, buf) w"
  by (simp add: hook_permits_def same_tables_def split: option.split)

lemma opens_for_write_tables:
  "same_tables st st' \<Longrightarrow> opens_for_write ctx st' = opens_for_write ctx st"
  by (simp add: opens_for_write_def get_f_mode_offset_def same_tables_def)

text \<open>
  C1. From the policy file to the kernel's verdict, for the policies that the synchronous mode can
  express exactly: every allow glob is \<open>d/**\<close> for a directory, and every deny glob is of that form too or
  is one of the rules that the hook holds natively.  (A literal entry or \<open>d/*\<close> is compiled to a prefix,
  which reaches further than the glob; that is a finding, not part of this claim.)  Such a policy is
  loaded in enforce mode, \<open>Monitor::new\<close> attaches the LSM hooks, and the kernel then calls the programs in
  any order for any length of time.  Whenever a monitored task opens a file whose path the kernel
  delivers, of at most 240 bytes and without a line feed, \<open>lsm_file_open\<close> lets it through exactly when
  \<open>path_allowed\<close> of the policy does and the path is not one of the always protected ones.  (Where the
  kernel cannot deliver the path, the hook refuses: \<open>lsm_file_open_enforce\<close>.)
\<close>

theorem sync_mode_enforces_policy:
  assumes engine: "regex_engine api"
    and loaded: "from_yaml api yaml text = Inr pol" "globs_valid pol" "pol_mode pol = Enforce"
    and built: "snd (monitor_new env pid pol) = Inr m" "complete_object env"
      "(''lsm_file_open'', ''file_open'') \<in> set (mb_links m)"
    and allow: "\<forall>g \<in> set (raw_allow_read pol @ raw_allow_write pol). sync_dir g"
    and deny: "\<forall>g \<in> set (raw_deny_always pol).
                 sync_dir g \<and> \<not> is_static_security_rule g \<or> g \<in> set native_rules"
    and running: "kernel_step\<^sup>*\<^sup>* (mb_maps m, seen0) (st, seen)"
    and run: "hook_run ctx st buf"
    and path: "holds_path buf p" "length buf = 256" "length p \<le> 240" "valid_str p"
              "newline \<notin> set (chars p)"
  shows "verdict (lsm_file_open ctx st) = 0 \<longleftrightarrow>
     path_allowed api pol p (opens_for_write ctx st) \<and> \<not> sensitive p"
proof -
  have "set lsm_programs \<inter> set (mb_links m) \<noteq> {}"
    using built(3) by (auto simp: lsm_programs_def)
  then obtain c st0 where c: "try_compile_for_sync pol = Inr c" "fresh_tables st0"
    "mb_maps m = populate_maps pol c st0"
    using monitor_new_modes [OF built(1,2)] by blast
  have same: "same_tables (populate_maps pol c st0) st"
    using tables.steps_rel [OF running] by (simp add: c(3))
  have "is_enforce_mode st"
    using same populate_mode [of pol c st0] loaded(3) by (simp add: same_tables_def is_enforce_mode_def)
  then show ?thesis
    using hook_permits_policy [OF engine loaded(1,2) c(1,2) allow deny path, where w = "opens_for_write ctx st"]
    by (simp add: lsm_file_open_run [OF run] refuse_fs_def EACCES_def hook_permits_tables [OF same])
qed

text \<open>The example policy on a kernel that supports the synchronous mode.\<close>

lemma example_monitor: "\<exists>m. snd (monitor_new example_env 42 sync_policy) = Inr m"
proof -
  have call: "me_call example_env c = Inr ()" "me_has_map example_env n" "me_has_program example_env n"
    "process_exists (me_kill example_env) 42" "me_btf example_env = Inr ()" "me_memlock example_env" for c n
    by (simp_all add: example_env_def process_exists_def)
  have lsm: "snd (attach_lsm example_env prog hook links) = Inr (Some (links @ [(prog, hook)]))" for prog hook links
    by (simp add: attach_lsm_def call)
  have tp: "attach_tracepoint example_env prog hook links = Inr (links @ [(prog, hook)])" for prog hook links
    by (simp add: attach_tracepoint_def call)
  have "fill_tables example_env sync_policy sync_tables st = Inr (populate_maps sync_policy sync_tables st)" for st
    using fill_tables_ok [of example_env sync_policy sync_tables st] fill_tables_Inr [of example_env sync_policy sync_tables st]
    by (auto simp: table_maps_def)
  then have "snd (attach_sync example_env sync_policy st) = Inr (True, lsm_programs, populate_maps sync_policy sync_tables st)" for st
    by (simp add: attach_sync_steps attach_hooks_def example_sync sync_policy_compiles call lsm lsm_programs_def)
  then show ?thesis
    by (simp add: monitor_new_def call open_map_def insert_in_def fill_offsets_ok attach_common_def tp)
qed

lemma example_monitor_sync:
  "snd (monitor_new example_env 42 sync_policy) = Inr m \<Longrightarrow>
   mb_links m = lsm_programs @ common_programs \<and> is_monitored (mb_maps m) 42 \<and>
   (\<exists>c st. try_compile_for_sync sync_policy = Inr c \<and> fresh_tables st \<and> mb_maps m = populate_maps sync_policy c st)"
  using monitor_new_modes [OF _ example_complete, of 42 sync_policy m] sync_policy_compiles example_sync
  by (auto simp: example_env_def)

theorem monitor_new_mode_witness:
  "\<exists>m. snd (monitor_new example_env 42 sync_policy) = Inr m \<and> is_monitored (mb_maps m) 42 \<and>
     set common_programs \<subseteq> set (mb_links m)"
  using monitor_new_mode [OF _ example_complete] example_monitor by blast

theorem sync_mode_enforces_policy_witness:
  "\<exists>m. snd (monitor_new example_env 42 sync_policy) = Inr m \<and>
     verdict (lsm_file_open (example_ctx ''/etc/passwd'' 1) (mb_maps m)) \<noteq> 0"
proof -
  obtain m where m: "snd (monitor_new example_env 42 sync_policy) = Inr m"
    using example_monitor by blast
  note built = example_monitor_sync [OF m]
  have run: "hook_run (example_ctx ''/etc/passwd'' 1) (mb_maps m) (pad 256 (as_bytes ''/etc/passwd''))"
    using built
    by (auto simp: hook_run_def example_ctx_def example_tgid intro!: exI [of _ "int (length ''/etc/passwd'') + 1"])
  have "verdict (lsm_file_open (example_ctx ''/etc/passwd'' 1) (mb_maps m)) = 0 \<longleftrightarrow>
      path_allowed mini_api sync_policy ''/etc/passwd''
        (opens_for_write (example_ctx ''/etc/passwd'' 1) (mb_maps m)) \<and> \<not> sensitive ''/etc/passwd''"
  proof (rule sync_mode_enforces_policy [OF mini.regex_engine_axioms sync_policy_loads sync_policy_valid
        _ m example_complete _ _ _ rtranclp.rtrancl_refl run])
    show "(''lsm_file_open'', ''file_open'') \<in> set (mb_links m)"
      using built by (simp add: lsm_programs_def)
    have "\<not> is_static_security_rule ''/data/secret/**''"
      by code_simp
    then show "\<forall>g \<in> set (raw_deny_always sync_policy).
        sync_dir g \<and> \<not> is_static_security_rule g \<or> g \<in> set native_rules"
      by (simp add: sync_policy_def sync_dirs native_rules_def)
    show "holds_path (pad 256 (as_bytes ''/etc/passwd'')) ''/etc/passwd''"
      by (rule example_holds) simp_all
    show "newline \<notin> set (chars ''/etc/passwd'')"
      by code_simp
    show "valid_str ''/etc/passwd''"
      by (rule valid_str_ascii) simp
  qed (simp_all add: sync_policy_def sync_dirs)
  moreover have "\<not> glob_covers ''/data/**'' ''/etc/passwd''" "\<not> glob_covers ''/data/out/**'' ''/etc/passwd''"
    by code_simp+
  then have "\<not> path_allowed mini_api sync_policy ''/etc/passwd'' w" for w
    using path_allowed_globs [OF mini.regex_engine_axioms sync_policy_loads sync_policy_valid, of "''/etc/passwd''" w]
    by (simp add: sync_globs valid_str_ascii del: chars.simps)
  ultimately show ?thesis
    using m by blast
qed

end
